(* ===== verification/Prelude.thy ===== *)
theory Prelude
  imports Main "HOL-Library.Word" "HOL-Library.Sublist" "HOL-Library.Multiset"
begin

text \<open>
  Shared vocabulary of the development: the Go types the repository uses (64-bit integers,
  strings and byte slices, instants and durations, error values, panics), and the generic
  facts about them that the component theories rely on.

  \<^item> \<open>int64\<close> is Go's \<open>int64\<close> and \<open>goint\<close> Go's \<open>int\<close> on a 64-bit platform; arithmetic wraps
    around, and every comparison of the source is a comparison of \<open>sint\<close> values;
  \<^item> a Go string and a byte slice are both byte sequences, here \<open>string\<close>;
  \<^item> an instant is its number of nanoseconds since the Unix epoch, a \<open>time.Duration\<close> is an
    \<open>int64\<close> number of nanoseconds;
  \<^item> an \<open>error\<close> value is its message, and a pair \<open>(value, error)\<close> is \<open>error + value\<close>;
  \<^item> a run-time panic is the constructor \<open>Panic\<close> of \<open>outcome\<close>.
\<close>

section \<open>Types\<close>

type_synonym int64 = "64 word"
type_synonym goint = "64 word"
type_synonym bytes = string
type_synonym time = int
type_synonym duration = int64
type_synonym error = string
type_synonym 'a result = "error + 'a"

datatype 'a outcome = Return 'a | Panic string

fun bind_outcome :: "'a outcome \<Rightarrow> ('a \<Rightarrow> 'b outcome) \<Rightarrow> 'b outcome" where
  "bind_outcome (Return x) f = f x"
| "bind_outcome (Panic m) f = Panic m"

fun is_Ok :: "'a result \<Rightarrow> bool" where
  "is_Ok (Inr _) = True"
| "is_Ok (Inl _) = False"

definition second :: int where "second = 1000000000"
definition minute :: int where "minute = 60 * second"

text \<open>\<open>Time.Add\<close>: an instant moved by a duration.\<close>

definition time_add :: "time \<Rightarrow> duration \<Rightarrow> time" where
  "time_add t d = t + sint d"

text \<open>The zero value \<open>time.Time{}\<close>: January 1, year 1, 00:00:00 UTC.\<close>

definition zero_time :: time where "zero_time = - 62135596800 * second"

text \<open>Pointers that may be nil are \<open>option\<close> values; a zero 64-bit value is \<open>0\<close>.\<close>

named_theorems size_simps \<open>facts about 64-bit sizes read as integers\<close>
named_theorems go_defs \<open>definitions of Go helper operations that proofs unfold\<close>

declare second_def [go_defs] minute_def [go_defs] time_add_def [go_defs]

section \<open>64-bit arithmetic read as integers\<close>

abbreviation in_int64 :: "int \<Rightarrow> bool" where
  "in_int64 x \<equiv> - (2 ^ 63) \<le> x \<and> x < 2 ^ 63"

lemma sint_range [simp]: "in_int64 (sint (a :: int64))"
  using sint_greater_eq [of a] sint_less [of a] by simp

lemma sint_ge_min: "- 9223372036854775808 \<le> sint (a :: int64)"
  and sint_le_max: "sint (a :: int64) \<le> 9223372036854775807"
  using sint_range [of a] by simp_all

lemma sint_add64 [size_simps]:
  "in_int64 (sint a + sint b) \<Longrightarrow> sint (a + b :: int64) = sint a + sint b"
  by (simp add: sint_word_ariths signed_take_bit_int_eq_self)

lemma sint_diff64 [size_simps]:
  "in_int64 (sint a - sint b) \<Longrightarrow> sint (a - b :: int64) = sint a - sint b"
  by (simp add: sint_word_ariths signed_take_bit_int_eq_self)

lemma sint_mult64 [size_simps]:
  "in_int64 (sint a * sint b) \<Longrightarrow> sint (a * b :: int64) = sint a * sint b"
  by (simp add: sint_word_ariths signed_take_bit_int_eq_self)

lemma sint_of_nat64 [size_simps]:
  "n < 2 ^ 63 \<Longrightarrow> sint (of_nat n :: int64) = int n"
  by (simp add: sint_uint unsigned_of_nat take_bit_nat_eq_self signed_take_bit_int_eq_self
      take_bit_int_eq_self)

lemma sint_of_int64 [size_simps]:
  "in_int64 x \<Longrightarrow> sint (of_int x :: int64) = x"
  by (simp add: signed_of_int signed_take_bit_int_eq_self)

lemma sint_inject64: "sint (a :: int64) = sint b \<longleftrightarrow> a = b"
  by (rule signed_word_eqI [THEN iffI]) auto

section \<open>Lists and sums\<close>

lemma sum_list_map_mono:
  "(\<And>x. x \<in> set xs \<Longrightarrow> f x \<le> g x) \<Longrightarrow> sum_list (map f xs) \<le> sum_list (map (g :: _ \<Rightarrow> int) xs)"
  by (induction xs) (auto intro: add_mono)

lemma sum_list_map_nonneg:
  "(\<And>x. x \<in> set xs \<Longrightarrow> 0 \<le> f x) \<Longrightarrow> 0 \<le> sum_list (map (f :: _ \<Rightarrow> int) xs)"
  by (induction xs) auto

lemma sum_list_map_filter_le:
  "(\<And>x. x \<in> set xs \<Longrightarrow> 0 \<le> f x) \<Longrightarrow>
    sum_list (map f (filter P xs)) \<le> sum_list (map (f :: _ \<Rightarrow> int) xs)"
  by (induction xs) (auto intro: add_increasing)

lemma sum_list_map_mset_eq:
  "mset xs = mset ys \<Longrightarrow> sum_list (map f xs) = sum_list (map (f :: _ \<Rightarrow> int) ys)"
  by (metis mset_map sum_mset_sum_list)

lemma list_all2_left: "list_all2 P xs ys \<Longrightarrow> x \<in> set xs \<Longrightarrow> \<exists>y \<in> set ys. P x y"
  by (induction xs ys rule: list_all2_induct) auto

lemma list_all2_right: "list_all2 P xs ys \<Longrightarrow> y \<in> set ys \<Longrightarrow> \<exists>x \<in> set xs. P x y"
  by (induction xs ys rule: list_all2_induct) auto

lemma bind_outcome_Return:
  "bind_outcome x f = Return y \<longleftrightarrow> (\<exists>z. x = Return z \<and> f z = Return y)"
  by (cases x) auto

lemma bind_outcomeE:
  assumes "bind_outcome x f = Return y"
  obtains z where "x = Return z" "f z = Return y"
  using assms by (cases x) auto

lemma last_match:
  assumes "x \<in> set xs" "P x"
  shows "\<exists>y \<in> set xs. P y \<and> (case rev (filter P xs) of [] \<Rightarrow> d | k # _ \<Rightarrow> Some k) = Some y"
proof (cases "rev (filter P xs)")
  case Nil
  then show ?thesis using assms by (auto simp: filter_empty_conv)
next
  case (Cons k ks)
  have "k \<in> set (rev (filter P xs))" unfolding Cons by simp
  then have "k \<in> set xs \<and> P k" by simp
  then show ?thesis unfolding Cons by auto
qed

lemma mset_filter_other_keys:
  assumes "distinct (map f xs)" "mset ds \<subseteq># mset xs"
  shows "mset (filter (\<lambda>x. f x \<notin> f ` set ds) xs) = mset xs - mset ds"
proof -
  obtain rest where rest: "mset xs = mset (ds @ rest)"
    using assms(2) by (metis ex_mset mset_append subset_mset.le_iff_add)
  then have "distinct (map f (ds @ rest))"
    using assms(1) by (metis mset_eq_imp_distinct_iff mset_map)
  then have "filter (\<lambda>x. f x \<notin> f ` set ds) (ds @ rest) = rest"
    by (auto simp: filter_empty_conv filter_id_conv)
  then show ?thesis using rest by (metis add_diff_cancel_left' mset_append mset_filter)
qed

lemma in_set_takeD_sorted:
  assumes "sorted (map f xs)" "x \<in> set (take n xs)" "y \<in> set (drop n xs)"
  shows "f x \<le> f y"
proof -
  have "sorted (map f (take n xs) @ map f (drop n xs))"
    using assms(1) by (simp flip: map_append)
  then show ?thesis using assms(2,3) by (auto simp: sorted_append)
qed

end
