(* ===== verification/Go_Strings.thy ===== *)
theory Go_Strings
  imports Prelude
begin

text \<open>
  The functions of Go's \<open>strings\<close> and \<open>fmt\<close> packages that the repository calls, on byte
  sequences: \<open>Contains\<close>, \<open>HasPrefix\<close>, \<open>TrimPrefix\<close>, \<open>Trim\<close>, \<open>LastIndex\<close>, \<open>Split\<close>,
  \<open>SplitN\<close>, \<open>Replace\<close> with count 1, \<open>ReplaceAll\<close>, and the decimal output of \<open>fmt\<close>'s
  \<open>%v\<close> and \<open>%d\<close> on integers. Separators are single bytes, as in every call of the source.
\<close>

section \<open>Searching and trimming\<close>

definition strContains :: "string \<Rightarrow> string \<Rightarrow> bool" where
  "strContains s sub = sublist sub s"

lemma strContains_char [simp]: "strContains s [c] \<longleftrightarrow> c \<in> set s"
proof -
  have "s = p @ [c] @ q \<Longrightarrow> c \<in> set s" for p q by auto
  moreover have "c \<in> set s \<Longrightarrow> \<exists>p q. s = p @ [c] @ q" using split_list [of c s] by auto
  ultimately show ?thesis unfolding strContains_def sublist_def by blast
qed

definition HasPrefix :: "string \<Rightarrow> string \<Rightarrow> bool" where
  "HasPrefix s p = prefix p s"

definition TrimPrefix :: "string \<Rightarrow> string \<Rightarrow> string" where
  "TrimPrefix s p = (if HasPrefix s p then drop (length p) s else s)"

definition Trim :: "string \<Rightarrow> string \<Rightarrow> string" where
  "Trim s cutset =
     rev (dropWhile (\<lambda>c. c \<in> set cutset) (rev (dropWhile (\<lambda>c. c \<in> set cutset) s)))"

text \<open>\<open>strings.LastIndex\<close> of a one-byte separator: -1 when it does not occur.\<close>

definition LastIndex :: "string \<Rightarrow> char \<Rightarrow> int" where
  "LastIndex s c =
     (if c \<in> set s then int (length s) - 1 - int (length (takeWhile (\<lambda>x. x \<noteq> c) (rev s)))
      else - 1)"

lemma LastIndex_append:
  assumes "c \<notin> set k"
  shows "LastIndex (u @ c # k) c = int (length u)"
proof -
  have "takeWhile (\<lambda>x. x \<noteq> c) (rev k @ c # rev u) = rev k"
    using assms by (subst takeWhile_append2) auto
  then show ?thesis by (simp add: LastIndex_def)
qed

lemma LastIndex_decomp:
  assumes "c \<in> set s"
  obtains u k where "s = u @ c # k" "c \<notin> set k"
  using assms split_list_last by metis

text \<open>A text between single quotes, as the error messages quote their arguments.\<close>

definition quoted :: "string \<Rightarrow> string" where
  "quoted s = CHR 0x27 # s @ [CHR 0x27]"

section \<open>Splitting\<close>

text \<open>\<open>strings.Split(s, sep)\<close>: all pieces between the separators, never the empty list.\<close>

fun Split :: "string \<Rightarrow> char \<Rightarrow> string list" where
  "Split [] c = [[]]"
| "Split (x # xs) c =
     (if x = c then [] # Split xs c
      else (case Split xs c of [] \<Rightarrow> [[x]] | w # ws \<Rightarrow> (x # w) # ws))"

text \<open>\<open>strings.SplitN(s, sep, n)\<close>: at most \<open>n\<close> pieces, the last one is the unsplit rest.\<close>

fun SplitN :: "string \<Rightarrow> char \<Rightarrow> nat \<Rightarrow> string list" where
  "SplitN s c 0 = []"
| "SplitN s c (Suc 0) = [s]"
| "SplitN s c (Suc (Suc n)) =
     (if c \<in> set s
      then takeWhile (\<lambda>x. x \<noteq> c) s # SplitN (tl (dropWhile (\<lambda>x. x \<noteq> c) s)) c (Suc n)
      else [s])"

lemma Split_not_Nil [simp]: "Split s c \<noteq> []"
  by (induction s c rule: Split.induct) (auto split: list.splits)

lemma Split_no_sep: "c \<notin> set s \<Longrightarrow> Split s c = [s]"
  by (induction s) auto

lemma Split_append: "c \<notin> set a \<Longrightarrow> Split (a @ c # b) c = a # Split b c"
  by (induction a) auto

text \<open>Splitting and joining with the separator gives the string back.\<close>

fun join :: "char \<Rightarrow> string list \<Rightarrow> string" where
  "join c [] = []"
| "join c [w] = w"
| "join c (w # ws) = w @ c # join c ws"

lemma join_Cons: "ws \<noteq> [] \<Longrightarrow> join c (w # ws) = w @ c # join c ws"
  by (cases ws) auto

lemma join_Split: "join c (Split s c) = s"
proof (induction s)
  case (Cons x xs)
  obtain w ws where ws: "Split xs c = w # ws" by (cases "Split xs c") auto
  with Cons show ?case by (cases ws) auto
qed simp

lemma Split_pieces: "w \<in> set (Split s c) \<Longrightarrow> c \<notin> set w"
  by (induction s arbitrary: w) (auto split: list.splits if_splits)

lemma Split_join:
  "ws \<noteq> [] \<Longrightarrow> (\<And>w. w \<in> set ws \<Longrightarrow> c \<notin> set w) \<Longrightarrow> Split (join c ws) c = ws"
proof (induction ws)
  case (Cons w ws)
  then show ?case by (cases ws) (auto simp: Split_no_sep Split_append)
qed simp

section \<open>Replacing\<close>

text \<open>\<open>strings.Replace(s, old, new, 1)\<close> for a non-empty \<open>old\<close>.\<close>

fun replaceFirst :: "string \<Rightarrow> string \<Rightarrow> string \<Rightarrow> string" where
  "replaceFirst [] old new = (if prefix old [] then new else [])"
| "replaceFirst (c # cs) old new =
     (if prefix old (c # cs) then new @ drop (length old) (c # cs)
      else c # replaceFirst cs old new)"

text \<open>\<open>strings.ReplaceAll(s, old, new)\<close> for the non-empty \<open>old = o # os\<close>.\<close>

function replaceAll :: "string \<Rightarrow> char \<Rightarrow> string \<Rightarrow> string \<Rightarrow> string" where
  "replaceAll s o1 os new =
     (if prefix (o1 # os) s then new @ replaceAll (drop (length (o1 # os)) s) o1 os new
      else (case s of [] \<Rightarrow> [] | c # cs \<Rightarrow> c # replaceAll cs o1 os new))"
  by pat_completeness auto
termination
  by (relation "measure (\<lambda>(s, _). length s)") (auto simp: prefix_def)

declare replaceAll.simps [simp del]

lemma replaceFirst_absent: "\<not> sublist old s \<Longrightarrow> replaceFirst s old new = s"
  by (induction s) (auto simp: sublist_Cons_right)

text \<open>
  The position of the replacement does not depend on the new text: the result is a fixed
  prefix, the new text and a fixed suffix.
\<close>

lemma replaceFirst_present:
  "sublist old s \<Longrightarrow> \<exists>p q. \<forall>new. replaceFirst s old new = p @ new @ q"
proof (induction s)
  case Nil
  then have "\<forall>new. replaceFirst [] old new = [] @ new @ []" by simp
  then show ?case by blast
next
  case (Cons c cs)
  show ?case
  proof (cases "prefix old (c # cs)")
    case True
    then have "\<forall>new. replaceFirst (c # cs) old new = [] @ new @ drop (length old) (c # cs)"
      by simp
    then show ?thesis by blast
  next
    case False
    with Cons.prems have "sublist old cs" by (simp add: sublist_Cons_right)
    with Cons.IH obtain p q where "\<forall>new. replaceFirst cs old new = p @ new @ q" by blast
    with False have "\<forall>new. replaceFirst (c # cs) old new = (c # p) @ new @ q" by simp
    then show ?thesis by blast
  qed
qed

text \<open>
  The replacement of a doubled byte does not look across a boundary whose right side starts
  with another byte and holds no doubled byte.
\<close>

lemma replaceAll_hit: "replaceAll (c # c # r) c [c] new = new @ replaceAll r c [c] new"
  by (subst replaceAll.simps) simp

lemma replaceAll_miss:
  assumes "\<not> prefix [c, c] (x # s)"
  shows "replaceAll (x # s) c [c] new = x # replaceAll s c [c] new"
  using assms by (subst replaceAll.simps) (simp del: Cons_prefix_Cons)

lemma replaceAll_absent: "\<not> sublist [c, c] t \<Longrightarrow> replaceAll t c [c] new = t"
proof (induction t)
  case Nil
  then show ?case by (simp add: replaceAll.simps)
next
  case (Cons x t)
  then have "\<not> prefix [c, c] (x # t)" "\<not> sublist [c, c] t" by (auto simp: sublist_Cons_right)
  with Cons.IH show ?case by (simp add: replaceAll_miss del: Cons_prefix_Cons)
qed

lemma replaceAll_append:
  assumes "\<not> sublist [c, c] t" and "t = [] \<or> hd t \<noteq> c"
  shows "replaceAll (s @ t) c [c] new = replaceAll s c [c] new @ t"
proof (induction "length s" arbitrary: s rule: less_induct)
  case less
  show ?case
  proof (cases s)
    case Nil
    then show ?thesis using replaceAll_absent [OF assms(1)] by (simp add: replaceAll.simps [of "[]"])
  next
    case (Cons x s')
    have eq: "prefix [c, c] (s @ t) = prefix [c, c] s"
      using assms(2) Cons by (cases s'; cases t) auto
    show ?thesis
    proof (cases "prefix [c, c] s")
      case True
      then obtain r where r: "s = c # c # r" by (auto simp: prefix_def)
      have "replaceAll (r @ t) c [c] new = replaceAll r c [c] new @ t" by (rule less) (simp add: r)
      then show ?thesis by (simp add: r replaceAll_hit)
    next
      case False
      have "replaceAll (s' @ t) c [c] new = replaceAll s' c [c] new @ t" by (rule less) (simp add: Cons)
      then show ?thesis using False eq by (simp add: Cons replaceAll_miss del: Cons_prefix_Cons)
    qed
  qed
qed

text \<open>Collapsing doubled characters and one more character at the end.\<close>

lemma replaceAll_snoc:
  "length (replaceAll (s @ [x]) c [c] [c]) \<le> Suc (length (replaceAll s c [c] [c]))
   \<and> (x = c \<longrightarrow> (\<exists>q. replaceAll (s @ [c]) c [c] [c] = q @ [c]))"
proof (induction s rule: length_induct)
  case (1 s)
  have nil: "replaceAll [] c [c] [c] = []" by (simp add: replaceAll.simps)
  have one: "replaceAll [y] c [c] [c] = [y]" for y by (simp add: replaceAll.simps [of "[y]"] nil)
  consider "s = []" | y where "s = [y]" | r where "s = c # c # r" | y z r where "s = y # z # r" "\<not> (y = c \<and> z = c)"
    by (metis list.exhaust)
  then show ?case
  proof cases
    case 1
    then show ?thesis by (simp add: one nil)
  next
    case (2 y)
    show ?thesis
    proof (cases "y = c \<and> x = c")
      case True
      with 2 show ?thesis using replaceAll_hit [of c "[]" "[c]"] by (simp add: nil one)
    next
      case False
      then have "replaceAll [y, x] c [c] [c] = [y, x]" by (subst replaceAll_miss) (auto simp: one)
      with 2 show ?thesis by (auto simp: one intro: exI [of _ "[y]"])
    qed
  next
    case (3 r)
    from "1.IH" 3 have "length (replaceAll (r @ [x]) c [c] [c]) \<le> Suc (length (replaceAll r c [c] [c]))
      \<and> (x = c \<longrightarrow> (\<exists>q. replaceAll (r @ [c]) c [c] [c] = q @ [c]))" by simp
    with 3 show ?thesis by (auto simp: replaceAll_hit)
  next
    case (4 y z r)
    from "1.IH" 4(1) have "length (replaceAll ((z # r) @ [x]) c [c] [c]) \<le> Suc (length (replaceAll (z # r) c [c] [c]))
      \<and> (x = c \<longrightarrow> (\<exists>q. replaceAll ((z # r) @ [c]) c [c] [c] = q @ [c]))" by (metis length_Cons lessI)
    moreover have "replaceAll (y # z # t) c [c] [c] = y # replaceAll (z # t) c [c] [c]" for t
      using 4(2) by (intro replaceAll_miss) auto
    ultimately show ?thesis using 4(1) by auto
  qed
qed

section \<open>Decimal output\<close>

definition digit_char :: "nat \<Rightarrow> char" where
  "digit_char d = char_of (48 + d)"

fun nat_dec :: "nat \<Rightarrow> string" where
  "nat_dec n =
     (if n < 10 then [digit_char n] else nat_dec (n div 10) @ [digit_char (n mod 10)])"

declare nat_dec.simps [simp del]

definition itoa :: "int \<Rightarrow> string" where
  "itoa i = (if i < 0 then CHR ''-'' # nat_dec (nat (- i)) else nat_dec (nat i))"

text \<open>Reading the digits back, and with them the injectivity of the output.\<close>

definition digit_val :: "char \<Rightarrow> nat" where
  "digit_val c = of_char c - 48"

definition is_digit :: "char \<Rightarrow> bool" where
  "is_digit c \<longleftrightarrow> 48 \<le> (of_char c :: nat) \<and> (of_char c :: nat) < 58"

definition dec_nat :: "string \<Rightarrow> nat" where
  "dec_nat s = foldl (\<lambda>acc c. 10 * acc + digit_val c) 0 s"

definition atoi :: "string \<Rightarrow> int option" where
  "atoi s =
     (case s of
        [] \<Rightarrow> None
      | c # cs \<Rightarrow>
          if c = CHR ''-'' then (if cs \<noteq> [] \<and> list_all is_digit cs then Some (- int (dec_nat cs)) else None)
          else if list_all is_digit s then Some (int (dec_nat s)) else None)"

lemma of_char_digit_char: "d < 10 \<Longrightarrow> of_char (digit_char d) = (48 + d :: nat)"
  by (simp add: digit_char_def)

lemma digit_val_digit_char [simp]: "d < 10 \<Longrightarrow> digit_val (digit_char d) = d"
  by (simp add: digit_val_def of_char_digit_char)

lemma is_digit_digit_char [simp]: "d < 10 \<Longrightarrow> is_digit (digit_char d)"
  by (simp add: is_digit_def of_char_digit_char)

lemma nat_dec_digits: "list_all is_digit (nat_dec n)"
proof (induction n rule: nat_dec.induct)
  case (1 n)
  then show ?case by (subst nat_dec.simps) simp
qed

lemma nat_dec_not_Nil [simp]: "nat_dec n \<noteq> []"
  by (subst nat_dec.simps) simp

lemma dec_nat_nat_dec [simp]: "dec_nat (nat_dec n) = n"
proof (induction n rule: nat_dec.induct)
  case (1 n)
  show ?case
  proof (cases "n < 10")
    case True
    then show ?thesis by (simp add: nat_dec.simps [of n] dec_nat_def)
  next
    case False
    then have "dec_nat (nat_dec (n div 10)) = n div 10" by (rule "1.IH")
    with False show ?thesis by (simp add: nat_dec.simps [of n] dec_nat_def)
  qed
qed

lemma nat_dec_head: "nat_dec n = c # cs \<Longrightarrow> c \<noteq> CHR ''-''"
  using nat_dec_digits [of n] by (auto simp: is_digit_def)

lemma atoi_itoa [simp]: "atoi (itoa i) = Some i"
proof (cases "i < 0")
  case True
  then show ?thesis by (simp add: itoa_def atoi_def nat_dec_digits)
next
  case False
  then show ?thesis
    using nat_dec_head [of "nat i"] nat_dec_digits [of "nat i"] dec_nat_nat_dec [of "nat i"]
    by (cases "nat_dec (nat i)") (auto simp: itoa_def atoi_def)
qed

lemma itoa_inject [simp]: "itoa i = itoa j \<longleftrightarrow> i = j"
  by (metis atoi_itoa option.inject)

lemma itoa_chars: "c \<in> set (itoa i) \<Longrightarrow> is_digit c \<or> c = CHR ''-''"
  using nat_dec_digits by (auto simp: itoa_def list_all_iff split: if_splits)

end
