(* ===== verification/Security_Decision.thy ===== *)
theory Security_Decision
  imports Go_Strings
begin

text \<open>
  Roles, access control lists and the access decision: \<open>pkg/security/constants.go\<close>, the role
  and ACL types of \<open>pkg/security/model.go\<close>, and \<open>pkg/security/decision.go\<close>.

  A Go interface value (\<open>Actor\<close>, \<open>Subject\<close>) is the record of its methods; the types that
  implement the interfaces (\<open>SessionAwareUser\<close>, \<open>Collection\<close>) are converted to these records
  in their own theories. A nil \<open>Subject\<close> and a nil scope pointer are \<open>None\<close>; a nil slice is
  the empty list. \<open>slices.Contains\<close> is list membership.
\<close>

section \<open>Roles and actions (constants.go)\<close>

named_theorems security_consts \<open>the string constants of constants.go\<close>

definition RoleUserManager :: string where [security_consts]: "RoleUserManager = ''userManager''"
definition RoleCollectionManager :: string where [security_consts]: "RoleCollectionManager = ''collectionManager''"
definition RoleBackupDownloader :: string where [security_consts]: "RoleBackupDownloader = ''backupDownloader''"
definition RoleBackupUploader :: string where [security_consts]: "RoleBackupUploader = ''backupUploader''"
definition RoleUploadsAnytime :: string where [security_consts]: "RoleUploadsAnytime = ''uploadsAnytime''"
definition RoleSysAdmin :: string where [security_consts]: "RoleSysAdmin = ''systemAdmin''"

definition ActionDownload :: string where [security_consts]: "ActionDownload = ''file.download''"
definition ActionUpload :: string where [security_consts]: "ActionUpload = ''file.upload''"
definition ActionUploadAnytime :: string where [security_consts]: "ActionUploadAnytime = ''file.upload-anytime''"
definition ActionViewProfile :: string where [security_consts]: "ActionViewProfile = ''profile.view''"

definition AllActions :: "string list" where
  "AllActions = [ActionDownload, ActionUpload, ActionUploadAnytime, ActionViewProfile]"

definition GetRolesInheritance :: "string \<rightharpoonup> string list" where
  "GetRolesInheritance =
     [RoleSysAdmin \<mapsto> [RoleUserManager, RoleCollectionManager],
      RoleCollectionManager \<mapsto> [RoleBackupDownloader, RoleBackupDownloader, RoleUploadsAnytime]]"

definition GetRolesActions :: "string \<rightharpoonup> string list" where
  "GetRolesActions =
     [RoleBackupDownloader \<mapsto> [ActionDownload],
      RoleBackupUploader \<mapsto> [ActionUpload],
      RoleUploadsAnytime \<mapsto> [ActionUpload, ActionUploadAnytime],
      RoleUserManager \<mapsto> [ActionViewProfile]]"

section \<open>Roles and access control lists (model.go)\<close>

type_synonym Roles = "string list"

definition IsEmpty :: "Roles \<Rightarrow> bool" where
  "IsEmpty p = (length p = 0)"

fun has :: "Roles \<Rightarrow> string \<Rightarrow> bool" where
  "has [] name = False"
| "has (cursor # p) name = (if cursor = name then True else has p name)"

definition HasRole :: "Roles \<Rightarrow> string \<Rightarrow> bool" where
  "HasRole p name = (has p name \<or> has p RoleSysAdmin)"

record ScopedElement =
  se_Type :: string
  se_Name :: string
  se_Roles :: "string list"

record SessionLimitedOperationsScope =
  Elements :: "ScopedElement list"

record AccessControlObject =
  aco_Name :: string
  aco_Type :: string
  aco_Roles :: Roles

type_synonym AccessControlList = "AccessControlObject list"

record Subject =
  sub_GetId :: string
  sub_GetTypeName :: string
  sub_GetAccessControlList :: AccessControlList

record Actor =
  act_IsInAccessKeyContext :: bool
  act_GetAccessKeyRolesInContextOf :: "Subject \<Rightarrow> Roles"
  act_GetRoles :: Roles
  act_GetEmail :: string
  act_GetName :: string
  act_GetTypeName :: string
  act_GetSessionLimitedOperationsScope :: "SessionLimitedOperationsScope option"

record DecisionRequest =
  dr_Actor :: Actor
  dr_Subject :: "Subject option"
  dr_Action :: string

section \<open>Expansion of roles and actions (decision.go)\<close>

text \<open>
  \<open>expandRoles\<close> calls itself on every inherited role. It stops because inheritance strictly
  lowers the rank of a role.
\<close>

definition role_rank :: "string \<Rightarrow> nat" where
  "role_rank r = (if r = RoleSysAdmin then 2 else if r = RoleCollectionManager then 1 else 0)"

lemma role_rank_child:
  "GetRolesInheritance role = Some children \<Longrightarrow> e \<in> set children \<Longrightarrow> role_rank e < role_rank role"
  by (auto simp: GetRolesInheritance_def role_rank_def security_consts split: if_splits)

lemma rank_le_sum_ranks: "r \<in> set rs \<Longrightarrow> role_rank r \<le> sum_list (map role_rank rs)"
  by (induction rs) auto

function expandRoles :: "string list \<Rightarrow> string list" where
  "expandRoles roles =
     roles @
     concat (map (\<lambda>role.
       case GetRolesInheritance role of
         None \<Rightarrow> []
       | Some children \<Rightarrow>
           concat (map (\<lambda>element.
             (if element \<notin> set roles then [element] else []) @ expandRoles [element]) children))
       roles)"
  by pat_completeness auto
termination
proof (relation "measure (\<lambda>roles. sum_list (map role_rank roles))", goal_cases)
  case (2 roles role children element)
  then show ?case
    using role_rank_child [of role children element] rank_le_sum_ranks [of role roles] by simp
qed simp

declare expandRoles.simps [simp del]

fun expandActions :: "string list \<Rightarrow> string list" where
  "expandActions [] = []"
| "expandActions (role # roles) =
     (case GetRolesActions role of Some roleActions \<Rightarrow> roleActions | None \<Rightarrow> []) @ expandActions roles"

definition CanThoseRolesPerformAction :: "string list \<Rightarrow> string \<Rightarrow> bool" where
  "CanThoseRolesPerformAction roles action = (action \<in> set (expandActions (expandRoles roles)))"

fun IsPermitted :: "AccessControlList \<Rightarrow> string \<Rightarrow> string \<Rightarrow> string \<Rightarrow> bool" where
  "IsPermitted [] name objType action = False"
| "IsPermitted (permitted # acl) name objType action =
     (if aco_Name permitted = name \<and> aco_Type permitted = objType
         \<and> CanThoseRolesPerformAction (aco_Roles permitted) action
      then True else IsPermitted acl name objType action)"

section \<open>The decision (decision.go)\<close>

definition hasCurrentTokenLimitations :: "Actor \<Rightarrow> bool" where
  "hasCurrentTokenLimitations a =
     (case act_GetSessionLimitedOperationsScope a of
        None \<Rightarrow> False
      | Some scope \<Rightarrow> length (Elements scope) > 0)"

text \<open>The loop over the elements of the token's scope: the last matching element decides.\<close>

fun scanScope :: "ScopedElement list \<Rightarrow> Subject \<Rightarrow> string \<Rightarrow> bool \<Rightarrow> bool" where
  "scanScope [] s action foundAllowing = foundAllowing"
| "scanScope (object # os) s action foundAllowing =
     scanScope os s action
       (if se_Type object = sub_GetTypeName s \<and> se_Name object = sub_GetId s
        then CanThoseRolesPerformAction (se_Roles object) action
        else foundAllowing)"

definition DecideCanDo :: "DecisionRequest \<Rightarrow> bool" where
  "DecideCanDo dr =
     (let actor = dr_Actor dr; action = dr_Action dr in
      case dr_Subject dr of
        None \<Rightarrow> CanThoseRolesPerformAction (act_GetRoles actor) action
      | Some s \<Rightarrow>
          if act_IsInAccessKeyContext actor
             \<and> \<not> CanThoseRolesPerformAction (act_GetAccessKeyRolesInContextOf actor s) action
          then False
          else if hasCurrentTokenLimitations actor
             \<and> \<not> (case act_GetSessionLimitedOperationsScope actor of
                    None \<Rightarrow> False
                  | Some limitations \<Rightarrow> scanScope (Elements limitations) s action False)
          then False
          else IsPermitted (sub_GetAccessControlList s) (act_GetName actor) (act_GetTypeName actor) action
               \<or> CanThoseRolesPerformAction (act_GetRoles actor) action)"

section \<open>Roles: lemmas\<close>

lemma has_set [simp]: "has p name \<longleftrightarrow> name \<in> set p"
  by (induction p) auto

text \<open>Inheritance as a relation: one declared step, and its reflexive transitive closure.\<close>

inductive inherits :: "string \<Rightarrow> string \<Rightarrow> bool" where
  self: "inherits r r"
| step: "GetRolesInheritance r = Some cs \<Longrightarrow> c \<in> set cs \<Longrightarrow> inherits c r' \<Longrightarrow> inherits r r'"

declare inherits.self [intro]

inductive_cases inherits_from: "inherits r r'"

lemma mem_expandRoles:
  "x \<in> set (expandRoles roles) \<longleftrightarrow>
     x \<in> set roles \<or>
     (\<exists>role \<in> set roles. \<exists>cs. GetRolesInheritance role = Some cs \<and>
        (\<exists>e \<in> set cs. x = e \<or> x \<in> set (expandRoles [e])))"
proof -
  have "x \<in> set (concat (map (\<lambda>role.
       case GetRolesInheritance role of
         None \<Rightarrow> []
       | Some children \<Rightarrow>
           concat (map (\<lambda>element.
             (if element \<notin> set roles then [element] else []) @ expandRoles [element]) children))
       roles)) \<longleftrightarrow>
     (\<exists>role \<in> set roles. \<exists>cs. GetRolesInheritance role = Some cs \<and>
        (\<exists>e \<in> set cs. (x = e \<and> e \<notin> set roles) \<or> x \<in> set (expandRoles [e])))"
    by (force split: option.splits if_splits)
  then show ?thesis by (subst expandRoles.simps) auto
qed

lemma set_expandRoles: "x \<in> set (expandRoles roles) \<longleftrightarrow> (\<exists>r \<in> set roles. inherits r x)"
proof (induction roles arbitrary: x rule: expandRoles.induct)
  case (1 roles)
  have IH: "x \<in> set (expandRoles [e]) \<longleftrightarrow> inherits e x"
    if "role \<in> set roles" "GetRolesInheritance role = Some cs" "e \<in> set cs" for role cs e
    using "1.IH" [OF that] by simp
  show ?case
  proof
    assume "x \<in> set (expandRoles roles)"
    then show "\<exists>r \<in> set roles. inherits r x"
      using IH by (subst (asm) mem_expandRoles) (blast intro: inherits.step)
  next
    assume "\<exists>r \<in> set roles. inherits r x"
    then show "x \<in> set (expandRoles roles)"
      using IH by (subst mem_expandRoles) (blast elim: inherits_from)
  qed
qed

lemma set_expandActions:
  "set (expandActions roles) = {a. \<exists>r \<in> set roles. \<exists>as. GetRolesActions r = Some as \<and> a \<in> set as}"
  by (induction roles) (auto split: option.splits)

text \<open>A list of roles performs an action exactly when one of them inherits a role that has it.\<close>

lemma CanThoseRolesPerformAction_iff:
  "CanThoseRolesPerformAction roles action \<longleftrightarrow>
     (\<exists>r \<in> set roles. \<exists>r'. inherits r r' \<and> (\<exists>as. GetRolesActions r' = Some as \<and> action \<in> set as))"
  unfolding CanThoseRolesPerformAction_def set_expandActions mem_Collect_eq Bex_def set_expandRoles
  by blast

lemma CanThoseRolesPerformAction_mono:
  "set roles \<subseteq> set roles' \<Longrightarrow> CanThoseRolesPerformAction roles action \<Longrightarrow>
     CanThoseRolesPerformAction roles' action"
  by (auto simp: CanThoseRolesPerformAction_iff)

lemma CanThoseRolesPerformAction_Nil [simp]: "\<not> CanThoseRolesPerformAction [] action"
  by (simp add: CanThoseRolesPerformAction_iff)

lemma IsPermitted_iff:
  "IsPermitted acl name objType action \<longleftrightarrow>
     (\<exists>p \<in> set acl. aco_Name p = name \<and> aco_Type p = objType
        \<and> CanThoseRolesPerformAction (aco_Roles p) action)"
  by (induction acl) auto

lemmas decision_simps = DecideCanDo_def hasCurrentTokenLimitations_def Let_def

text \<open>The inheritance relation, enumerated.\<close>

lemma inherits_leaf: "GetRolesInheritance r = None \<Longrightarrow> inherits r r' \<longleftrightarrow> r' = r"
  by (auto elim: inherits.cases)

lemma inherits_node:
  "GetRolesInheritance r = Some cs \<Longrightarrow> inherits r r' \<longleftrightarrow> r' = r \<or> (\<exists>c \<in> set cs. inherits c r')"
  by (auto elim: inherits_from intro: inherits.step)

lemma inherits_leaves [simp]:
  "inherits RoleUserManager r' \<longleftrightarrow> r' = RoleUserManager"
  "inherits RoleBackupDownloader r' \<longleftrightarrow> r' = RoleBackupDownloader"
  "inherits RoleUploadsAnytime r' \<longleftrightarrow> r' = RoleUploadsAnytime"
  by (rule inherits_leaf, simp add: GetRolesInheritance_def security_consts)+

lemma inherits_collectionManager [simp]:
  "inherits RoleCollectionManager r' \<longleftrightarrow>
     r' \<in> {RoleCollectionManager, RoleBackupDownloader, RoleUploadsAnytime}"
proof -
  have "GetRolesInheritance RoleCollectionManager =
      Some [RoleBackupDownloader, RoleBackupDownloader, RoleUploadsAnytime]"
    by (simp add: GetRolesInheritance_def security_consts)
  from inherits_node [OF this] show ?thesis by auto
qed

lemma inherits_sysAdmin [simp]:
  "inherits RoleSysAdmin r' \<longleftrightarrow>
     r' \<in> {RoleSysAdmin, RoleUserManager, RoleCollectionManager, RoleBackupDownloader, RoleUploadsAnytime}"
proof -
  have "GetRolesInheritance RoleSysAdmin = Some [RoleUserManager, RoleCollectionManager]"
    by (simp add: GetRolesInheritance_def security_consts)
  from inherits_node [OF this] show ?thesis by auto
qed

lemma inherits_other:
  "r \<noteq> RoleSysAdmin \<Longrightarrow> r \<noteq> RoleCollectionManager \<Longrightarrow> inherits r r' \<longleftrightarrow> r' = r"
  by (rule inherits_leaf) (simp add: GetRolesInheritance_def)

lemma roles_distinct:
  "distinct [RoleUserManager, RoleCollectionManager, RoleBackupDownloader, RoleBackupUploader,
     RoleUploadsAnytime, RoleSysAdmin]"
  by (simp add: security_consts)

lemma GetRolesActions_iff:
  "(\<exists>as. GetRolesActions r = Some as \<and> a \<in> set as) \<longleftrightarrow>
     r = RoleBackupDownloader \<and> a = ActionDownload
   \<or> r = RoleBackupUploader \<and> a = ActionUpload
   \<or> r = RoleUploadsAnytime \<and> (a = ActionUpload \<or> a = ActionUploadAnytime)
   \<or> r = RoleUserManager \<and> a = ActionViewProfile"
  using roles_distinct by (auto simp: GetRolesActions_def)

lemma inherits_enum:
  "inherits r r' \<longleftrightarrow>
     r' = r \<or> (r = RoleCollectionManager \<and> r' \<in> {RoleBackupDownloader, RoleUploadsAnytime})
     \<or> (r = RoleSysAdmin \<and>
        r' \<in> {RoleUserManager, RoleCollectionManager, RoleBackupDownloader, RoleUploadsAnytime})"
proof -
  have "RoleSysAdmin \<noteq> RoleCollectionManager" by (simp add: security_consts)
  then show ?thesis
    by (cases "r = RoleSysAdmin"; cases "r = RoleCollectionManager") (auto simp: inherits_other)
qed

lemma inherits_to:
  "inherits r RoleBackupDownloader \<longleftrightarrow> r \<in> {RoleBackupDownloader, RoleCollectionManager, RoleSysAdmin}"
  "inherits r RoleBackupUploader \<longleftrightarrow> r = RoleBackupUploader"
  "inherits r RoleUploadsAnytime \<longleftrightarrow> r \<in> {RoleUploadsAnytime, RoleCollectionManager, RoleSysAdmin}"
  "inherits r RoleUserManager \<longleftrightarrow> r \<in> {RoleUserManager, RoleSysAdmin}"
  using roles_distinct unfolding inherits_enum by auto

text \<open>What the scope loop computes: the verdict of the last element that matches.\<close>

abbreviation matches :: "ScopedElement \<Rightarrow> Subject \<Rightarrow> bool" where
  "matches e s \<equiv> se_Type e = sub_GetTypeName s \<and> se_Name e = sub_GetId s"

lemma scanScope_snoc:
  "scanScope (es @ [e]) s action b =
     (if matches e s then CanThoseRolesPerformAction (se_Roles e) action else scanScope es s action b)"
  by (induction es arbitrary: b) auto

lemma scanScope_last:
  "scanScope es s action b =
     (case rev (filter (\<lambda>e. matches e s) es) of
        [] \<Rightarrow> b
      | e # _ \<Rightarrow> CanThoseRolesPerformAction (se_Roles e) action)"
  by (induction es rule: rev_induct) (auto simp: scanScope_snoc)

section \<open>The contract of an actor\<close>

text \<open>
  What the decision relies on of a type that implements \<open>Actor\<close>: it is a user, and outside an
  access key context no roles come from an access key.
\<close>

locale session_actor =
  fixes actor :: "'u \<Rightarrow> Actor"
  assumes actor_type: "act_GetTypeName (actor u) = ''user''"
    and no_key_no_roles:
      "\<not> act_IsInAccessKeyContext (actor u) \<Longrightarrow> act_GetAccessKeyRolesInContextOf (actor u) s = []"
begin

lemma key_confines:
  assumes "DecideCanDo \<lparr>dr_Actor = actor u, dr_Subject = Some s, dr_Action = action\<rparr>"
    and "act_IsInAccessKeyContext (actor u)"
  shows "CanThoseRolesPerformAction (act_GetAccessKeyRolesInContextOf (actor u) s) action"
  using assms by (auto simp: decision_simps split: if_splits)

lemma unrestricted_decision:
  assumes "\<not> act_IsInAccessKeyContext (actor u)"
    and "act_GetSessionLimitedOperationsScope (actor u) = None
       \<or> (\<exists>sc. act_GetSessionLimitedOperationsScope (actor u) = Some sc \<and> Elements sc = [])"
  shows "DecideCanDo \<lparr>dr_Actor = actor u, dr_Subject = Some s, dr_Action = action\<rparr> \<longleftrightarrow>
     IsPermitted (sub_GetAccessControlList s) (act_GetName (actor u)) ''user'' action
   \<or> CanThoseRolesPerformAction (act_GetRoles (actor u)) action"
  using assms by (auto simp: decision_simps actor_type)

lemma key_roles_imply_key:
  "CanThoseRolesPerformAction (act_GetAccessKeyRolesInContextOf (actor u) s) action \<Longrightarrow>
     act_IsInAccessKeyContext (actor u)"
  using no_key_no_roles [of u s] by (cases "act_IsInAccessKeyContext (actor u)") auto

end

section \<open>Properties of the decision\<close>

text \<open>
  C7. The role expansion and the action table give exactly this permission table: downloading
  for downloaders, collection managers and system administrators; uploading for uploaders,
  \<open>uploadsAnytime\<close>, collection managers and system administrators; uploading outside the
  backup windows for \<open>uploadsAnytime\<close>, collection managers and system administrators; viewing
  profiles for user managers and system administrators; and nothing else. The names of the roles
  say the same; the table in \<open>docs/api/permissions.md\<close> does not: it gives "upload to a collection"
  to \<open>backupDownloader\<close> and "download from a collection" to \<open>backupUploader\<close>.
\<close>

theorem permission_table:
  "CanThoseRolesPerformAction roles action \<longleftrightarrow>
     action = ActionDownload
       \<and> (\<exists>r \<in> set roles. r \<in> {RoleBackupDownloader, RoleCollectionManager, RoleSysAdmin})
   \<or> action = ActionUpload
       \<and> (\<exists>r \<in> set roles. r \<in> {RoleBackupUploader, RoleUploadsAnytime, RoleCollectionManager, RoleSysAdmin})
   \<or> action = ActionUploadAnytime
       \<and> (\<exists>r \<in> set roles. r \<in> {RoleUploadsAnytime, RoleCollectionManager, RoleSysAdmin})
   \<or> action = ActionViewProfile
       \<and> (\<exists>r \<in> set roles. r \<in> {RoleUserManager, RoleSysAdmin})"
proof -
  have "CanThoseRolesPerformAction roles action \<longleftrightarrow>
      (\<exists>r \<in> set roles.
         inherits r RoleBackupDownloader \<and> action = ActionDownload
       \<or> inherits r RoleBackupUploader \<and> action = ActionUpload
       \<or> inherits r RoleUploadsAnytime \<and> (action = ActionUpload \<or> action = ActionUploadAnytime)
       \<or> inherits r RoleUserManager \<and> action = ActionViewProfile)"
    unfolding CanThoseRolesPerformAction_iff GetRolesActions_iff by blast
  then show ?thesis unfolding inherits_to by blast
qed

text \<open>
  C6. The complete access rule. Without a subject the actor's own roles decide. With a subject
  the action is granted exactly when (1) outside an access key context, or the access key's
  roles for that subject allow it; (2) the token has no scope, or the last element of the scope
  that names the subject allows it; and (3) the subject's ACL or the actor's system-wide roles
  allow it. Point (2) differs from what is documented. The comment at the check and
  \<open>docs/api/users/README.md\<close> describe an allowlist, in which any matching element that allows the
  action would do; in the code a later element for the same subject overrides an earlier one that
  allows it. And a scope that is given with no elements does not restrict anything.
\<close>

theorem DecideCanDo_spec:
  "DecideCanDo \<lparr>dr_Actor = a, dr_Subject = sub, dr_Action = action\<rparr> \<longleftrightarrow>
     (case sub of
        None \<Rightarrow> CanThoseRolesPerformAction (act_GetRoles a) action
      | Some s \<Rightarrow>
          (act_IsInAccessKeyContext a \<longrightarrow>
             CanThoseRolesPerformAction (act_GetAccessKeyRolesInContextOf a s) action)
        \<and> (\<forall>scope. act_GetSessionLimitedOperationsScope a = Some scope \<and> Elements scope \<noteq> [] \<longrightarrow>
             (\<exists>e. filter (\<lambda>e. matches e s) (Elements scope) \<noteq> []
                \<and> e = last (filter (\<lambda>e. matches e s) (Elements scope))
                \<and> CanThoseRolesPerformAction (se_Roles e) action))
        \<and> ((\<exists>p \<in> set (sub_GetAccessControlList s).
               aco_Name p = act_GetName a \<and> aco_Type p = act_GetTypeName a
               \<and> CanThoseRolesPerformAction (aco_Roles p) action)
            \<or> CanThoseRolesPerformAction (act_GetRoles a) action))"
proof (cases sub)
  case None
  then show ?thesis by (simp add: decision_simps)
next
  case (Some s)
  have last: "(case rev (filter (\<lambda>e. matches e s) es) of
        [] \<Rightarrow> False | e # _ \<Rightarrow> CanThoseRolesPerformAction (se_Roles e) action) \<longleftrightarrow>
      filter (\<lambda>e. matches e s) es \<noteq> [] \<and>
      CanThoseRolesPerformAction (se_Roles (last (filter (\<lambda>e. matches e s) es))) action" for es
    by (cases "filter (\<lambda>e. matches e s) es" rule: rev_cases) auto
  show ?thesis
    unfolding Some
    by (auto simp: decision_simps IsPermitted_iff scanScope_last last split: option.splits)
qed

text \<open>
  C8. Restrictions only narrow: whatever a session limited by an access key or by a token scope
  may do to a subject, the same user may do in an unrestricted session. Roles named in an access
  key or in a token scope never exceed the user's own.
\<close>

theorem restrictions_only_narrow:
  assumes "DecideCanDo dr"
  shows "DecideCanDo (dr\<lparr>dr_Actor := (dr_Actor dr)\<lparr>act_IsInAccessKeyContext := False,
           act_GetSessionLimitedOperationsScope := None\<rparr>\<rparr>)"
  using assms by (auto simp: decision_simps split: option.splits if_splits)

text \<open>An uploader whose session is limited, by an access key, to one collection.\<close>

abbreviation limited_uploader :: Actor where
  "limited_uploader \<equiv> \<lparr>act_IsInAccessKeyContext = True,
     act_GetAccessKeyRolesInContextOf =
       (\<lambda>s. if sub_GetId s = ''iwa'' then [RoleBackupUploader] else []),
     act_GetRoles = [RoleCollectionManager], act_GetEmail = [], act_GetName = ''admin'',
     act_GetTypeName = ''user'', act_GetSessionLimitedOperationsScope = None\<rparr>"

abbreviation named_subject :: "string \<Rightarrow> Subject" where
  "named_subject i \<equiv> \<lparr>sub_GetId = i, sub_GetTypeName = ''collection'', sub_GetAccessControlList = []\<rparr>"

lemma uploads_examples:
  "CanThoseRolesPerformAction [RoleBackupUploader] ActionUpload"
  "CanThoseRolesPerformAction [RoleCollectionManager] ActionUpload"
  by (auto simp: CanThoseRolesPerformAction_iff GetRolesActions_iff inherits_enum)

lemma limited_uploader_may:
  "DecideCanDo \<lparr>dr_Actor = limited_uploader, dr_Subject = Some (named_subject ''iwa''),
     dr_Action = ActionUpload\<rparr>"
  using uploads_examples by (simp add: decision_simps)

theorem restrictions_only_narrow_witness:
  "DecideCanDo \<lparr>dr_Actor = limited_uploader\<lparr>act_IsInAccessKeyContext := False\<rparr>,
     dr_Subject = Some (named_subject ''iwa''), dr_Action = ActionUpload\<rparr>"
  using restrictions_only_narrow [OF limited_uploader_may] by simp

theorem DecideCanDo_spec_witness:
  "\<not> DecideCanDo \<lparr>dr_Actor = limited_uploader, dr_Subject = Some (named_subject ''other''),
     dr_Action = ActionUpload\<rparr>"
  unfolding DecideCanDo_spec by simp

end
