(* ===== verification/Base64.thy ===== *)
theory Base64
  imports Go_Strings
begin

text \<open>
  Go's \<open>encoding/base64\<close> as the repository uses it: \<open>StdEncoding\<close> (padded) for encoding and
  decoding, \<open>RawStdEncoding\<close> (no padding) for decoding the payload of a JWT. Like
  \<open>DecodeString\<close>, the decoder returns the bytes it decoded before the error and whether there
  was one; carriage returns and newlines are skipped. \<open>RawURLEncode\<close> is the encoding in which
  tokens are issued (RFC 7515), with the URL alphabet; \<open>same_alphabet\<close> are the texts that it
  encodes as the standard alphabet does.
\<close>

section \<open>The alphabet\<close>

definition b64_char :: "nat \<Rightarrow> char" where
  "b64_char v = char_of (if v < 26 then v + 65 else if v < 52 then v + 71
     else if v < 62 then v - 4 else if v = 62 then 43 else 47)"

definition b64_val :: "char \<Rightarrow> nat option" where
  "b64_val c = (let n = of_char c :: nat in
     if 65 \<le> n \<and> n \<le> 90 then Some (n - 65)
     else if 97 \<le> n \<and> n \<le> 122 then Some (n - 71)
     else if 48 \<le> n \<and> n \<le> 57 then Some (n + 4)
     else if n = 43 then Some 62 else if n = 47 then Some 63 else None)"

abbreviation pad_char :: char where "pad_char \<equiv> CHR ''=''"

section \<open>Encoding and decoding\<close>

fun EncodeToString :: "bytes \<Rightarrow> string" where
  "EncodeToString [] = []"
| "EncodeToString [a] =
     (let x = of_char a :: nat in
      [b64_char (x div 4), b64_char ((x mod 4) * 16), pad_char, pad_char])"
| "EncodeToString [a, b] =
     (let x = of_char a :: nat; y = of_char b in
      [b64_char (x div 4), b64_char ((x mod 4) * 16 + y div 16), b64_char ((y mod 16) * 4), pad_char])"
| "EncodeToString (a # b # c # r) =
     (let x = of_char a :: nat; y = of_char b; z = of_char c in
      b64_char (x div 4) # b64_char ((x mod 4) * 16 + y div 16)
      # b64_char ((y mod 16) * 4 + z div 64) # b64_char (z mod 64) # EncodeToString r)"

definition byte0 :: "nat \<Rightarrow> nat \<Rightarrow> char" where "byte0 v1 v2 = char_of (v1 * 4 + v2 div 16)"
definition byte1 :: "nat \<Rightarrow> nat \<Rightarrow> char" where "byte1 v2 v3 = char_of ((v2 mod 16) * 16 + v3 div 4)"
definition byte2 :: "nat \<Rightarrow> nat \<Rightarrow> char" where "byte2 v3 v4 = char_of ((v3 mod 4) * 64 + v4)"

text \<open>One quantum of four characters at a time; \<open>pad\<close> is true for \<open>StdEncoding\<close>.\<close>

fun decode_quanta :: "bool \<Rightarrow> string \<Rightarrow> bytes \<times> bool" where
  "decode_quanta pad [] = ([], False)"
| "decode_quanta pad [c1] = ([], True)"
| "decode_quanta pad [c1, c2] =
     (case (pad, b64_val c1, b64_val c2) of
        (False, Some v1, Some v2) \<Rightarrow> ([byte0 v1 v2], False)
      | _ \<Rightarrow> ([], True))"
| "decode_quanta pad [c1, c2, c3] =
     (case (pad, b64_val c1, b64_val c2, b64_val c3) of
        (False, Some v1, Some v2, Some v3) \<Rightarrow> ([byte0 v1 v2, byte1 v2 v3], False)
      | _ \<Rightarrow> ([], True))"
| "decode_quanta pad (c1 # c2 # c3 # c4 # r) =
     (case (b64_val c1, b64_val c2) of
        (Some v1, Some v2) \<Rightarrow>
          (case b64_val c3 of
             Some v3 \<Rightarrow>
               (case b64_val c4 of
                  Some v4 \<Rightarrow>
                    (let (bs, err) = decode_quanta pad r
                     in (byte0 v1 v2 # byte1 v2 v3 # byte2 v3 v4 # bs, err))
                | None \<Rightarrow>
                    if pad \<and> c4 = pad_char then ([byte0 v1 v2, byte1 v2 v3], r \<noteq> [])
                    else ([], True))
           | None \<Rightarrow>
               if pad \<and> c3 = pad_char \<and> c4 = pad_char then ([byte0 v1 v2], r \<noteq> [])
               else ([], True))
      | _ \<Rightarrow> ([], True))"

definition skip_newlines :: "string \<Rightarrow> string" where
  "skip_newlines s = filter (\<lambda>c. of_char c \<noteq> (10 :: nat) \<and> of_char c \<noteq> (13 :: nat)) s"

definition StdDecode :: "string \<Rightarrow> bytes \<times> bool" where
  "StdDecode s = decode_quanta True (skip_newlines s)"

definition RawStdDecode :: "string \<Rightarrow> bytes \<times> bool" where
  "RawStdDecode s = decode_quanta False (skip_newlines s)"

section \<open>Lemmas\<close>

lemma b64_val_char [simp]: "v < 64 \<Longrightarrow> b64_val (b64_char v) = Some v"
  by (auto simp: b64_val_def b64_char_def Let_def)

lemma b64_val_pad [simp]: "b64_val pad_char = None"
  by (simp add: b64_val_def)

lemma byte0_char: "y < 16 \<Longrightarrow> byte0 (of_char a div 4) ((of_char a mod 4) * 16 + y) = a"
proof -
  assume "y < 16"
  then have "of_char a div 4 * 4 + ((of_char a mod 4) * 16 + y) div 16 = (of_char a :: nat)"
    by (simp add: div_add1_eq)
  then show ?thesis by (simp only: byte0_def) (simp del: nat_of_char_less_256)
qed

lemma byte1_char:
  "z < 4 \<Longrightarrow> byte1 (x * 16 + of_char b div 16) ((of_char b mod 16) * 4 + z) = b"
proof -
  assume z: "z < 4"
  have b: "of_char b div 16 < (16 :: nat)" by (simp add: less_mult_imp_div_less)
  have "(x * 16 + of_char b div 16) mod 16 = (of_char b div 16 :: nat)"
    using b by simp
  moreover have "((of_char b mod 16) * 4 + z) div 4 = (of_char b mod 16 :: nat)"
    using z by simp
  ultimately show ?thesis by (simp add: byte1_def)
qed

lemma byte2_char: "byte2 (x * 4 + of_char c div 64) (of_char c mod 64) = c"
proof -
  have c: "of_char c div 64 < (4 :: nat)" by (simp add: less_mult_imp_div_less)
  then have "(x * 4 + of_char c div 64) mod 4 = (of_char c div 64 :: nat)" by simp
  then show ?thesis by (simp add: byte2_def)
qed

lemma sextet_bounds [simp]:
  fixes x y :: char
  shows "of_char x div 4 < (64 :: nat)"
    and "(of_char x mod 4) * 16 + of_char y div 16 < (64 :: nat)"
    and "(of_char x mod 16) * 4 + of_char y div 64 < (64 :: nat)"
    and "(of_char x mod 4) * 16 < (64 :: nat)" and "(of_char x mod 16) * 4 < (64 :: nat)"
    and "of_char y div 16 < (16 :: nat)" and "of_char y div 64 < (4 :: nat)"
  using nat_of_char_less_256 [of x] nat_of_char_less_256 [of y] by linarith+

lemma decode_encode: "decode_quanta True (EncodeToString bs) = (bs, False)"
proof (induction bs rule: EncodeToString.induct)
  case (2 a)
  then show ?case using byte0_char [of 0 a] by (simp add: Let_def)
next
  case (3 a b)
  then show ?case
    using byte0_char [of "of_char b div 16" a] byte1_char [of 0 _ b] by (simp add: Let_def)
next
  case (4 a b c r)
  then show ?case
    using byte0_char [of "of_char b div 16" a] byte1_char [of "of_char c div 64" _ b]
      byte2_char [of _ c]
    by (simp add: Let_def)
qed simp

lemma b64_val_Some_chars:
  "b64_val c \<noteq> None \<Longrightarrow>
     of_char c \<noteq> (10 :: nat) \<and> of_char c \<noteq> (13 :: nat) \<and> c \<noteq> CHR ''$''"
  by (auto simp: b64_val_def Let_def split: if_splits)

lemma EncodeToString_chars:
  "c \<in> set (EncodeToString bs) \<Longrightarrow> c = pad_char \<or> b64_val c \<noteq> None"
  by (induction bs rule: EncodeToString.induct) (auto simp: Let_def)

lemma EncodeToString_plain:
  assumes "c \<in> set (EncodeToString bs)"
  shows "of_char c \<noteq> (10 :: nat) \<and> of_char c \<noteq> (13 :: nat) \<and> c \<noteq> CHR ''$''"
  using EncodeToString_chars [OF assms]
proof
  assume "c = pad_char"
  then show ?thesis by simp
qed (rule b64_val_Some_chars)

lemma skip_newlines_encode [simp]: "skip_newlines (EncodeToString bs) = EncodeToString bs"
  unfolding skip_newlines_def filter_id_conv by (auto dest: EncodeToString_plain)

lemma encode_no_dollar: "CHR ''$'' \<notin> set (EncodeToString bs)"
  by (auto dest: EncodeToString_plain)

lemma StdDecode_Encode [simp]: "StdDecode (EncodeToString bs) = (bs, False)"
  by (simp add: StdDecode_def decode_encode)

text \<open>Encoding without padding, the inverse of \<open>RawStdEncoding\<close>'s decoder.\<close>

definition RawEncodeToString :: "bytes \<Rightarrow> string" where
  "RawEncodeToString bs = takeWhile (\<lambda>c. c \<noteq> pad_char) (EncodeToString bs)"

lemma b64_char_not_pad [simp]: "v < 64 \<Longrightarrow> b64_char v \<noteq> pad_char"
  using b64_val_char [of v] by (metis b64_val_pad option.distinct(1))

lemma decode_raw_encode: "decode_quanta False (RawEncodeToString bs) = (bs, False)"
  unfolding RawEncodeToString_def
proof (induction bs rule: EncodeToString.induct)
  case (2 a)
  then show ?case using byte0_char [of 0 a] by (simp add: Let_def)
next
  case (3 a b)
  then show ?case
    using byte0_char [of "of_char b div 16" a] byte1_char [of 0 _ b] by (simp add: Let_def)
next
  case (4 a b c r)
  then show ?case
    using byte0_char [of "of_char b div 16" a] byte1_char [of "of_char c div 64" _ b]
      byte2_char [of _ c]
    by (simp add: Let_def)
qed simp

lemma RawEncodeToString_plain:
  "c \<in> set (RawEncodeToString bs) \<Longrightarrow> of_char c \<noteq> (10 :: nat) \<and> of_char c \<noteq> (13 :: nat) \<and> c \<noteq> CHR ''.''"
proof -
  assume c: "c \<in> set (RawEncodeToString bs)"
  then have enc: "c \<in> set (EncodeToString bs)" and "c \<noteq> pad_char"
    unfolding RawEncodeToString_def by (blast dest: set_takeWhileD)+
  with EncodeToString_chars [OF enc] have "b64_val c \<noteq> None" by simp
  then have "c \<noteq> CHR ''.''" by (auto simp: b64_val_def Let_def split: if_splits)
  with EncodeToString_plain [OF enc] show ?thesis by simp
qed

lemma RawStdDecode_Encode [simp]: "RawStdDecode (RawEncodeToString bs) = (bs, False)"
proof -
  have "skip_newlines (RawEncodeToString bs) = RawEncodeToString bs"
    unfolding skip_newlines_def filter_id_conv by (auto dest: RawEncodeToString_plain)
  then show ?thesis by (simp add: RawStdDecode_def decode_raw_encode)
qed

section \<open>The alphabet of tokens\<close>

text \<open>
  The parts of a JWT are written with \<open>RawURLEncoding\<close>, whose alphabet has \<open>-\<close> and \<open>_\<close> in the
  place of \<open>+\<close> and \<open>/\<close>. \<open>RawStdEncoding\<close> decodes such a text exactly when the two encodings agree
  on it.
\<close>

definition url_char :: "char \<Rightarrow> char" where
  "url_char c = (if c = CHR ''+'' then CHR ''-'' else if c = CHR ''/'' then CHR ''_'' else c)"

definition RawURLEncode :: "bytes \<Rightarrow> string" where
  "RawURLEncode bs = map url_char (RawEncodeToString bs)"

definition same_alphabet :: "bytes \<Rightarrow> bool" where
  "same_alphabet bs \<longleftrightarrow> CHR ''+'' \<notin> set (RawEncodeToString bs) \<and> CHR ''/'' \<notin> set (RawEncodeToString bs)"

lemma RawURLEncode_same: "same_alphabet bs \<Longrightarrow> RawURLEncode bs = RawEncodeToString bs"
  unfolding RawURLEncode_def same_alphabet_def by (rule map_idI) (auto simp: url_char_def)

lemma RawURLEncode_plain:
  assumes "c \<in> set (RawURLEncode bs)"
  shows "of_char c \<noteq> (10 :: nat) \<and> of_char c \<noteq> (13 :: nat) \<and> c \<noteq> CHR ''.''"
proof -
  obtain d where d: "d \<in> set (RawEncodeToString bs)" "c = url_char d" using assms by (auto simp: RawURLEncode_def)
  then show ?thesis using RawEncodeToString_plain [OF d(1)] by (auto simp: url_char_def)
qed

lemma decode_bad: "c \<in> set s \<Longrightarrow> b64_val c = None \<Longrightarrow> snd (decode_quanta False s)"
  by (induction "False" s rule: decode_quanta.induct) (auto split: option.splits prod.splits)

lemma RawStdDecode_url:
  "RawStdDecode (RawURLEncode bs) = (if same_alphabet bs then (bs, False) else (fst (RawStdDecode (RawURLEncode bs)), True))"
proof (cases "same_alphabet bs")
  case True
  then show ?thesis by (simp add: RawURLEncode_same)
next
  case False
  then have "CHR ''-'' \<in> set (RawURLEncode bs) \<or> CHR ''_'' \<in> set (RawURLEncode bs)"
    unfolding same_alphabet_def RawURLEncode_def set_map by (auto simp: url_char_def image_iff)
  moreover have "skip_newlines (RawURLEncode bs) = RawURLEncode bs"
    unfolding skip_newlines_def filter_id_conv by (auto dest: RawURLEncode_plain)
  moreover have "b64_val (CHR ''-'') = None" "b64_val (CHR ''_'') = None" by (simp_all add: b64_val_def)
  ultimately have "snd (RawStdDecode (RawURLEncode bs))" using decode_bad by (auto simp: RawStdDecode_def)
  with False show ?thesis by (simp add: prod_eq_iff)
qed

end
