(* ===== verification/Sha256.thy ===== *)
theory Sha256
  imports Go_Strings
begin

text \<open>
  Go's \<open>crypto/sha256.Sum256\<close> and \<open>encoding/hex.EncodeToString\<close>, the two standard library
  functions under every session identifier and every health check secret. The hash follows
  FIPS 180-4 on 32-bit words.
\<close>

unbundle bit_operations_syntax

type_synonym word32 = "32 word"

definition rotr :: "nat \<Rightarrow> word32 \<Rightarrow> word32" where
  "rotr n x = drop_bit n x OR push_bit (32 - n) x"

definition Ch :: "word32 \<Rightarrow> word32 \<Rightarrow> word32 \<Rightarrow> word32" where
  "Ch x y z = (x AND y) XOR (NOT x AND z)"
definition Maj :: "word32 \<Rightarrow> word32 \<Rightarrow> word32 \<Rightarrow> word32" where
  "Maj x y z = (x AND y) XOR (x AND z) XOR (y AND z)"
definition Sigma0 :: "word32 \<Rightarrow> word32" where "Sigma0 x = rotr 2 x XOR rotr 13 x XOR rotr 22 x"
definition Sigma1 :: "word32 \<Rightarrow> word32" where "Sigma1 x = rotr 6 x XOR rotr 11 x XOR rotr 25 x"
definition sigma0 :: "word32 \<Rightarrow> word32" where "sigma0 x = rotr 7 x XOR rotr 18 x XOR drop_bit 3 x"
definition sigma1 :: "word32 \<Rightarrow> word32" where "sigma1 x = rotr 17 x XOR rotr 19 x XOR drop_bit 10 x"

definition K256 :: "word32 list" where
  "K256 = [
   1116352408, 1899447441, 3049323471, 3921009573, 961987163, 1508970993, 2453635748, 2870763221,
   3624381080, 310598401, 607225278, 1426881987, 1925078388, 2162078206, 2614888103, 3248222580,
   3835390401, 4022224774, 264347078, 604807628, 770255983, 1249150122, 1555081692, 1996064986,
   2554220882, 2821834349, 2952996808, 3210313671, 3336571891, 3584528711, 113926993, 338241895,
   666307205, 773529912, 1294757372, 1396182291, 1695183700, 1986661051, 2177026350, 2456956037,
   2730485921, 2820302411, 3259730800, 3345764771, 3516065817, 3600352804, 4094571909, 275423344,
   430227734, 506948616, 659060556, 883997877, 958139571, 1322822218, 1537002063, 1747873779,
   1955562222, 2024104815, 2227730452, 2361852424, 2428436474, 2756734187, 3204031479, 3329325298]"

definition H256 :: "word32 list" where
  "H256 = [1779033703, 3144134277, 1013904242, 2773480762, 1359893119, 2600822924, 528734635, 1541459225]"

text \<open>The message schedule, kept newest word first.\<close>

fun sched :: "nat \<Rightarrow> word32 list \<Rightarrow> word32 list" where
  "sched 0 ws = ws"
| "sched (Suc n) ws =
     sched n ((sigma1 (ws ! 1) + ws ! 6 + sigma0 (ws ! 14) + ws ! 15) # ws)"

fun round :: "word32 list \<Rightarrow> word32 \<times> word32 \<Rightarrow> word32 list" where
  "round [a, b, c, d, e, f, g, h] (k, w) =
     (let t1 = h + Sigma1 e + Ch e f g + k + w;
          t2 = Sigma0 a + Maj a b c
      in [t1 + t2, a, b, c, d + t1, e, f, g])"
| "round hs kw = hs"

definition compress :: "word32 list \<Rightarrow> word32 list \<Rightarrow> word32 list" where
  "compress hs block = map2 (+) hs (foldl round hs (zip K256 (rev (sched 48 (rev block)))))"

definition be32 :: "bytes \<Rightarrow> word32" where
  "be32 bs = foldl (\<lambda>acc c. push_bit 8 acc OR of_char c) 0 bs"

fun chunks :: "nat \<Rightarrow> nat \<Rightarrow> 'a list \<Rightarrow> 'a list list" where
  "chunks 0 n xs = []"
| "chunks (Suc k) n xs = take n xs # chunks k n (drop n xs)"

fun be_bytes :: "nat \<Rightarrow> int \<Rightarrow> bytes" where
  "be_bytes 0 n = []"
| "be_bytes (Suc k) n = be_bytes k (n div 256) @ [char_of (n mod 256)]"

definition padding :: "nat \<Rightarrow> bytes" where
  "padding len =
     CHR 0x80 # replicate ((119 - len mod 64) mod 64) (CHR 0x00) @ be_bytes 8 (8 * int len)"

definition Sum256 :: "bytes \<Rightarrow> bytes" where
  "Sum256 msg =
     (let m = msg @ padding (length msg);
          blocks = map (\<lambda>b. map be32 (chunks 16 4 b)) (chunks (length m div 64) 64 m)
      in concat (map (\<lambda>w. be_bytes 4 (uint w)) (foldl compress H256 blocks)))"

definition hex_digit :: "int \<Rightarrow> char" where
  "hex_digit d = char_of (if d < 10 then 48 + d else 87 + d)"

definition hexEncode :: "bytes \<Rightarrow> string" where
  "hexEncode bs = concat (map (\<lambda>c. [hex_digit (of_char c div 16), hex_digit (of_char c mod 16)]) bs)"

section \<open>The size of a digest\<close>

lemma length_round [simp]: "length (round hs kw) = length hs"
  by (cases "(hs, kw)" rule: round.cases) (auto simp: Let_def)

lemma length_foldl_round [simp]: "length (foldl round hs kws) = length hs"
  by (induction kws arbitrary: hs) auto

lemma length_compress [simp]: "length (compress hs b) = length hs"
  by (simp add: compress_def)

lemma length_foldl_compress [simp]: "length (foldl compress hs bs) = length hs"
  by (induction bs arbitrary: hs) auto

lemma length_be_bytes [simp]: "length (be_bytes k n) = k"
  by (induction k arbitrary: n) auto

lemma length_Sum256: "length (Sum256 msg) = 32"
  by (simp add: Sum256_def Let_def length_concat comp_def H256_def sum_list_triv)

lemma length_hexEncode: "length (hexEncode bs) = 2 * length bs"
  by (simp add: hexEncode_def length_concat comp_def sum_list_triv)

section \<open>An encoded digest determines the digest\<close>

lemma hex_digit_table: "\<forall>d \<in> set [0..15]. \<forall>e \<in> set [0..15]. hex_digit d = hex_digit e \<longrightarrow> d = e"
  by code_simp

lemma hex_digit_inj: "0 \<le> d \<Longrightarrow> d < 16 \<Longrightarrow> 0 \<le> e \<Longrightarrow> e < 16 \<Longrightarrow> hex_digit d = hex_digit e \<longleftrightarrow> d = e"
  using bspec [OF bspec [OF hex_digit_table, of d], of e] by auto

lemma hexEncode_inj: "hexEncode bs = hexEncode cs \<longleftrightarrow> bs = cs"
proof
  have r: "(of_char c :: int) < 256" "0 \<le> (of_char c :: int)" for c :: char
    using of_char_mod_256 [of c, where 'a = int] pos_mod_bound [of 256 "of_char c :: int"]
      pos_mod_sign [of 256 "of_char c :: int"] by simp_all
  have byte: "b = c" if "hex_digit (of_char b div 16) = hex_digit (of_char c div 16)"
    "hex_digit (of_char b mod 16) = hex_digit (of_char c mod 16)" for b c :: char
  proof -
    have "of_char b div 16 = (of_char c div 16 :: int)" "of_char b mod 16 = (of_char c mod 16 :: int)"
      using that r [of b] r [of c] by (simp_all add: hex_digit_inj)
    then have "(of_char b :: int) = of_char c" by (metis div_mult_mod_eq)
    then show ?thesis by simp
  qed
  show "hexEncode bs = hexEncode cs \<Longrightarrow> bs = cs"
  proof (induction bs arbitrary: cs)
    case Nil
    then show ?case by (cases cs) (simp_all add: hexEncode_def)
  next
    case (Cons b bs)
    then show ?case by (cases cs) (auto simp: hexEncode_def intro: byte)
  qed
qed simp

end
