(* ===== verification/Crypto.thy ===== *)
theory Crypto
  imports Base64 Sha256
begin

text \<open>
  \<open>pkg/security/crypto.go\<close>: hashing and comparing passwords, session identifiers and health
  check secrets.

  \<open>golang.org/x/crypto/argon2\<close> is not part of the repository: its version constant and its
  function \<open>IDKey\<close> are the fields of the parameter \<open>argon2_pkg\<close>. \<open>IDKey\<close> may panic (it does
  for zero rounds or zero threads). The salt that \<open>crypto/rand\<close> delivers is an argument.
  \<open>fmt.Sscanf\<close> with the one format of the source, \<open>strings.Split\<close>, \<open>encoding/base64\<close> and
  \<open>crypto/sha256\<close> are modelled.
\<close>

record Argon2Config =
  a2_time :: "32 word"
  a2_memory :: "32 word"
  a2_threads :: "8 word"
  a2_keyLen :: "32 word"

record argon2_pkg =
  argon2_Version :: int
  IDKey :: "bytes \<Rightarrow> bytes \<Rightarrow> 32 word \<Rightarrow> 32 word \<Rightarrow> 8 word \<Rightarrow> 32 word \<Rightarrow> bytes outcome"

definition CreateDefaultPasswordConfig :: Argon2Config where
  "CreateDefaultPasswordConfig = \<lparr>a2_time = 1, a2_memory = 64 * 1024, a2_threads = 4, a2_keyLen = 32\<rparr>"

section \<open>Creating a hash\<close>

definition argon2_format :: "int \<Rightarrow> int \<Rightarrow> int \<Rightarrow> int \<Rightarrow> string \<Rightarrow> string \<Rightarrow> string" where
  "argon2_format v m t p salt hash =
     ''$argon2id$v='' @ itoa v @ ''$m='' @ itoa m @ '',t='' @ itoa t @ '',p='' @ itoa p
     @ ''$'' @ salt @ ''$'' @ hash"

definition CreateHashFromPassword :: "argon2_pkg \<Rightarrow> bytes result \<Rightarrow> string \<Rightarrow> string result outcome" where
  "CreateHashFromPassword A rand_salt password =
     (case rand_salt of
        Inl err \<Rightarrow> Return (Inl err)
      | Inr salt \<Rightarrow>
          (let c = CreateDefaultPasswordConfig in
           bind_outcome
             (IDKey A password salt (a2_time c) (a2_memory c) (a2_threads c) (a2_keyLen c))
             (\<lambda>hash.
                let b64Salt = EncodeToString salt; b64Hash = EncodeToString hash;
                    full = argon2_format (argon2_Version A) (uint (a2_memory c)) (uint (a2_time c))
                             (uint (a2_threads c)) b64Salt b64Hash
                in Return (Inr (EncodeToString full)))))"

section \<open>Reading the parameters: Sscanf with the format of the source\<close>

text \<open>
  \<open>fmt.Sscanf(s, "m=%d,t=%d,p=%d", &memory, &time, &threads)\<close>: literal text must match; \<open>%d\<close>
  into an unsigned variable of \<open>w\<close> bits skips blanks, needs at least one digit and fails on
  overflow; text after the last number is ignored.
\<close>

definition is_blank :: "char \<Rightarrow> bool" where
  "is_blank c = (of_char c \<in> {9, 11, 12, 13, 32 :: nat})"

definition scan_uint :: "nat \<Rightarrow> string \<Rightarrow> (int \<times> string) result" where
  "scan_uint w s =
     (let s' = dropWhile is_blank s; ds = takeWhile is_digit s'; n = int (dec_nat ds)
      in if ds = [] then Inl ''expected integer''
         else if n < 2 ^ w then Inr (n, dropWhile is_digit s')
         else Inl ''unsigned integer overflow'')"

definition scan_lit :: "string \<Rightarrow> string \<Rightarrow> string result" where
  "scan_lit lit s =
     (if HasPrefix s lit then Inr (drop (length lit) s) else Inl ''input does not match format'')"

definition Sscanf_params :: "string \<Rightarrow> (32 word \<times> 32 word \<times> 8 word) result" where
  "Sscanf_params s =
     (case scan_lit ''m='' s of Inl e \<Rightarrow> Inl e | Inr s1 \<Rightarrow>
      (case scan_uint 32 s1 of Inl e \<Rightarrow> Inl e | Inr (m, s2) \<Rightarrow>
       (case scan_lit '',t='' s2 of Inl e \<Rightarrow> Inl e | Inr s3 \<Rightarrow>
        (case scan_uint 32 s3 of Inl e \<Rightarrow> Inl e | Inr (t, s4) \<Rightarrow>
         (case scan_lit '',p='' s4 of Inl e \<Rightarrow> Inl e | Inr s5 \<Rightarrow>
          (case scan_uint 8 s5 of Inl e \<Rightarrow> Inl e | Inr (p, s6) \<Rightarrow>
             Inr (of_int m, of_int t, of_int p)))))))"

section \<open>Comparing a password\<close>

text \<open>Indexing a slice beyond its end panics.\<close>

definition index_slice :: "'a list \<Rightarrow> nat \<Rightarrow> 'a outcome" where
  "index_slice xs i = (if i < length xs then Return (xs ! i) else Panic ''index out of range'')"

definition ComparePassword :: "argon2_pkg \<Rightarrow> string \<Rightarrow> string \<Rightarrow> bool result outcome" where
  "ComparePassword A password hash =
     (let parts = Split (fst (StdDecode hash)) (CHR ''$'') in
      if length parts < 3
      then Return (Inl ''invalid password hash format. Check `kind: Secret` or `kind: BackupUser`'')
      else
        bind_outcome (index_slice parts 3) (\<lambda>params.
          case Sscanf_params params of
            Inl err \<Rightarrow> Return (Inl err)
          | Inr (memory, time, threads) \<Rightarrow>
              bind_outcome (index_slice parts 4) (\<lambda>part4.
                case StdDecode part4 of
                  (salt, True) \<Rightarrow> Return (Inl ''illegal base64 data'')
                | (salt, False) \<Rightarrow>
                    bind_outcome (index_slice parts 5) (\<lambda>part5.
                      case StdDecode part5 of
                        (_, True) \<Rightarrow> Return (Inl ''illegal base64 data'')
                      | (decodedHash, False) \<Rightarrow>
                          bind_outcome
                            (IDKey A password salt time memory threads (of_nat (length decodedHash)))
                            (\<lambda>comparisonHash. Return (Inr (decodedHash = comparisonHash)))))))"

section \<open>Session identifiers and fast hashes\<close>

definition HashSha256 :: "string \<Rightarrow> string" where
  "HashSha256 input = hexEncode (Sum256 input)"

definition HashJWT :: "string \<Rightarrow> string" where
  "HashJWT jwt = HashSha256 jwt"

definition CompareFastCryptoHash :: "string \<Rightarrow> string \<Rightarrow> bool" where
  "CompareFastCryptoHash plain hash = (HashSha256 plain = hash)"

section \<open>Lemmas\<close>

lemma length_HashJWT: "length (HashJWT jwt) = 64"
  by (simp add: HashJWT_def HashSha256_def length_hexEncode length_Sum256)

lemma digits_then_stop:
  assumes "list_all is_digit ds" "\<not> is_digit c"
  shows "takeWhile is_digit (ds @ c # r) = ds" "dropWhile is_digit (ds @ c # r) = c # r"
  using assms by (induction ds) auto

lemma digits_to_end:
  assumes "list_all is_digit ds"
  shows "takeWhile is_digit ds = ds" "dropWhile is_digit ds = []"
  using assms by (induction ds) auto

lemma is_digit_not_blank: "is_digit c \<Longrightarrow> \<not> is_blank c"
  by (auto simp: is_digit_def is_blank_def)

lemma skip_blank_digits: "list_all is_digit ds \<Longrightarrow> ds \<noteq> [] \<Longrightarrow> dropWhile is_blank (ds @ r) = ds @ r"
  by (cases ds) (auto simp: is_digit_not_blank)

lemma scan_uint_dec:
  assumes "n < 2 ^ w" "\<not> is_digit c"
  shows "scan_uint w (nat_dec n @ c # r) = Inr (int n, c # r)"
  using assms digits_then_stop [OF nat_dec_digits assms(2)]
    skip_blank_digits [OF nat_dec_digits nat_dec_not_Nil]
  by (simp add: scan_uint_def Let_def)

lemma scan_uint_dec_end:
  assumes "n < 2 ^ w"
  shows "scan_uint w (nat_dec n) = Inr (int n, [])"
  using assms skip_blank_digits [OF nat_dec_digits nat_dec_not_Nil, of n "[]"]
  by (simp add: scan_uint_def Let_def digits_to_end [OF nat_dec_digits])

text \<open>The parameters that \<open>CreateHashFromPassword\<close> prints are read back.\<close>

lemma Sscanf_params_print:
  assumes "m < 2 ^ 32" "t < 2 ^ 32" "p < 2 ^ 8"
  shows "Sscanf_params (''m='' @ nat_dec m @ '',t='' @ nat_dec t @ '',p='' @ nat_dec p)
     = Inr (of_nat m, of_nat t, of_nat p)"
proof -
  have c: "\<not> is_digit (CHR '','')" by (simp add: is_digit_def)
  show ?thesis
    using scan_uint_dec [OF assms(1) c, of "''t='' @ nat_dec t @ '',p='' @ nat_dec p"]
      scan_uint_dec [OF assms(2) c, of "''p='' @ nat_dec p"] scan_uint_dec_end [OF assms(3)]
    by (simp add: Sscanf_params_def scan_lit_def HasPrefix_def)
qed

lemma itoa_no_dollar: "CHR ''$'' \<notin> set (itoa i)"
  using itoa_chars [of "CHR ''$''" i] by (auto simp: is_digit_def)

lemma Split_argon2_format:
  assumes "CHR ''$'' \<notin> set salt" "CHR ''$'' \<notin> set hash"
  shows "Split (argon2_format v m t p salt hash) (CHR ''$'') =
    [[], ''argon2id'', ''v='' @ itoa v, ''m='' @ itoa m @ '',t='' @ itoa t @ '',p='' @ itoa p, salt, hash]"
    (is "_ = ?parts")
proof -
  have "argon2_format v m t p salt hash = join (CHR ''$'') ?parts"
    by (simp add: argon2_format_def)
  then show ?thesis using assms by (simp only:) (rule Split_join, auto simp: itoa_no_dollar)
qed

text \<open>Session identifiers agree exactly when the digests of the complete tokens do.\<close>

lemma HashJWT_eq: "HashJWT t = HashJWT t' \<longleftrightarrow> Sum256 t = Sum256 t'"
  by (simp add: HashJWT_def HashSha256_def hexEncode_inj)

section \<open>Properties\<close>

text \<open>
  What the code relies on of \<open>argon2.IDKey\<close>: with at least one round and one thread it returns
  a key of the requested length.
\<close>

definition argon2_ok :: "argon2_pkg \<Rightarrow> bool" where
  "argon2_ok A \<longleftrightarrow>
     (\<forall>pw salt t m p k. t \<noteq> 0 \<longrightarrow> p \<noteq> 0 \<longrightarrow>
        (\<exists>key. IDKey A pw salt t m p k = Return key \<and> length key = unat k))"

lemma argon2_okD:
  "argon2_ok A \<Longrightarrow> t \<noteq> 0 \<Longrightarrow> p \<noteq> 0 \<Longrightarrow>
     \<exists>key. IDKey A pw salt t m p k = Return key \<and> length key = unat k"
  by (auto simp: argon2_ok_def)

lemma Split_created_hash:
  "Split (argon2_format v 65536 1 4 (EncodeToString salt) (EncodeToString key)) (CHR ''$'') =
    [[], ''argon2id'', ''v='' @ itoa v, ''m='' @ nat_dec 65536 @ '',t='' @ nat_dec 1 @ '',p='' @ nat_dec 4,
     EncodeToString salt, EncodeToString key]"
  by (subst Split_argon2_format) (simp_all add: encode_no_dollar itoa_def)

lemma created_hash_compare:
  assumes "argon2_ok A"
  shows "\<exists>h. CreateHashFromPassword A (Inr salt) pw = Return (Inr h) \<and> h \<noteq> []
     \<and> (\<forall>pw'. ComparePassword A pw' h =
          Return (Inr (IDKey A pw' salt 1 65536 4 32 = IDKey A pw salt 1 65536 4 32)))"
proof -
  obtain key where key: "IDKey A pw salt 1 65536 4 32 = Return key" "length key = 32"
    using argon2_okD [OF assms, of 1 4 pw salt 65536 32] by auto
  define h where "h = EncodeToString (argon2_format (argon2_Version A) 65536 1 4
    (EncodeToString salt) (EncodeToString key))"
  have create: "CreateHashFromPassword A (Inr salt) pw = Return (Inr h)"
    using key by (simp add: CreateHashFromPassword_def CreateDefaultPasswordConfig_def Let_def h_def)
  have ne: "h \<noteq> []" by (simp add: h_def argon2_format_def Let_def)
  have "ComparePassword A pw' h =
      Return (Inr (IDKey A pw' salt 1 65536 4 32 = IDKey A pw salt 1 65536 4 32))" for pw'
  proof -
    obtain key' where key': "IDKey A pw' salt 1 65536 4 32 = Return key'"
      using argon2_okD [OF assms, of 1 4 pw' salt 65536 32] by auto
    show ?thesis
      using key key' Sscanf_params_print [of 65536 1 4]
      by (auto simp: ComparePassword_def Let_def h_def Split_created_hash index_slice_def)
  qed
  with create ne show ?thesis by auto
qed

text \<open>
  Password round trip. Whatever the salt, \<open>CreateHashFromPassword\<close> succeeds, and
  \<open>ComparePassword\<close> of any password against the stored hash neither fails nor panics: it says
  whether the argon2 key of that password under the stored salt equals the key of the original
  password; in particular the original password is accepted.
\<close>

theorem password_roundtrip:
  assumes "argon2_ok A"
  shows "\<exists>h. CreateHashFromPassword A (Inr salt) pw = Return (Inr h)
     \<and> ComparePassword A pw h = Return (Inr True)
     \<and> (\<forall>pw'. ComparePassword A pw' h =
          Return (Inr (IDKey A pw' salt 1 65536 4 32 = IDKey A pw salt 1 65536 4 32)))"
  using created_hash_compare [OF assms, of salt pw] by auto

text \<open>A concrete \<open>IDKey\<close> with the documented behaviour: password and salt, padded and cut.\<close>

definition toy_argon2 :: argon2_pkg where
  "toy_argon2 = \<lparr>argon2_Version = 19,
     IDKey = (\<lambda>pw salt t m p k.
       if t = 0 \<or> p = 0 then Panic ''argon2''
       else Return (take (unat k) (pw @ salt @ replicate (unat k) (CHR ''0''))))\<rparr>"

lemma toy_argon2_ok: "argon2_ok toy_argon2"
  by (auto simp: argon2_ok_def toy_argon2_def simp del: take_append)

theorem password_roundtrip_witness:
  "argon2_ok toy_argon2 \<and>
   (\<exists>h. CreateHashFromPassword toy_argon2 (Inr ''0123456789abcdef'') ''riotkit'' = Return (Inr h)
      \<and> ComparePassword toy_argon2 ''riotkit'' h = Return (Inr True)
      \<and> ComparePassword toy_argon2 ''rabbit'' h = Return (Inr False))"
proof -
  obtain h where h: "CreateHashFromPassword toy_argon2 (Inr ''0123456789abcdef'') ''riotkit'' = Return (Inr h)"
    "ComparePassword toy_argon2 ''riotkit'' h = Return (Inr True)"
    and other: "\<And>pw'. ComparePassword toy_argon2 pw' h =
          Return (Inr (IDKey toy_argon2 pw' ''0123456789abcdef'' 1 65536 4 32
            = IDKey toy_argon2 ''riotkit'' ''0123456789abcdef'' 1 65536 4 32))"
    using password_roundtrip [OF toy_argon2_ok, of "''0123456789abcdef''" "''riotkit''"] by blast
  have "ComparePassword toy_argon2 ''rabbit'' h = Return (Inr False)"
    unfolding other by (simp add: toy_argon2_def)
  with h toy_argon2_ok show ?thesis by blast
qed

text \<open>
  The guard of \<open>ComparePassword\<close> is too weak: it rejects hashes with fewer than three
  \<open>$\<close>-separated parts but then reads the parts with index 3, 4 and 5. A stored hash with three
  parts, or with four or five parts whose leading parts are well-formed, makes it panic instead
  of returning an error.
\<close>

theorem ComparePassword_panics_on_short_hash:
  assumes "parts = Split (fst (StdDecode hash)) (CHR ''$'')"
    and "3 \<le> length parts" and "length parts < 6"
    and "length parts > 3 \<Longrightarrow> is_Ok (Sscanf_params (parts ! 3))"
    and "length parts > 4 \<Longrightarrow> \<not> snd (StdDecode (parts ! 4))"
  shows "ComparePassword A pw hash = Panic ''index out of range''"
proof -
  consider "length parts = 3" | "length parts = 4" | "length parts = 5" using assms(2,3) by linarith
  then show ?thesis
    using assms(1,4,5)
    by cases
      (auto simp: ComparePassword_def index_slice_def Let_def
        split: sum.splits prod.splits bool.splits elim!: is_Ok.elims)
qed

theorem ComparePassword_panics_on_short_hash_witness:
  "Split (fst (StdDecode (EncodeToString ''$argon2id$v=19''))) (CHR ''$'') = [[], ''argon2id'', ''v=19'']
   \<and> ComparePassword toy_argon2 ''riotkit'' (EncodeToString ''$argon2id$v=19'') = Panic ''index out of range''"
proof -
  have s: "Split (fst (StdDecode (EncodeToString ''$argon2id$v=19''))) (CHR ''$'') = [[], ''argon2id'', ''v=19'']"
    by (simp only: StdDecode_Encode fst_conv) simp
  show ?thesis
    using s ComparePassword_panics_on_short_hash [OF s [symmetric], of toy_argon2 "''riotkit''"]
    by (simp del: EncodeToString.simps)
qed

end
