(* ===== verification/Locking.thy ===== *)
theory Locking
  imports Prelude
begin

text \<open>
  \<open>pkg/concurrency/locking.go\<close>: named locks with an expiry in the database table \<open>locks\<close>,
  whose primary key is \<open>id\<close> (the \<open>Id\<close> field of the migrated model).

  The four SQL statements of the file run in PostgreSQL through gorm, which are not part of the
  repository: they are the fields of the parameter \<open>lock_sql\<close>, functions on an arbitrary state
  \<open>'w\<close> of the outside world. The errors the code ignores are ignored here too: a failed count
  leaves the scanned variable at its zero value. Clock readings and random draws come from the
  environment; the reading that only seeds the random generator is left out.
  \<open>locks_ok\<close> states what the statements do to the table, including that any of them may fail.
\<close>

section \<open>The service\<close>

record 'w lock_sql =
  sql_count_unexpired :: "string \<Rightarrow> time \<Rightarrow> 'w \<Rightarrow> goint"
  sql_insert_lock :: "string \<Rightarrow> time \<Rightarrow> 'w \<Rightarrow> error option \<times> 'w"
  sql_delete_lock :: "string \<Rightarrow> 'w \<Rightarrow> 'w"
  sql_delete_expired :: "time \<Rightarrow> 'w \<Rightarrow> 'w"

record 'w Lock =
  lk_Id :: string
  lk_Expires :: time
  lk_unlock :: "'w \<Rightarrow> 'w"

section \<open>The code, statement by statement\<close>

text \<open>
  The functions are translated to the effects they run in program order: reading the clock,
  drawing a number below 5, and the SQL statements, each with the rest of the function as its
  continuation. One translation serves a client that runs alone (\<open>run_code\<close>) and clients whose
  effects interleave (\<open>lock_step\<close> below).
\<close>

datatype 'r lock_code =
    Done 'r
  | ReadClock "time \<Rightarrow> 'r lock_code"
  | DrawIntn5 "nat \<Rightarrow> 'r lock_code"
  | CountUnexpired string time "goint \<Rightarrow> 'r lock_code"
  | InsertLock string time "error option \<Rightarrow> 'r lock_code"
  | DeleteExpired time "'r lock_code"

primrec then_do :: "'a lock_code \<Rightarrow> ('a \<Rightarrow> 'b lock_code) \<Rightarrow> 'b lock_code" where
  "then_do (Done r) f = f r"
| "then_do (ReadClock k) f = ReadClock (\<lambda>t. then_do (k t) f)"
| "then_do (DrawIntn5 k) f = DrawIntn5 (\<lambda>n. then_do (k n) f)"
| "then_do (CountUnexpired i now k) f = CountUnexpired i now (\<lambda>x. then_do (k x) f)"
| "then_do (InsertLock i e k) f = InsertLock i e (\<lambda>err. then_do (k err) f)"
| "then_do (DeleteExpired now p) f = DeleteExpired now (then_do p f)"

definition shouldPerformCleanUpNow :: "bool lock_code" where
  "shouldPerformCleanUpNow = DrawIntn5 (\<lambda>intn5. Done (intn5 = 2))"

definition cleanUp :: "unit lock_code" where
  "cleanUp = ReadClock (\<lambda>now. DeleteExpired now (Done ()))"

definition isLockedAlready :: "string \<Rightarrow> bool lock_code" where
  "isLockedAlready i =
     ReadClock (\<lambda>now. CountUnexpired i now (\<lambda>result.
       then_do shouldPerformCleanUpNow (\<lambda>yes.
         then_do (if yes then cleanUp else Done ()) (\<lambda>_. Done (sint result > 0)))))"

definition unlock :: "'w lock_sql \<Rightarrow> string \<Rightarrow> 'w \<Rightarrow> 'w" where
  "unlock S i w = sql_delete_lock S i w"

definition addLock :: "string \<Rightarrow> duration \<Rightarrow> error option lock_code" where
  "addLock i howLong = ReadClock (\<lambda>now. InsertLock i (time_add now howLong) Done)"

definition Lock_statements :: "'w lock_sql \<Rightarrow> string \<Rightarrow> duration \<Rightarrow> 'w Lock result lock_code" where
  "Lock_statements S i howLong =
     then_do (isLockedAlready i) (\<lambda>locked.
       if locked then Done (Inl ''already locked'')
       else then_do (addLock i howLong) (\<lambda>r.
         case r of
           Some err \<Rightarrow> Done (Inl (''cannot lock transaction, '' @ err))
         | None \<Rightarrow> Done (Inr \<lparr>lk_Id = i, lk_Expires = zero_time, lk_unlock = unlock S i\<rparr>)))"

definition Unlock :: "'w Lock \<Rightarrow> 'w \<Rightarrow> 'w" where
  "Unlock l w = lk_unlock l w"

text \<open>A call that no other client interrupts, with its clock readings in order and its random draw.\<close>

record lock_env =
  readings :: "nat \<Rightarrow> time"
  draw :: nat

abbreviation now_count :: "lock_env \<Rightarrow> time" where
  "now_count env \<equiv> readings env 0"

primrec run_code :: "'w lock_sql \<Rightarrow> lock_env \<Rightarrow> 'r lock_code \<Rightarrow> nat \<Rightarrow> 'w \<Rightarrow> 'r \<times> 'w" where
  "run_code S env (Done r) n w = (r, w)"
| "run_code S env (ReadClock k) n w = run_code S env (k (readings env n)) (Suc n) w"
| "run_code S env (DrawIntn5 k) n w = run_code S env (k (draw env)) n w"
| "run_code S env (CountUnexpired i now k) n w = run_code S env (k (sql_count_unexpired S i now w)) n w"
| "run_code S env (InsertLock i e k) n w =
     (case sql_insert_lock S i e w of (err, w') \<Rightarrow> run_code S env (k err) n w')"
| "run_code S env (DeleteExpired now p) n w = run_code S env p n (sql_delete_expired S now w)"

definition LockService_Lock ::
    "'w lock_sql \<Rightarrow> lock_env \<Rightarrow> string \<Rightarrow> duration \<Rightarrow> 'w \<Rightarrow> 'w Lock result \<times> 'w" where
  "LockService_Lock S env i howLong w = run_code S env (Lock_statements S i howLong) 0 w"

lemmas lock_code_defs = Lock_statements_def isLockedAlready_def shouldPerformCleanUpNow_def cleanUp_def addLock_def

lemma LockService_Lock_eq:
  "LockService_Lock S env i howLong w =
     (let w1 = (if draw env = 2 then sql_delete_expired S (readings env 1) w else w);
          now = readings env (if draw env = 2 then 2 else 1) in
      if 0 < sint (sql_count_unexpired S i (now_count env) w) then (Inl ''already locked'', w1)
      else case sql_insert_lock S i (time_add now howLong) w1 of
          (Some err, w2) \<Rightarrow> (Inl (''cannot lock transaction, '' @ err), w2)
        | (None, w2) \<Rightarrow> (Inr \<lparr>lk_Id = i, lk_Expires = zero_time, lk_unlock = unlock S i\<rparr>, w2))"
  by (simp add: LockService_Lock_def lock_code_defs Let_def numeral_2_eq_2 split: prod.split option.split)

section \<open>What the statements do to the table\<close>

text \<open>
  \<open>L w\<close> is the table: the expiry of the row with a given id. A counted row exists and is not
  expired; an insert that succeeds found no row with the id and adds one; an insert that fails,
  a failed delete and a failed clean-up change nothing; a clean-up removes exactly the rows
  that expired before its time.
\<close>

definition locks_ok :: "'w lock_sql \<Rightarrow> ('w \<Rightarrow> (string \<rightharpoonup> time)) \<Rightarrow> bool" where
  "locks_ok S L \<longleftrightarrow>
     (\<forall>i now w. 0 < sint (sql_count_unexpired S i now w) \<longrightarrow> (\<exists>e. L w i = Some e \<and> now < e))
   \<and> (\<forall>i e w. (case sql_insert_lock S i e w of
         (None, w') \<Rightarrow> L w i = None \<and> L w' = (L w)(i \<mapsto> e)
       | (Some err, w') \<Rightarrow> L w' = L w))
   \<and> (\<forall>i w. L (sql_delete_lock S i w) = (L w)(i := None) \<or> L (sql_delete_lock S i w) = L w)
   \<and> (\<forall>now w. L (sql_delete_expired S now w) = (\<lambda>i. case L w i of
          Some e \<Rightarrow> if e < now then None else Some e | None \<Rightarrow> None)
        \<or> L (sql_delete_expired S now w) = L w)"

lemma locks_okD:
  assumes "locks_ok S L"
  shows "case sql_insert_lock S i e w of
         (None, w') \<Rightarrow> L w i = None \<and> L w' = (L w)(i \<mapsto> e)
       | (Some err, w') \<Rightarrow> L w' = L w"
    and "L (sql_delete_lock S i w) = (L w)(i := None) \<or> L (sql_delete_lock S i w) = L w"
    and "L (sql_delete_expired S now w) = (\<lambda>i. case L w i of
          Some e \<Rightarrow> if e < now then None else Some e | None \<Rightarrow> None)
        \<or> L (sql_delete_expired S now w) = L w"
    and "0 < sint (sql_count_unexpired S i now w) \<Longrightarrow> \<exists>e. L w i = Some e \<and> now < e"
  using assms unfolding locks_ok_def by simp_all

lemma insert_lock_None:
  "locks_ok S L \<Longrightarrow> sql_insert_lock S i e w = (None, w') \<Longrightarrow> L w i = None \<and> L w' = (L w)(i \<mapsto> e)"
  using locks_okD(1) [where i = i and e = e and w = w] by fastforce

lemma insert_lock_Some:
  "locks_ok S L \<Longrightarrow> sql_insert_lock S i e w = (Some err, w') \<Longrightarrow> L w' = L w"
  using locks_okD(1) [where i = i and e = e and w = w] by fastforce

lemma delete_expired_cases:
  assumes "locks_ok S L"
  shows "L (sql_delete_expired S now w) i = L w i \<or>
     (\<exists>e. L w i = Some e \<and> e < now \<and> L (sql_delete_expired S now w) i = None)"
  using locks_okD(3) [OF assms, where now = now and w = w] by (auto split: option.splits)

lemma delete_lock_other:
  assumes "locks_ok S L" "j \<noteq> i"
  shows "L (sql_delete_lock S i w) j = L w j"
  using locks_okD(2) [OF assms(1), where i = i and w = w] assms(2) by auto

section \<open>Many clients, one table\<close>

text \<open>
  Any number of clients run \<open>Lock\<close> and \<open>Unlock\<close>. Each effect of \<open>Lock_statements\<close> is a step of
  its own, so other clients may act, and time may pass, between any two of them. A client that
  calls \<open>Lock\<close> for some duration may use the lock until its deadline, that duration after the
  call. With \<open>timely\<close> a client releases its lock no later than its deadline.
\<close>

datatype 'w client = Idle | Running string time "'w Lock result lock_code" | Holding string time "'w Lock"

record 'w lsys =
  sys_world :: 'w
  sys_now :: time
  sys_client :: "nat \<Rightarrow> 'w client"

definition put_client :: "'w lsys \<Rightarrow> nat \<Rightarrow> 'w client \<Rightarrow> 'w \<Rightarrow> 'w lsys" where
  "put_client s c cl w = s\<lparr>sys_world := w, sys_client := (sys_client s)(c := cl)\<rparr>"

lemma put_client_simps [simp]:
  "sys_world (put_client s c cl w) = w" "sys_now (put_client s c cl w) = sys_now s"
  "sys_client (put_client s c cl w) d = (if d = c then cl else sys_client s d)"
  "put_client (put_client s c cl w) c cl' w' = put_client s c cl' w'"
  by (simp_all add: put_client_def)

lemma put_client_same: "sys_client s c = cl \<Longrightarrow> put_client s c cl (sys_world s) = s"
  by (cases s) (auto simp: put_client_def)

fun code_step :: "'w lock_sql \<Rightarrow> time \<Rightarrow> nat \<Rightarrow> 'r lock_code \<Rightarrow> 'w \<Rightarrow> 'r lock_code \<times> 'w" where
  "code_step S now n (Done r) w = (Done r, w)"
| "code_step S now n (ReadClock k) w = (k now, w)"
| "code_step S now n (DrawIntn5 k) w = (k n, w)"
| "code_step S now n (CountUnexpired i t k) w = (k (sql_count_unexpired S i t w), w)"
| "code_step S now n (InsertLock i e k) w = (case sql_insert_lock S i e w of (err, w') \<Rightarrow> (k err, w'))"
| "code_step S now n (DeleteExpired t p) w = (p, sql_delete_expired S t w)"

inductive lock_step :: "'w lock_sql \<Rightarrow> bool \<Rightarrow> 'w lsys \<Rightarrow> 'w lsys \<Rightarrow> bool" for S timely where
  tick: "sys_now s \<le> t \<Longrightarrow> lock_step S timely s (s\<lparr>sys_now := t\<rparr>)"
| call: "sys_client s c = Idle \<Longrightarrow>
     lock_step S timely s (put_client s c (Running i (time_add (sys_now s) howLong) (Lock_statements S i howLong)) (sys_world s))"
| statement: "sys_client s c = Running i u p \<Longrightarrow> n < 5 \<Longrightarrow>
     code_step S (sys_now s) n p (sys_world s) = (p', w') \<Longrightarrow>
     lock_step S timely s (put_client s c (Running i u p') w')"
| acquired: "sys_client s c = Running i u (Done (Inr l)) \<Longrightarrow>
     lock_step S timely s (put_client s c (Holding i u l) (sys_world s))"
| refused: "sys_client s c = Running i u (Done (Inl e)) \<Longrightarrow>
     lock_step S timely s (put_client s c Idle (sys_world s))"
| release: "sys_client s c = Holding i u l \<Longrightarrow> (timely \<Longrightarrow> sys_now s \<le> u) \<Longrightarrow>
     lock_step S timely s (put_client s c Idle (Unlock l (sys_world s)))"

inductive lock_reachable :: "'w lock_sql \<Rightarrow> bool \<Rightarrow> 'w lsys \<Rightarrow> bool" for S timely where
  start: "(\<And>c. sys_client s c = Idle) \<Longrightarrow> lock_reachable S timely s"
| step: "lock_reachable S timely s \<Longrightarrow> lock_step S timely s t \<Longrightarrow> lock_reachable S timely t"

section \<open>What the code guarantees at every statement\<close>

text \<open>
  \<open>sound_code S i u p m\<close>: the rest \<open>p\<close> of a call, run from the time \<open>m\<close> on, returns a lock only after
  a successful insert of the id \<open>i\<close> with an expiry not before the deadline \<open>u\<close>, the lock that it
  returns deletes that id, and everything it deletes before has expired.
\<close>

primrec sound_code :: "'w lock_sql \<Rightarrow> string \<Rightarrow> time \<Rightarrow> 'w Lock result lock_code \<Rightarrow> time \<Rightarrow> bool" where
  "sound_code S i u (Done r) m = (\<not> is_Ok r)"
| "sound_code S i u (ReadClock k) m = (\<forall>t. m \<le> t \<longrightarrow> sound_code S i u (k t) t)"
| "sound_code S i u (DrawIntn5 k) m = (\<forall>n. sound_code S i u (k n) m)"
| "sound_code S i u (CountUnexpired j t k) m = (\<forall>x. sound_code S i u (k x) m)"
| "sound_code S i u (InsertLock j e k) m =
     (j = i \<and> u \<le> e \<and> (\<exists>l. k None = Done (Inr l) \<and> lk_unlock l = sql_delete_lock S i)
      \<and> (\<forall>err. sound_code S i u (k (Some err)) m))"
| "sound_code S i u (DeleteExpired t p) m = (t \<le> m \<and> sound_code S i u p m)"

lemma sound_code_mono: "sound_code S i u p m \<Longrightarrow> m \<le> m' \<Longrightarrow> sound_code S i u p m'"
  by (induction p arbitrary: m) auto

lemma Lock_sound: "sound_code S i (time_add b howLong) (Lock_statements S i howLong) b"
  by (auto simp: lock_code_defs time_add_def unlock_def fun_eq_iff)

lemma not_acquired: "sound_code S i u (Done (Inr l)) m \<Longrightarrow> False"
  by simp

text \<open>
  The invariant: clients run sound code and hold locks that delete their own id, the row of
  every holder before its deadline is in the table and expires no earlier than that, and no two
  clients are holders of the same lock before their deadlines.
\<close>

definition client_ok :: "'w lock_sql \<Rightarrow> time \<Rightarrow> 'w client \<Rightarrow> bool" where
  "client_ok S now cl \<longleftrightarrow> (case cl of
       Idle \<Rightarrow> True
     | Running i u p \<Rightarrow> sound_code S i u p now \<or> (\<exists>l. p = Done (Inr l) \<and> lk_unlock l = sql_delete_lock S i)
     | Holding i u l \<Rightarrow> lk_unlock l = sql_delete_lock S i)"

definition holds_at :: "'w lsys \<Rightarrow> nat \<Rightarrow> string \<Rightarrow> time \<Rightarrow> bool" where
  "holds_at s c i u \<longleftrightarrow> sys_now s \<le> u
     \<and> ((\<exists>l. sys_client s c = Holding i u l) \<or> (\<exists>l. sys_client s c = Running i u (Done (Inr l))))"

definition lock_inv :: "'w lock_sql \<Rightarrow> ('w \<Rightarrow> (string \<rightharpoonup> time)) \<Rightarrow> 'w lsys \<Rightarrow> bool" where
  "lock_inv S L s \<longleftrightarrow>
     (\<forall>c. client_ok S (sys_now s) (sys_client s c))
   \<and> (\<forall>c i u. holds_at s c i u \<longrightarrow> (\<exists>e. L (sys_world s) i = Some e \<and> u \<le> e))
   \<and> (\<forall>c c' i u u'. holds_at s c i u \<longrightarrow> holds_at s c' i u' \<longrightarrow> c = c')"

lemma lock_invI:
  assumes "\<And>c. client_ok S (sys_now t) (sys_client t c)"
    and "\<And>c i u. holds_at t c i u \<Longrightarrow> \<exists>e. L (sys_world t) i = Some e \<and> u \<le> e"
    and "\<And>c c' i u u'. holds_at t c i u \<Longrightarrow> holds_at t c' i u' \<Longrightarrow> c = c'"
  shows "lock_inv S L t"
  using assms unfolding lock_inv_def by blast

lemma lock_inv_client: "lock_inv S L s \<Longrightarrow> client_ok S (sys_now s) (sys_client s c)"
  and lock_inv_row: "lock_inv S L s \<Longrightarrow> holds_at s c i u \<Longrightarrow> \<exists>e. L (sys_world s) i = Some e \<and> u \<le> e"
  and lock_inv_unique: "lock_inv S L s \<Longrightarrow> holds_at s c i u \<Longrightarrow> holds_at s c' i u' \<Longrightarrow> c = c'"
  unfolding lock_inv_def by blast+

lemma client_ok_mono: "client_ok S m cl \<Longrightarrow> m \<le> m' \<Longrightarrow> client_ok S m' cl"
  by (auto simp: client_ok_def split: client.splits intro: sound_code_mono)

text \<open>
  Steps of a client that make no new holder and only drop rows that have expired by the new time
  keep the invariant.
\<close>

lemma lock_inv_weaken:
  assumes inv: "lock_inv S L s" and time: "sys_now s \<le> sys_now t"
    and ok: "\<And>c. client_ok S (sys_now s) (sys_client s c) \<Longrightarrow> client_ok S (sys_now t) (sys_client t c)"
    and hold: "\<And>c i u. holds_at t c i u \<Longrightarrow> holds_at s c i u"
    and rows: "\<And>i e. L (sys_world s) i = Some e \<Longrightarrow> sys_now t \<le> e \<Longrightarrow> L (sys_world t) i = Some e"
  shows "lock_inv S L t"
proof (rule lock_invI)
  show "client_ok S (sys_now t) (sys_client t c)" for c using ok lock_inv_client [OF inv] .
  show "\<exists>e. L (sys_world t) i = Some e \<and> u \<le> e" if "holds_at t c i u" for c i u
    using lock_inv_row [OF inv hold [OF that]] rows that by (fastforce simp: holds_at_def)
  show "c = c'" if "holds_at t c i u" "holds_at t c' i u'" for c c' i u u'
    using lock_inv_unique [OF inv hold [OF that(1)] hold [OF that(2)]] .
qed

text \<open>A successful insert found no row, so no holder before its deadline: the new holder is the only one.\<close>

lemma lock_inv_insert:
  assumes ok: "locks_ok S L" and inv: "lock_inv S L s"
    and ins: "sql_insert_lock S i e (sys_world s) = (None, w')" "u \<le> e" "lk_unlock l = sql_delete_lock S i"
    and t: "t = put_client s c (Running i u (Done (Inr l))) w'"
  shows "lock_inv S L t"
proof (rule lock_invI)
  have free: "L (sys_world s) i = None" and tab: "L w' = (L (sys_world s))(i \<mapsto> e)"
    using insert_lock_None [OF ok ins(1)] by auto
  have old: "holds_at s d j x" if "holds_at t d j x" "d \<noteq> c" for d j x
    using that t by (auto simp: holds_at_def)
  have new: "j = i \<and> x = u" if "holds_at t c j x" for j x
    using that t by (auto simp: holds_at_def)
  have not_i: "j \<noteq> i" if "holds_at t d j x" "d \<noteq> c" for d j x
    using lock_inv_row [OF inv old [OF that]] free by auto
  show "client_ok S (sys_now t) (sys_client t d)" for d
    using lock_inv_client [OF inv, of d] ins(3) t by (auto simp: client_ok_def)
  show "\<exists>e. L (sys_world t) j = Some e \<and> x \<le> e" if "holds_at t d j x" for d j x
  proof (cases "d = c")
    case True
    with that have "holds_at t c j x" by simp
    from new [OF this] tab t ins(2) show ?thesis by simp
  next
    case False
    with lock_inv_row [OF inv old [OF that False]] not_i [OF that False] tab t show ?thesis by simp
  qed
  show "d = d'" if "holds_at t d j x" "holds_at t d' j x'" for d d' j x x'
  proof (cases "d = c \<or> d' = c")
    case True
    with that new not_i show ?thesis by metis
  next
    case False
    with that old lock_inv_unique [OF inv] show ?thesis by metis
  qed
qed

text \<open>A release before the deadline removes the own row and no other.\<close>

lemma lock_inv_release:
  assumes ok: "locks_ok S L" and inv: "lock_inv S L s"
    and release: "sys_client s c = Holding i u l" "sys_now s \<le> u"
    and t: "t = put_client s c Idle (Unlock l (sys_world s))"
  shows "lock_inv S L t"
proof (rule lock_invI)
  have mine: "holds_at s c i u" using release by (simp add: holds_at_def)
  have own: "Unlock l = sql_delete_lock S i"
    using lock_inv_client [OF inv, of c] release(1) by (simp add: client_ok_def Unlock_def fun_eq_iff)
  have old: "holds_at s d j x \<and> d \<noteq> c" if "holds_at t d j x" for d j x
    using that t by (auto simp: holds_at_def split: if_splits)
  have other: "j \<noteq> i" if "holds_at t d j x" for d j x
    using lock_inv_unique [OF inv mine] old [OF that] by blast
  show "client_ok S (sys_now t) (sys_client t d)" for d
    using lock_inv_client [OF inv, of d] t by (simp add: client_ok_def)
  show "\<exists>e. L (sys_world t) j = Some e \<and> x \<le> e" if "holds_at t d j x" for d j x
    using lock_inv_row [OF inv, of d j x] old [OF that] delete_lock_other [OF ok other [OF that]] own t by simp
  show "d = d'" if "holds_at t d j x" "holds_at t d' j x'" for d d' j x x'
    using lock_inv_unique [OF inv] old [OF that(1)] old [OF that(2)] by blast
qed

text \<open>An effect of a running call.\<close>

lemma lock_inv_statement:
  assumes ok: "locks_ok S L" and inv: "lock_inv S L s" and run: "sys_client s c = Running i u p"
    and step: "code_step S (sys_now s) n p (sys_world s) = (p', w')"
    and t: "t = put_client s c (Running i u p') w'"
  shows "lock_inv S L t"
proof (cases "\<exists>r. p = Done r")
  case True
  with step run t have "t = s" by (auto simp: put_client_same)
  with inv show ?thesis by simp
next
  case False
  then have snd: "sound_code S i u p (sys_now s)"
    using lock_inv_client [OF inv, of c] run by (auto simp: client_ok_def)
  show ?thesis
  proof (cases "\<exists>j e k. p = InsertLock j e k \<and> fst (sql_insert_lock S j e (sys_world s)) = None")
    case True
    then obtain j e k where p: "p = InsertLock j e k" "sql_insert_lock S j e (sys_world s) = (None, w')"
      using step by (auto split: prod.splits)
    with snd step obtain l where l: "j = i" "u \<le> e" "p' = Done (Inr l)" "lk_unlock l = sql_delete_lock S i"
      by auto
    from lock_inv_insert [OF ok inv p(2) [unfolded l(1)] l(2,4)] t l(3) show ?thesis by simp
  next
    case 2: False
    have snd': "sound_code S i u p' (sys_now s)"
      using snd step 2 False by (cases p) (auto split: prod.splits)
    have rows: "L w' j = Some e" if "L (sys_world s) j = Some e" "sys_now s \<le> e" for j e
    proof (cases p)
      case (InsertLock j' e' k)
      then obtain err where "sql_insert_lock S j' e' (sys_world s) = (Some err, w')"
        using 2 step by (cases "fst (sql_insert_lock S j' e' (sys_world s))") (auto split: prod.splits)
      with insert_lock_Some [OF ok] that(1) show ?thesis by simp
    next
      case (DeleteExpired tm q)
      with step snd have "w' = sql_delete_expired S tm (sys_world s)" "tm \<le> sys_now s" by auto
      with delete_expired_cases [OF ok, of tm "sys_world s" j] that show ?thesis by auto
    qed (use step that False in auto)
    show ?thesis
      by (rule lock_inv_weaken [OF inv]) (use t rows snd' run in \<open>auto simp: client_ok_def holds_at_def split: if_splits\<close>)
  qed
qed

lemma lock_step_inv:
  assumes ok: "locks_ok S L" and "lock_step S True s t" and inv: "lock_inv S L s"
  shows "lock_inv S L t"
  using assms(2)
proof cases
  case (tick tm)
  then show ?thesis
    by (intro lock_inv_weaken [OF inv]) (auto simp: holds_at_def intro: client_ok_mono)
next
  case (call c i howLong)
  then show ?thesis
    by (intro lock_inv_weaken [OF inv])
      (use Lock_sound [of S i "sys_now s" howLong] in \<open>auto simp: holds_at_def client_ok_def split: if_splits\<close>)
next
  case (statement c i u p n p' w')
  then show ?thesis by (intro lock_inv_statement [OF ok inv])
next
  case (acquired c i u l)
  then show ?thesis
    by (intro lock_inv_weaken [OF inv]) (auto simp: holds_at_def client_ok_def split: if_splits)
next
  case (refused c i u e)
  then show ?thesis
    by (intro lock_inv_weaken [OF inv]) (auto simp: holds_at_def client_ok_def split: if_splits)
next
  case (release c i u l)
  then show ?thesis by (intro lock_inv_release [OF ok inv]) simp_all
qed

lemma lock_reachable_inv:
  assumes "locks_ok S L" "lock_reachable S True s"
  shows "lock_inv S L s"
  using assms(2)
proof induction
  case (start s)
  then show ?case by (simp add: lock_inv_def holds_at_def client_ok_def)
next
  case (step s t)
  then show ?case using lock_step_inv [OF assms(1)] by blast
qed

text \<open>A call that runs to its end without interruption, at one instant.\<close>

lemma uninterrupted:
  assumes "lock_reachable S timely s" "sys_client s c = Running i u p" "draw env < 5" "\<forall>n. readings env n = sys_now s"
    and "run_code S env p n (sys_world s) = (r, w')"
  shows "lock_reachable S timely (put_client s c (Running i u (Done r)) w')"
  using assms
proof (induction p arbitrary: s n)
  case (Done x)
  then show ?case using put_client_same [OF Done.prems(2)] by simp
next
  case (ReadClock k)
  from lock_step.statement [OF ReadClock.prems(2,3)]
  have "lock_step S timely s (put_client s c (Running i u (k (sys_now s))) (sys_world s))" by simp
  from lock_reachable.step [OF ReadClock.prems(1) this] ReadClock.IH ReadClock.prems(3-5) show ?case by fastforce
next
  case (DrawIntn5 k)
  from lock_step.statement [OF DrawIntn5.prems(2,3)]
  have "lock_step S timely s (put_client s c (Running i u (k (draw env))) (sys_world s))" by simp
  from lock_reachable.step [OF DrawIntn5.prems(1) this] DrawIntn5.IH DrawIntn5.prems(3-5) show ?case by fastforce
next
  case (CountUnexpired j tm k)
  from lock_step.statement [OF CountUnexpired.prems(2,3)]
  have "lock_step S timely s (put_client s c (Running i u (k (sql_count_unexpired S j tm (sys_world s)))) (sys_world s))"
    by simp
  from lock_reachable.step [OF CountUnexpired.prems(1) this] CountUnexpired.IH CountUnexpired.prems(3-5)
  show ?case by fastforce
next
  case (InsertLock j e k)
  obtain err w1 where ins: "sql_insert_lock S j e (sys_world s) = (err, w1)" by fastforce
  from lock_step.statement [OF InsertLock.prems(2,3)] ins
  have "lock_step S timely s (put_client s c (Running i u (k err)) w1)" by simp
  from lock_reachable.step [OF InsertLock.prems(1) this] InsertLock.IH InsertLock.prems(3-5) ins show ?case by fastforce
next
  case (DeleteExpired tm p)
  from lock_step.statement [OF DeleteExpired.prems(2,3)]
  have "lock_step S timely s (put_client s c (Running i u p) (sql_delete_expired S tm (sys_world s)))" by simp
  from lock_reachable.step [OF DeleteExpired.prems(1) this] DeleteExpired.IH DeleteExpired.prems(3-5)
  show ?case by fastforce
qed

section \<open>Properties\<close>

text \<open>
  C11. Mutual exclusion, provided that locks are released in time. If every client releases its
  lock no later than its deadline (the duration it asked for, counted from its call of \<open>Lock\<close>),
  then, however the clock readings and the SQL statements of any number of clients interleave,
  and even if some statements fail, two clients never both hold the same lock before their
  deadlines. The check before the insert is not needed for this: the primary key decides the
  race between two clients that both found the lock free. Without the proviso this is false
  (\<open>late_release_breaks_exclusion\<close>).
\<close>

theorem lock_mutual_exclusion:
  assumes "locks_ok S L" and "lock_reachable S True s"
    and "sys_client s c = Holding i u l" and "sys_now s \<le> u"
    and "sys_client s c' = Holding i u' l'" and "sys_now s \<le> u'"
  shows "c = c'"
  using lock_inv_unique [OF lock_reachable_inv [OF assms(1,2)]] assms(3-) by (auto simp: holds_at_def)

text \<open>A table kept in memory, whose statements never fail.\<close>

definition mem_locks :: "(string \<Rightarrow> time option) lock_sql" where
  "mem_locks = \<lparr>
     sql_count_unexpired = (\<lambda>i now m. case m i of Some e \<Rightarrow> if now < e then 1 else 0 | None \<Rightarrow> 0),
     sql_insert_lock = (\<lambda>i e m. case m i of
        Some _ \<Rightarrow> (Some ''duplicate key value violates unique constraint'', m)
      | None \<Rightarrow> (None, m(i \<mapsto> e))),
     sql_delete_lock = (\<lambda>i m. m(i := None)),
     sql_delete_expired = (\<lambda>now m i. case m i of
        Some e \<Rightarrow> if e < now then None else Some e | None \<Rightarrow> None)\<rparr>"

lemma mem_locks_ok: "locks_ok mem_locks (\<lambda>m. m)"
  by (auto simp: locks_ok_def mem_locks_def split: option.splits if_splits)

abbreviation env_at :: "time \<Rightarrow> nat \<Rightarrow> lock_env" where
  "env_at t d \<equiv> \<lparr>readings = (\<lambda>_. t), draw = d\<rparr>"

abbreviation lsys0 :: "(string \<Rightarrow> time option) lsys" where
  "lsys0 \<equiv> \<lparr>sys_world = Map.empty, sys_now = 0, sys_client = (\<lambda>_. Idle)\<rparr>"

abbreviation mem_lock :: "string \<Rightarrow> (string \<Rightarrow> time option) Lock" where
  "mem_lock i \<equiv> \<lparr>lk_Id = i, lk_Expires = zero_time, lk_unlock = unlock mem_locks i\<rparr>"

text \<open>A client that finds the lock free, alone at the instant \<open>t\<close>, holds it afterwards.\<close>

lemma mem_acquire:
  assumes "lock_reachable mem_locks timely s" "sys_client s c = Idle" "sys_now s \<le> t" "d < 5"
    and w: "w = (if d = (2::nat) then sql_delete_expired mem_locks t (sys_world s) else sys_world s)" and free: "w i = None"
    and old: "\<And>x. sys_world s i = Some x \<Longrightarrow> x \<le> t"
  shows "lock_reachable mem_locks timely
    (put_client (s\<lparr>sys_now := t\<rparr>) c (Holding i (time_add t h) (mem_lock i)) (w(i \<mapsto> time_add t h)))"
proof -
  let ?s1 = "s\<lparr>sys_now := t\<rparr>"
  let ?s2 = "put_client ?s1 c (Running i (time_add t h) (Lock_statements mem_locks i h)) (sys_world s)"
  let ?s3 = "put_client ?s1 c (Running i (time_add t h) (Done (Inr (mem_lock i)))) (w(i \<mapsto> time_add t h))"
  have 1: "lock_reachable mem_locks timely ?s1"
    by (rule lock_reachable.step [OF assms(1) lock_step.tick [OF assms(3)]])
  have "lock_step mem_locks timely ?s1 ?s2"
    using lock_step.call [of ?s1 c mem_locks timely i h] assms(2) by simp
  with 1 have 2: "lock_reachable mem_locks timely ?s2" by (rule lock_reachable.step)
  have "\<not> 0 < sint (sql_count_unexpired mem_locks i t (sys_world s))"
    using old by (auto simp: mem_locks_def split: option.splits)
  moreover have "sql_insert_lock mem_locks i (time_add t h) w = (None, w(i \<mapsto> time_add t h))"
    using free by (simp add: mem_locks_def)
  ultimately have "LockService_Lock mem_locks (env_at t d) i h (sys_world s) = (Inr (mem_lock i), w(i \<mapsto> time_add t h))"
    using w by (cases "d = 2") (simp_all add: Let_def LockService_Lock_eq)
  then have run: "run_code mem_locks (env_at t d) (Lock_statements mem_locks i h) 0 (sys_world s)
      = (Inr (mem_lock i), w(i \<mapsto> time_add t h))" by (simp only: LockService_Lock_def)
  have "lock_reachable mem_locks timely (put_client ?s2 c (Running i (time_add t h) (Done (Inr (mem_lock i)))) (w(i \<mapsto> time_add t h)))"
    by (rule uninterrupted [OF 2, where env = "env_at t d" and n = 0]) (use run assms(4) in simp_all)
  then have 3: "lock_reachable mem_locks timely ?s3" by simp
  from lock_reachable.step [OF 3 lock_step.acquired [of ?s3 c i "time_add t h" "mem_lock i"]] show ?thesis by simp
qed

abbreviation held :: "(string \<Rightarrow> time option) lsys \<Rightarrow> nat \<Rightarrow> time \<Rightarrow> (string \<Rightarrow> time option) lsys" where
  "held s c t \<equiv> put_client (s\<lparr>sys_now := t\<rparr>) c (Holding ''a'' (time_add t 10) (mem_lock ''a'')) [''a'' \<mapsto> time_add t 10]"

lemma one_holder_reachable: "lock_reachable mem_locks timely (held lsys0 1 0)"
  using mem_acquire [OF lock_reachable.start [of lsys0 mem_locks timely], of 1 0 0 Map.empty "''a''" 10] by simp

theorem lock_mutual_exclusion_witness:
  "\<exists>s l. locks_ok mem_locks (\<lambda>m. m) \<and> lock_reachable mem_locks True s
     \<and> sys_client s 1 = Holding ''a'' 10 l \<and> sys_now s \<le> 10
     \<and> (\<forall>c u l'. sys_client s c = Holding ''a'' u l' \<and> sys_now s \<le> u \<longrightarrow> (1::nat) = c)"
proof -
  let ?s = "held lsys0 1 0"
  have h: "sys_client ?s 1 = Holding ''a'' 10 (mem_lock ''a'')" by (simp add: time_add_def)
  have n: "sys_now ?s \<le> 10" by simp
  show ?thesis
    using mem_locks_ok one_holder_reachable [of True] h n
      lock_mutual_exclusion [OF mem_locks_ok one_holder_reachable [of True] h n]
    by blast
qed

text \<open>
  C38. Releasing deletes the row by its id, whoever inserted it. A client that outlives its lock
  removes the lock of its successor: without timely releases a state is reachable in which two
  different clients hold the same lock, both before their deadlines.
\<close>

theorem late_release_breaks_exclusion:
  "\<exists>s i u u' l l'. lock_reachable mem_locks False s \<and> sys_client s 2 = Holding i u l \<and> sys_now s \<le> u
     \<and> sys_client s 3 = Holding i u' l' \<and> sys_now s \<le> u'"
proof -
  define s1 where "s1 = held lsys0 1 0"
  define s2 where "s2 = held s1 2 20"
  define s3 where "s3 = put_client s2 1 Idle Map.empty"
  define s4 where "s4 = held s3 3 21"
  have r1: "lock_reachable mem_locks False s1"
    unfolding s1_def by (rule one_holder_reachable)
  have clean: "sql_delete_expired mem_locks 20 (sys_world s1) = Map.empty"
    by (auto simp: mem_locks_def s1_def time_add_def fun_eq_iff)
  have r2: "lock_reachable mem_locks False s2"
    unfolding s2_def by (rule mem_acquire [OF r1, where d = 2]) (simp_all add: clean, simp_all add: s1_def time_add_def)
  have "lock_step mem_locks False s2 s3"
    using lock_step.release [of s2 1 "''a''" "time_add 0 10" "mem_lock ''a''" False mem_locks]
    by (simp add: s3_def s2_def s1_def Unlock_def unlock_def mem_locks_def)
  with r2 have r3: "lock_reachable mem_locks False s3" by (rule lock_reachable.step)
  have r4: "lock_reachable mem_locks False s4"
    unfolding s4_def by (rule mem_acquire [OF r3, where d = 0]) (simp_all add: s3_def s2_def s1_def)
  have "sys_client s4 2 = Holding ''a'' 30 (mem_lock ''a'')" "sys_client s4 3 = Holding ''a'' 31 (mem_lock ''a'')"
    "sys_now s4 = 21"
    by (simp_all add: s4_def s3_def s2_def s1_def time_add_def)
  with r4 show ?thesis by (intro exI [of _ s4] exI) (auto simp del: fun_upd_apply)
qed

text \<open>
  C39. An expired lock keeps blocking. When the row of an expired lock is still in the table and
  the random draw does not trigger a clean-up (four draws out of five), \<open>Lock\<close> fails with the
  error of the insert and changes nothing, however long ago the lock expired.
\<close>

theorem stale_lock_blocks:
  assumes "locks_ok S L" and "L w i = Some e" and "e \<le> now_count env" and "draw env \<noteq> 2"
  shows "\<exists>err w'. LockService_Lock S env i howLong w = (Inl (''cannot lock transaction, '' @ err), w')
     \<and> L w' = L w"
proof -
  have free: "\<not> 0 < sint (sql_count_unexpired S i (now_count env) w)"
    using locks_okD(4) [OF assms(1), of i "now_count env" w] assms(2,3) by fastforce
  obtain r w' where ins: "sql_insert_lock S i (time_add (readings env 1) howLong) w = (r, w')"
    by fastforce
  with insert_lock_None [OF assms(1), of i] assms(2) obtain err where "r = Some err"
    by (cases r) auto
  with ins insert_lock_Some [OF assms(1), of i] free assms(4) show ?thesis
    by (simp add: LockService_Lock_eq)
qed

theorem stale_lock_blocks_witness:
  "\<exists>err w'. LockService_Lock mem_locks (env_at 1000 0) ''a'' 10 [''a'' \<mapsto> 5]
      = (Inl (''cannot lock transaction, '' @ err), w') \<and> w' = [''a'' \<mapsto> 5]"
  using stale_lock_blocks [OF mem_locks_ok, of "[''a'' \<mapsto> 5]" "''a''" 5 "env_at 1000 0" 10] by simp

end
