(* ===== verification/Backup_Window.thy ===== *)
theory Backup_Window
  imports Go_Strings
begin

text \<open>
  The backup windows of \<open>pkg/collections/model.go\<close>: parsing a window, finding the start of the
  previous scheduled run and deciding whether an instant lies in a window.

  A parsed cron schedule (\<open>robfig/cron\<close>) is its method \<open>Next\<close>, a function on instants; the two
  parsers \<open>cron.Parse\<close> and \<open>time.ParseDuration\<close> and the RFC 822 formatting of an instant in the
  server's time zone are the fields of the parameter \<open>window_lib\<close>. \<open>cron_ok\<close> and \<open>rfc822_ok\<close>
  state what the code relies on.
\<close>

section \<open>Operations\<close>

record window_lib =
  cron_Parse :: "string \<Rightarrow> (time \<Rightarrow> time) result"
  ParseDuration :: "string \<Rightarrow> duration result"
  FormatRFC822 :: "time \<Rightarrow> string"

record BackupWindow =
  bw_From :: string
  bw_Duration :: string
  bw_parsed :: "time \<Rightarrow> time"
  bw_parsedDuration :: duration

definition applyRawAttributes :: "window_lib \<Rightarrow> string \<Rightarrow> string \<Rightarrow> BackupWindow result" where
  "applyRawAttributes W from dur =
     (case cron_Parse W from of
        Inl err \<Rightarrow> Inl (''cannot parse Backup Window: '' @ from @ ''. IsError: '' @ err)
      | Inr schedule \<Rightarrow>
          (case ParseDuration W dur of
             Inl err \<Rightarrow> Inl (''cannot parse Backup Window - duation parsing, IsError: '' @ err)
           | Inr d \<Rightarrow> Inr \<lparr>bw_From = from, bw_Duration = dur, bw_parsed = schedule, bw_parsedDuration = d\<rparr>))"

definition NewBackupWindow :: "window_lib \<Rightarrow> string \<Rightarrow> string \<Rightarrow> BackupWindow result" where
  "NewBackupWindow W from dur = applyRawAttributes W from dur"

text \<open>
  Decoding from JSON validates the window. The decoding of the two raw attributes is a parameter.
\<close>

definition BackupWindow_UnmarshalJSON ::
    "(bytes \<Rightarrow> (string \<times> string) result) \<Rightarrow> window_lib \<Rightarrow> bytes \<Rightarrow> BackupWindow result" where
  "BackupWindow_UnmarshalJSON unmarshalRaw W inp =
     (case unmarshalRaw inp of
        Inl unmarshalErr \<Rightarrow> Inl unmarshalErr
      | Inr (from, dur) \<Rightarrow> applyRawAttributes W from dur)"

text \<open>The search loop: one minute further back in every round, 60*24*30*12 rounds at most.\<close>

definition max_retries :: nat where "max_retries = 60 * 24 * 30 * 12"

function prevSearch :: "(time \<Rightarrow> time) \<Rightarrow> (time \<Rightarrow> string) \<Rightarrow> time \<Rightarrow> time \<Rightarrow> nat \<Rightarrow> time result" where
  "prevSearch parsedNext fmt nextRun startDate retries =
     (let retries' = retries + 1;
          startDate' = startDate - minute;
          possiblePrevRun = parsedNext startDate'
      in if fmt possiblePrevRun \<noteq> fmt nextRun then Inr possiblePrevRun
         else if retries' > max_retries then Inl ''cannot find a previous date in the backup window''
         else prevSearch parsedNext fmt nextRun startDate' retries')"
  by pat_completeness auto
termination
  by (relation "measure (\<lambda>(_, _, _, _, retries). Suc max_retries - retries)") (auto simp: Let_def)

declare prevSearch.simps [simp del]

definition GetStartingDateOfPreviousScheduledRun ::
    "window_lib \<Rightarrow> BackupWindow \<Rightarrow> time \<Rightarrow> time result" where
  "GetStartingDateOfPreviousScheduledRun W b current =
     (let fmt = FormatRFC822 W;
          nextRun = bw_parsed b current;
          possibleNextRunNow = current - second;
          nextRun' = (if fmt (bw_parsed b possibleNextRunNow) \<noteq> fmt nextRun
                      then bw_parsed b possibleNextRunNow else nextRun)
      in prevSearch (bw_parsed b) fmt nextRun' current 0)"

definition IsInWindowNow :: "window_lib \<Rightarrow> BackupWindow \<Rightarrow> time \<Rightarrow> bool result" where
  "IsInWindowNow W b current =
     (case GetStartingDateOfPreviousScheduledRun W b current of
        Inl err \<Rightarrow> Inl err
      | Inr startDate \<Rightarrow>
          (let endDate = time_add startDate (bw_parsedDuration b)
           in Inr (startDate < current \<and> current < endDate)))"

definition IsInPreviousWindowTimeSlot :: "window_lib \<Rightarrow> BackupWindow \<Rightarrow> time \<Rightarrow> time \<Rightarrow> bool result" where
  "IsInPreviousWindowTimeSlot W b now latestVersionCreation =
     (case GetStartingDateOfPreviousScheduledRun W b now of
        Inl err \<Rightarrow> Inl err
      | Inr previousRun \<Rightarrow>
          (let endDate = time_add previousRun (bw_parsedDuration b)
           in Inr (previousRun < latestVersionCreation \<and> latestVersionCreation < endDate)))"

section \<open>What the code relies on\<close>

text \<open>
  \<open>cron_ok nxt runs\<close>: \<open>nxt\<close> is the \<open>Next\<close> of a five-field schedule whose activations are
  \<open>runs\<close>; they are whole minutes and \<open>nxt t\<close> is the first one after \<open>t\<close>. \<open>rfc822_ok fmt lo hi\<close>:
  between \<open>lo\<close> and \<open>hi\<close> (RFC 822 prints two digits of the year) two instants are printed alike
  exactly when they lie in the same minute.
\<close>

definition cron_ok :: "(time \<Rightarrow> time) \<Rightarrow> time set \<Rightarrow> bool" where
  "cron_ok nxt runs \<longleftrightarrow>
     (\<forall>t. nxt t \<in> runs \<and> t < nxt t \<and> (\<forall>r \<in> runs. t < r \<longrightarrow> nxt t \<le> r))
   \<and> (\<forall>r \<in> runs. r mod minute = 0)"

definition rfc822_ok :: "(time \<Rightarrow> string) \<Rightarrow> time \<Rightarrow> time \<Rightarrow> bool" where
  "rfc822_ok fmt lo hi \<longleftrightarrow>
     (\<forall>a b. lo \<le> a \<and> a \<le> hi \<and> lo \<le> b \<and> b \<le> hi \<longrightarrow>
        (fmt a = fmt b \<longleftrightarrow> a div minute = b div minute))"

text \<open>\<open>last_before runs n p\<close>: \<open>p\<close> is the last activation before \<open>n\<close>.\<close>

definition last_before :: "time set \<Rightarrow> time \<Rightarrow> time \<Rightarrow> bool" where
  "last_before runs n p \<longleftrightarrow> p \<in> runs \<and> p < n \<and> (\<forall>r \<in> runs. r < n \<longrightarrow> r \<le> p)"

lemma cron_okD:
  assumes "cron_ok nxt runs"
  shows "nxt t \<in> runs" "t < nxt t" "r \<in> runs \<Longrightarrow> t < r \<Longrightarrow> nxt t \<le> r" "r \<in> runs \<Longrightarrow> r mod minute = 0"
  using assms by (auto simp: cron_ok_def)

lemma minute_pos [simp]: "0 < minute" by (simp add: go_defs)

lemma whole_minute_div:
  "a mod minute = 0 \<Longrightarrow> b mod minute = 0 \<Longrightarrow> a div minute = b div minute \<longleftrightarrow> a = b"
  by (metis add.right_neutral div_mult_mod_eq)

lemma whole_minute_gap:
  assumes "a mod minute = 0" "b mod minute = 0" "a < b"
  shows "a + minute \<le> b"
proof -
  have a: "a = a div minute * minute" and b: "b = b div minute * minute"
    using assms(1,2) div_mult_mod_eq [of a minute] div_mult_mod_eq [of b minute] by simp_all
  have "a div minute < b div minute"
    using assms(3) a b mult_less_cancel_right_pos [OF minute_pos] by metis
  then have "(a div minute + 1) * minute \<le> b div minute * minute"
    by (intro mult_right_mono) (auto simp: go_defs)
  with a b show ?thesis by (simp add: algebra_simps)
qed

lemma runs_same_format:
  assumes "cron_ok nxt runs" "rfc822_ok fmt lo hi" "a \<in> runs" "b \<in> runs"
    and "lo \<le> a" "a \<le> hi" "lo \<le> b" "b \<le> hi"
  shows "fmt a = fmt b \<longleftrightarrow> a = b"
  using assms cron_okD(4) [OF assms(1)] whole_minute_div by (simp add: rfc822_ok_def)

text \<open>The three ways a round of the loop ends.\<close>

lemma prevSearch_hit:
  "fmt (nxt (start - minute)) \<noteq> fmt n \<Longrightarrow> prevSearch nxt fmt n start retries = Inr (nxt (start - minute))"
  by (subst prevSearch.simps) (simp add: Let_def)

lemma prevSearch_give_up:
  "fmt (nxt (start - minute)) = fmt n \<Longrightarrow> retries + 1 > max_retries \<Longrightarrow>
     prevSearch nxt fmt n start retries = Inl ''cannot find a previous date in the backup window''"
  by (subst prevSearch.simps) (simp add: Let_def)

lemma prevSearch_next:
  "fmt (nxt (start - minute)) = fmt n \<Longrightarrow> retries + 1 \<le> max_retries \<Longrightarrow>
     prevSearch nxt fmt n start retries = prevSearch nxt fmt n (start - minute) (retries + 1)"
  by (subst prevSearch.simps) (simp add: Let_def)

text \<open>
  Where no activation lies between \<open>start\<close> and \<open>n\<close>, the next activation after \<open>start - minute\<close>
  is \<open>n\<close> or the last one before \<open>n\<close>.
\<close>

lemma prev_minute_last_before:
  assumes cron: "cron_ok nxt runs" and n: "n \<in> runs" "start - minute < n"
    and none: "\<And>r. r \<in> runs \<Longrightarrow> start < r \<Longrightarrow> r < n \<Longrightarrow> False"
    and neq: "nxt (start - minute) \<noteq> n"
  shows "last_before runs n (nxt (start - minute))"
proof -
  let ?p = "nxt (start - minute)"
  have p: "?p \<in> runs" "start - minute < ?p" "?p < n"
    using cron_okD(1-3) [OF cron] n neq by (auto simp: order_less_le)
  have "r \<le> ?p" if "r \<in> runs" "r < n" for r
  proof (rule ccontr)
    assume "\<not> r \<le> ?p"
    then have "?p + minute \<le> r"
      using whole_minute_gap cron_okD(4) [OF cron] that(1) p(1) by simp
    then show False using none [OF that(1) _ that(2)] p(2) by simp
  qed
  with p show ?thesis by (simp add: last_before_def)
qed

text \<open>How far back the loop looks from a position with a given number of retries behind it.\<close>

definition horizon :: "time \<Rightarrow> nat \<Rightarrow> time" where
  "horizon start retries = start - int (Suc max_retries - retries) * minute"

lemma horizon_step:
  "retries \<le> max_retries \<Longrightarrow> horizon (start - minute) (Suc retries) = horizon start retries"
  by (simp add: horizon_def algebra_simps of_nat_diff)

lemma horizon_le: "retries \<le> max_retries \<Longrightarrow> horizon start retries \<le> start - minute"
proof -
  assume "retries \<le> max_retries"
  then have "1 * minute \<le> int (Suc max_retries - retries) * minute"
    by (intro mult_right_mono) (auto simp: go_defs)
  then show ?thesis by (simp add: horizon_def)
qed

lemma horizon_last: "horizon start max_retries = start - minute"
  by (simp add: horizon_def)

text \<open>
  The loop, started where no activation lies between its position and \<open>n\<close>, returns the last
  activation before \<open>n\<close> if that lies after the horizon, and an error otherwise.
\<close>

definition search_result :: "time set \<Rightarrow> time \<Rightarrow> time \<Rightarrow> time result \<Rightarrow> bool" where
  "search_result runs n h res \<longleftrightarrow>
     (\<exists>p. res = Inr p \<and> last_before runs n p \<and> h < p)
   \<or> (res = Inl ''cannot find a previous date in the backup window'' \<and> (\<forall>r \<in> runs. r < n \<longrightarrow> r \<le> h))"

lemma prevSearch_correct:
  assumes cron: "cron_ok nxt runs" and fmt: "rfc822_ok fmt lo n" and n: "n \<in> runs"
    and "retries \<le> max_retries" "lo \<le> horizon start retries" "start - minute < n"
    and "\<And>r. r \<in> runs \<Longrightarrow> start < r \<Longrightarrow> r < n \<Longrightarrow> False"
  shows "search_result runs n (horizon start retries) (prevSearch nxt fmt n start retries)"
  using assms(4-7)
proof (induction "max_retries - retries" arbitrary: start retries rule: less_induct)
  case less
  let ?q = "nxt (start - minute)"
  have q: "?q \<in> runs" "start - minute < ?q" "?q \<le> n" using cron_okD(1-3) [OF cron] n less.prems(3) by auto
  note h = horizon_le [OF less.prems(1), of start]
  have feq: "fmt ?q = fmt n \<longleftrightarrow> ?q = n"
    using runs_same_format [OF cron fmt q(1) n] q h less.prems(2) by simp
  have none: False if "?q = n" "r \<in> runs" "start - minute < r" "r < n" for r
    using cron_okD(3) [OF cron that(2,3)] that(1,4) by simp
  consider "?q \<noteq> n" | "?q = n" "retries = max_retries" | "?q = n" "retries + 1 \<le> max_retries"
    using less.prems(1) by linarith
  then show ?case
  proof cases
    case 1
    then have "last_before runs n ?q"
      using prev_minute_last_before [OF cron n less.prems(3)] less.prems(4) by blast
    with 1 feq q(2) h show ?thesis by (auto simp: prevSearch_hit search_result_def)
  next
    case 2
    with feq none show ?thesis
      by (force simp: prevSearch_give_up search_result_def horizon_last)
  next
    case 3
    have two: "start - minute - minute < n" using less.prems(3) minute_pos by linarith
    have "search_result runs n (horizon (start - minute) (retries + 1))
        (prevSearch nxt fmt n (start - minute) (retries + 1))"
      by (rule less.hyps) (use 3 none less.prems two in \<open>auto simp: horizon_step\<close>)
    with 3 feq less.prems(1) show ?thesis by (simp add: prevSearch_next horizon_step)
  qed
qed

lemma second_minute: "0 < second" "second < minute" by (simp_all add: go_defs)

lemma rfc822_ok_mono: "rfc822_ok fmt lo hi \<Longrightarrow> hi' \<le> hi \<Longrightarrow> rfc822_ok fmt lo hi'"
  by (auto simp: rfc822_ok_def)

lemma previous_run_search:
  assumes cron: "cron_ok (bw_parsed b) runs"
    and fmt: "rfc822_ok (FormatRFC822 W) (horizon current 0) (bw_parsed b current)"
  shows "search_result runs (bw_parsed b (current - second)) (horizon current 0)
    (GetStartingDateOfPreviousScheduledRun W b current)"
proof -
  let ?n = "bw_parsed b (current - second)" and ?m = "bw_parsed b current"
  have n: "?n \<in> runs" "current - second < ?n" and m: "?m \<in> runs" "current < ?m"
    using cron_okD(1,2) [OF cron] by auto
  have le: "?n \<le> ?m" using cron_okD(3) [OF cron m(1)] m(2) second_minute by simp
  have h: "horizon current 0 \<le> ?n"
    using horizon_le [of 0 current] n(2) second_minute by simp
  have "FormatRFC822 W ?n = FormatRFC822 W ?m \<longleftrightarrow> ?n = ?m"
    using runs_same_format [OF cron fmt n(1) m(1)] le h by simp
  then have next_run: "(if FormatRFC822 W ?n \<noteq> FormatRFC822 W ?m then ?n else ?m) = ?n" by simp
  have none: False if "r \<in> runs" "current < r" "r < ?n" for r
    using cron_okD(3) [OF cron that(1), of "current - second"] that second_minute by simp
  have "search_result runs ?n (horizon current 0)
      (prevSearch (bw_parsed b) (FormatRFC822 W) ?n current 0)"
    by (rule prevSearch_correct [OF cron rfc822_ok_mono [OF fmt le] n(1)])
      (use n second_minute none in auto)
  then show ?thesis
    unfolding GetStartingDateOfPreviousScheduledRun_def Let_def next_run .
qed

lemma last_before_unique: "last_before runs n p \<Longrightarrow> last_before runs n q \<Longrightarrow> p = q"
  by (meson last_before_def order_antisym)

text \<open>The window that an answer is about opened at the last activation before the run that is due.\<close>

lemma window_answer:
  assumes "cron_ok (bw_parsed b) runs"
    and "rfc822_ok (FormatRFC822 W) (current - 518401 * minute) (bw_parsed b current)"
  shows "(\<exists>q. last_before runs (bw_parsed b (current - second)) q \<and> current - 518401 * minute < q
      \<and> IsInWindowNow W b current = Inr (q < current \<and> current < time_add q (bw_parsedDuration b)))
    \<or> IsInWindowNow W b current = Inl ''cannot find a previous date in the backup window''
      \<and> (\<forall>r \<in> runs. r < bw_parsed b (current - second) \<longrightarrow> r \<le> current - 518401 * minute)"
proof -
  have h: "horizon current 0 = current - 518401 * minute" by (simp add: horizon_def max_retries_def)
  have "search_result runs (bw_parsed b (current - second)) (current - 518401 * minute)
      (GetStartingDateOfPreviousScheduledRun W b current)"
    using previous_run_search [of b runs W current] assms unfolding h by blast
  then show ?thesis by (auto simp: search_result_def IsInWindowNow_def Let_def)
qed

lemma answered_for:
  assumes "cron_ok (bw_parsed b) runs"
    and "rfc822_ok (FormatRFC822 W) (current - 518401 * minute) (bw_parsed b current)"
    and "last_before runs (bw_parsed b (current - second)) q" and "q < current"
  shows "IsInWindowNow W b current =
    (if current - 518401 * minute < q then Inr (current < time_add q (bw_parsedDuration b))
     else Inl ''cannot find a previous date in the backup window'')"
  using window_answer [OF assms(1,2)]
proof (elim disjE exE conjE)
  fix p assume "last_before runs (bw_parsed b (current - second)) p"
  with last_before_unique [OF assms(3)] have "p = q" by simp
  moreover assume "current - 518401 * minute < p"
    "IsInWindowNow W b current = Inr (p < current \<and> current < time_add p (bw_parsedDuration b))"
  ultimately show ?thesis using assms(4) by simp
qed (use assms(3) in \<open>auto simp: last_before_def\<close>)

lemma due_after_activation:
  assumes "cron_ok (bw_parsed b) runs" "p \<in> runs" "p \<le> current - second" "\<forall>r \<in> runs. r \<le> current \<longrightarrow> r \<le> p"
  shows "last_before runs (bw_parsed b (current - second)) p"
proof -
  let ?n = "bw_parsed b (current - second)"
  have n: "?n \<in> runs" "current - second < ?n" using cron_okD(1,2) [OF assms(1)] by auto
  have "r \<le> p" if "r \<in> runs" "r < ?n" for r
  proof -
    have "\<not> current - second < r" using cron_okD(3) [OF assms(1) that(1)] that(2) by force
    then have "r \<le> current" using second_minute by simp
    with assms(4) that(1) show ?thesis by blast
  qed
  with assms(2,3) n show ?thesis by (simp add: last_before_def)
qed

lemma due_at_activation:
  assumes "cron_ok (bw_parsed b) runs" "p \<in> runs" "p \<le> current" "current - second < p"
  shows "bw_parsed b (current - second) = p"
proof -
  have n: "bw_parsed b (current - second) \<in> runs" "bw_parsed b (current - second) \<le> p"
    "current - second < bw_parsed b (current - second)"
    using cron_okD [OF assms(1)] assms(2,4) by auto
  have "p - minute < bw_parsed b (current - second)" using n(3) assms(3) second_minute by simp
  then show ?thesis
    using n whole_minute_gap cron_okD(4) [OF assms(1)] assms(2)
    by (metis diff_add_cancel diff_less_eq linorder_not_less order_le_less)
qed

section \<open>Properties\<close>

text \<open>
  C23. The previous run. The search returns the last activation before the run that is now due
  or next (the first activation later than one second ago), whenever one lies within the
  518401 minutes (60*24*30*12 + 1) it looks back; otherwise it ends with an error. It always
  ends.
\<close>

theorem previous_run_correct:
  assumes "cron_ok (bw_parsed b) runs"
    and "rfc822_ok (FormatRFC822 W) (current - 518401 * minute) (bw_parsed b current)"
  shows "(\<exists>p. GetStartingDateOfPreviousScheduledRun W b current = Inr p
            \<and> last_before runs (bw_parsed b (current - second)) p \<and> current - 518401 * minute < p)
     \<or> (GetStartingDateOfPreviousScheduledRun W b current
            = Inl ''cannot find a previous date in the backup window''
         \<and> (\<forall>r \<in> runs. r < bw_parsed b (current - second) \<longrightarrow> r \<le> current - 518401 * minute))"
proof -
  have "horizon current 0 = current - 518401 * minute" by (simp add: horizon_def max_retries_def)
  then show ?thesis using previous_run_search [of b runs W current] assms by (auto simp: search_result_def)
qed

text \<open>An hourly schedule and a formatter that prints the minute.\<close>

definition hour :: int where "hour = 60 * minute"

definition hourly :: "duration \<Rightarrow> BackupWindow" where
  "hourly d = \<lparr>bw_From = ''0 * * * *'', bw_Duration = ''5m'',
     bw_parsed = (\<lambda>t. (t div hour + 1) * hour), bw_parsedDuration = d\<rparr>"

definition minute_lib :: window_lib where
  "minute_lib = \<lparr>cron_Parse = (\<lambda>_. Inr (bw_parsed (hourly 0))), ParseDuration = (\<lambda>_. Inr 0),
     FormatRFC822 = (\<lambda>t. itoa (t div minute))\<rparr>"

lemma hour_next: "t < (t div hour + 1) * hour"
proof -
  have "t mod hour < hour" by (simp add: hour_def go_defs)
  then show ?thesis using div_mult_mod_eq [of t hour] unfolding distrib_right by linarith
qed

lemma hour_least:
  assumes "r mod hour = 0" "t < r"
  shows "(t div hour + 1) * hour \<le> r"
proof -
  have r: "r = r div hour * hour" using assms(1) div_mult_mod_eq [of r hour] by simp
  have "t div hour < r div hour"
  proof (rule ccontr)
    assume "\<not> t div hour < r div hour"
    then have "r div hour * hour \<le> t div hour * hour"
      by (intro mult_right_mono) (auto simp: hour_def go_defs)
    moreover have "t div hour * hour \<le> t"
      using div_mult_mod_eq [of t hour] pos_mod_sign [of hour t] by (simp add: hour_def go_defs)
    ultimately show False using r assms(2) by simp
  qed
  then have "(t div hour + 1) * hour \<le> r div hour * hour"
    by (intro mult_right_mono) (auto simp: hour_def go_defs)
  with r show ?thesis by simp
qed

lemma hourly_cron_ok: "cron_ok (bw_parsed (hourly d)) {r. r mod hour = 0}"
proof -
  have "r mod minute = 0" if "r mod hour = 0" for r
    using that by (metis hour_def mod_mod_cancel dvd_triv_right mod_0)
  then show ?thesis by (simp add: cron_ok_def hourly_def hour_next hour_least)
qed

lemma minute_lib_ok: "rfc822_ok (FormatRFC822 minute_lib) lo hi"
  by (simp add: rfc822_ok_def minute_lib_def)

theorem previous_run_correct_witness:
  "(\<exists>p. GetStartingDateOfPreviousScheduledRun minute_lib (hourly 0) (5 * hour + 7 * minute) = Inr p
        \<and> last_before {r. r mod hour = 0} (6 * hour) p)"
proof -
  let ?t = "5 * hour + 7 * minute"
  have nx: "bw_parsed (hourly 0) (?t - second) = 6 * hour"
    by (simp add: hourly_def hour_def go_defs)
  have "\<exists>r. r mod hour = 0 \<and> r < 6 * hour \<and> ?t - 518401 * minute < r"
    by (rule exI [of _ "5 * hour"]) (simp add: hour_def go_defs)
  with previous_run_correct [OF hourly_cron_ok minute_lib_ok, of 0 ?t] show ?thesis
    unfolding nx by force
qed

text \<open>
  C22. Inside the window. Let \<open>p\<close> be the last activation that is not after the instant. Once a
  second has passed since \<open>p\<close>, \<open>IsInWindowNow\<close> answers whether the instant lies before the end of
  the window that \<open>p\<close> opened. During the first second after \<open>p\<close> it answers for another window: the
  search takes \<open>p\<close> for the run that comes, so the answer is whether the window of the activation
  before \<open>p\<close> still lasts, and the first second of a window is refused when windows do not overlap.
  In both cases the answer is an error when the activation in question lies 518401 minutes back or
  more, or when there is none.
\<close>

theorem IsInWindowNow_correct:
  assumes "cron_ok (bw_parsed b) runs"
    and "rfc822_ok (FormatRFC822 W) (current - 518401 * minute) (bw_parsed b current)"
    and "p \<in> runs" and "p \<le> current" and "\<forall>r \<in> runs. r \<le> current \<longrightarrow> r \<le> p"
  shows "(p \<le> current - second \<longrightarrow> IsInWindowNow W b current =
      (if current - 518401 * minute < p then Inr (current < time_add p (bw_parsedDuration b))
       else Inl ''cannot find a previous date in the backup window''))
    \<and> (current - second < p \<longrightarrow>
         (\<forall>q. last_before runs p q \<longrightarrow> IsInWindowNow W b current =
            (if current - 518401 * minute < q then Inr (current < time_add q (bw_parsedDuration b))
             else Inl ''cannot find a previous date in the backup window''))
       \<and> ((\<forall>r \<in> runs. p \<le> r) \<longrightarrow>
            IsInWindowNow W b current = Inl ''cannot find a previous date in the backup window''))"
proof (intro conjI impI allI)
  assume late: "p \<le> current - second"
  have "last_before runs (bw_parsed b (current - second)) p"
    by (rule due_after_activation [OF assms(1,3) late assms(5)])
  with assms(1,2,4) late second_minute show "IsInWindowNow W b current =
      (if current - 518401 * minute < p then Inr (current < time_add p (bw_parsedDuration b))
       else Inl ''cannot find a previous date in the backup window'')"
    by (simp add: answered_for)
next
  assume "current - second < p"
  then have due: "bw_parsed b (current - second) = p" by (rule due_at_activation [OF assms(1,3,4)])
  show "IsInWindowNow W b current =
      (if current - 518401 * minute < q then Inr (current < time_add q (bw_parsedDuration b))
       else Inl ''cannot find a previous date in the backup window'')" if q: "last_before runs p q" for q
  proof -
    have "q < current" using q assms(4) by (simp add: last_before_def)
    with answered_for [OF assms(1,2)] q due show ?thesis by simp
  qed
  show "IsInWindowNow W b current = Inl ''cannot find a previous date in the backup window''" if "\<forall>r \<in> runs. p \<le> r"
    using window_answer [OF assms(1,2)] due that by (auto simp: last_before_def)
qed

theorem IsInWindowNow_correct_witness:
  "IsInWindowNow minute_lib (hourly (of_int (5 * minute))) (5 * hour) = Inr False
   \<and> IsInWindowNow minute_lib (hourly (of_int (5 * minute))) (5 * hour + 4 * minute) = Inr True
   \<and> IsInWindowNow minute_lib (hourly (of_int (5 * minute))) (5 * hour + 7 * minute) = Inr False"
proof -
  let ?W = "hourly (of_int (5 * minute))"
  have last: "\<forall>r \<in> {r. r mod hour = 0}. r \<le> 5 * hour + k * minute \<longrightarrow> r \<le> 5 * hour"
    if "k < 60" for k
    using hour_least [of _ "5 * hour"] that by (force simp: hour_def go_defs)
  have dur: "sint (of_int (5 * minute) :: duration) = 5 * minute" by (simp add: go_defs)
  have before: "last_before {r. r mod hour = 0} (5 * hour) (4 * hour)"
    using hour_least [of _ "4 * hour"] by (force simp: last_before_def hour_def go_defs)
  note answers = IsInWindowNow_correct [OF hourly_cron_ok minute_lib_ok _ _ last, of _ "of_int (5 * minute)"]
  have later: "IsInWindowNow minute_lib ?W (5 * hour + k * minute)
      = Inr (5 * hour + k * minute < time_add (5 * hour) (bw_parsedDuration ?W))" if "1 \<le> k" "k < 60" for k
    using answers [of k] that by (simp add: hour_def go_defs)
  have first: "IsInWindowNow minute_lib ?W (5 * hour) = Inr (5 * hour < time_add (4 * hour) (bw_parsedDuration ?W))"
    using answers [of 0] before by (simp add: hour_def go_defs)
  show ?thesis
    using first later [of 4] later [of 7] dur by (simp add: hourly_def time_add_def hour_def go_defs)
qed

end
