(* ===== verification/Config.thy ===== *)
theory Config
  imports Go_Strings
begin

text \<open>
  \<open>pkg/config\<close>: where users, collections and secrets come from. The interface
  \<open>ConfigurationProvider\<close> is the record of its methods over an arbitrary outside world \<open>'w\<close>
  and the documents \<open>'d\<close> it stores; the local filesystem (\<open>filesystem.go\<close>) and Kubernetes
  (\<open>kubernetes.go\<close>) implement it.

  The operating system, the YAML and JSON codecs and the Kubernetes API client are parameters
  (\<open>os_files\<close>, \<open>doc_codec\<close>, \<open>k8s_client\<close>). \<open>Wrap\<close> is \<open>errors.Wrap\<close> of
  \<open>github.com/pkg/errors\<close>: it prefixes a message to an error and returns nil for a nil error.
\<close>

section \<open>The interface\<close>

record ('w, 'd) ConfigurationProvider =
  cp_GetSingleDocument :: "string \<Rightarrow> string \<Rightarrow> 'w \<Rightarrow> string result"
  cp_GetSingleDocumentAnyType :: "string \<Rightarrow> string \<Rightarrow> string \<Rightarrow> string \<Rightarrow> 'w \<Rightarrow> string result"
  cp_StoreDocument :: "string \<Rightarrow> 'd \<Rightarrow> 'w \<Rightarrow> error option \<times> 'w"
  cp_GetHealth :: "'w \<Rightarrow> error option \<times> 'w"

record ObjectMetadata =
  om_Name :: string

definition errWrap :: "string \<Rightarrow> error \<Rightarrow> error" where
  "errWrap msg e = msg @ '': '' @ e"

definition Wrap :: "error option \<Rightarrow> string \<Rightarrow> error option" where
  "Wrap err msg = map_option (errWrap msg) err"

section \<open>The local filesystem\<close>

datatype stat_result = StatOk | StatNotExist error | StatError error

record 'w os_files =
  os_Stat :: "string \<Rightarrow> 'w \<Rightarrow> stat_result"
  os_ReadFile :: "string \<Rightarrow> 'w \<Rightarrow> bytes result"
  os_WriteFile :: "string \<Rightarrow> bytes \<Rightarrow> 'w \<Rightarrow> error option \<times> 'w"
  os_Remove :: "string \<Rightarrow> 'w \<Rightarrow> 'w"

record 'v doc_codec =
  yaml_Unmarshal :: "bytes \<Rightarrow> 'v result"
  json_Marshal :: "'v \<Rightarrow> string result"

record ConfigurationInLocalFilesystem =
  lf_path :: string
  lf_namespace :: string
  lf_apiGroup :: string
  lf_apiVersion :: string

definition NewConfigurationInLocalFilesystemProvider ::
    "string \<Rightarrow> string \<Rightarrow> ConfigurationInLocalFilesystem" where
  "NewConfigurationInLocalFilesystemProvider path namespace =
     \<lparr>lf_path = path, lf_namespace = namespace,
      lf_apiGroup = ''backups.riotkit.org'', lf_apiVersion = ''v1alpha1''\<rparr>"

definition buildPath ::
    "ConfigurationInLocalFilesystem \<Rightarrow> string \<Rightarrow> string \<Rightarrow> string \<Rightarrow> string \<Rightarrow> string" where
  "buildPath fs kind i apiGroup apiVersion =
     replaceAll (lf_path fs @ ''/'' @ lf_namespace fs @ ''/'' @ apiGroup @ ''/'' @ apiVersion
       @ ''/'' @ kind @ ''/'' @ i @ ''.yaml'') (CHR ''/'') ''/'' ''/''"

definition recodeFromYamlToJson :: "'v doc_codec \<Rightarrow> bytes \<Rightarrow> string result" where
  "recodeFromYamlToJson C yamlDoc =
     (case yaml_Unmarshal C yamlDoc of
        Inl err \<Rightarrow> Inl (errWrap ''Cannot recode from YAML to JSON'' err)
      | Inr raw \<Rightarrow>
          (case json_Marshal C raw of
             Inl err \<Rightarrow> Inl (errWrap ''Cannot recode from YAML to JSON'' err)
           | Inr jsonDoc \<Rightarrow> Inr jsonDoc))"

text \<open>Only the error "does not exist" of \<open>os.Stat\<close> is looked at; any other one is ignored.\<close>

definition fs_GetSingleDocumentAnyType ::
    "'w os_files \<Rightarrow> 'v doc_codec \<Rightarrow> ConfigurationInLocalFilesystem \<Rightarrow>
     string \<Rightarrow> string \<Rightarrow> string \<Rightarrow> string \<Rightarrow> 'w \<Rightarrow> string result" where
  "fs_GetSingleDocumentAnyType F C fs kind i apiGroup apiVersion w =
     (let filePath = buildPath fs kind i apiGroup apiVersion in
      case os_Stat F filePath w of
        StatNotExist err \<Rightarrow> Inl (errWrap ''Object not found'' err)
      | _ \<Rightarrow>
          (case os_ReadFile F filePath w of
             Inl err \<Rightarrow> Inl (errWrap (''Cannot read object from filesystem storage at path '' @ quoted filePath) err)
           | Inr content \<Rightarrow>
               (case recodeFromYamlToJson C content of
                  Inl err \<Rightarrow> Inl (errWrap (''Cannot parse object from filesystem storage at path '' @ quoted filePath) err)
                | Inr recode \<Rightarrow> Inr recode)))"

definition fs_GetSingleDocument ::
    "'w os_files \<Rightarrow> 'v doc_codec \<Rightarrow> ConfigurationInLocalFilesystem \<Rightarrow>
     string \<Rightarrow> string \<Rightarrow> 'w \<Rightarrow> string result" where
  "fs_GetSingleDocument F C fs kind i w =
     fs_GetSingleDocumentAnyType F C fs kind i (lf_apiGroup fs) (lf_apiVersion fs) w"

definition fs_StoreDocument :: "string \<Rightarrow> 'd \<Rightarrow> 'w \<Rightarrow> error option \<times> 'w" where
  "fs_StoreDocument kind document w = (Some ''not implemented'', w)"

text \<open>
  The health check writes a probe file, reads it back and removes it on every way out. The
  message of the mismatch wraps the error of the read, which is nil there.
\<close>

definition fs_GetHealth ::
    "'w os_files \<Rightarrow> time \<Rightarrow> ConfigurationInLocalFilesystem \<Rightarrow> 'w \<Rightarrow> error option \<times> 'w" where
  "fs_GetHealth F now fs w =
     (let fileName = lf_path fs @ ''/.health-'' @ itoa now in
      case os_WriteFile F fileName fileName w of
        (Some err, w1) \<Rightarrow> (Wrap (Some err) ''The filesystem is not writeable'', os_Remove F fileName w1)
      | (None, w1) \<Rightarrow>
          (case os_ReadFile F fileName w1 of
             Inl err \<Rightarrow> (Wrap (Some err) ''Cannot read file that was written to the filesystem'',
                         os_Remove F fileName w1)
           | Inr content \<Rightarrow>
               (if content \<noteq> fileName
                then (Wrap None ''Filesystem consistency error, read data does not match wrote data'',
                      os_Remove F fileName w1)
                else (None, os_Remove F fileName w1))))"

definition filesystem_provider ::
    "'w os_files \<Rightarrow> 'v doc_codec \<Rightarrow> time \<Rightarrow> ConfigurationInLocalFilesystem \<Rightarrow> ('w, 'd) ConfigurationProvider" where
  "filesystem_provider F C now fs = \<lparr>
     cp_GetSingleDocument = fs_GetSingleDocument F C fs,
     cp_GetSingleDocumentAnyType = fs_GetSingleDocumentAnyType F C fs,
     cp_StoreDocument = fs_StoreDocument,
     cp_GetHealth = fs_GetHealth F now fs\<rparr>"

section \<open>Kubernetes\<close>

record GroupVersionResource =
  gvr_Group :: string
  gvr_Version :: string
  gvr_Resource :: string

text \<open>
  The API client: listing, reading and creating the objects \<open>'o\<close> of a resource in a namespace,
  and the helpers that turn objects into JSON, documents into objects, resources into text.
\<close>

record ('w, 'd, 'o) k8s_client =
  k8s_List :: "GroupVersionResource \<Rightarrow> string \<Rightarrow> 'w \<Rightarrow> 'o list result"
  k8s_Get :: "GroupVersionResource \<Rightarrow> string \<Rightarrow> string \<Rightarrow> 'w \<Rightarrow> 'o result"
  k8s_Create :: "GroupVersionResource \<Rightarrow> string \<Rightarrow> 'o \<Rightarrow> 'w \<Rightarrow> error option \<times> 'w"
  k8s_MarshalJSON :: "'o \<Rightarrow> string result"
  structs_Map :: "'d \<Rightarrow> 'o"
  gvr_String :: "GroupVersionResource \<Rightarrow> string"

record ('w, 'd, 'o) ConfigurationInKubernetes =
  k_api :: "('w, 'd, 'o) k8s_client"
  k_namespace :: string
  k_apiGroup :: string
  k_apiVersion :: string

fun list_all_resources ::
    "('w, 'd, 'o) ConfigurationInKubernetes \<Rightarrow> GroupVersionResource list \<Rightarrow> 'w \<Rightarrow> error option" where
  "list_all_resources k [] w = None"
| "list_all_resources k (resource # rs) w =
     (case k8s_List (k_api k) resource (k_namespace k) w of
        Inl err \<Rightarrow> Wrap (Some err)
          (''cannot access Kubrenetes resources: '' @ quoted (gvr_String (k_api k) resource))
      | Inr _ \<Rightarrow> list_all_resources k rs w)"

definition k8s_GetHealth :: "('w, 'd, 'o) ConfigurationInKubernetes \<Rightarrow> 'w \<Rightarrow> error option \<times> 'w" where
  "k8s_GetHealth k w =
     (list_all_resources k
        [\<lparr>gvr_Group = k_apiGroup k, gvr_Version = k_apiVersion k, gvr_Resource = ''backupusers''\<rparr>,
         \<lparr>gvr_Group = k_apiGroup k, gvr_Version = k_apiVersion k, gvr_Resource = ''backupcollections''\<rparr>] w,
      w)"

definition k8s_GetSingleDocumentAnyType ::
    "('w, 'd, 'o) ConfigurationInKubernetes \<Rightarrow> string \<Rightarrow> string \<Rightarrow> string \<Rightarrow> string \<Rightarrow> 'w \<Rightarrow> string result" where
  "k8s_GetSingleDocumentAnyType k kind i apiGroup apiVersion w =
     (let resource = \<lparr>gvr_Group = apiGroup, gvr_Version = apiVersion, gvr_Resource = kind\<rparr> in
      case k8s_Get (k_api k) resource (k_namespace k) i w of
        Inl err \<Rightarrow> Inl err
      | Inr object \<Rightarrow> k8s_MarshalJSON (k_api k) object)"

definition k8s_GetSingleDocument ::
    "('w, 'd, 'o) ConfigurationInKubernetes \<Rightarrow> string \<Rightarrow> string \<Rightarrow> 'w \<Rightarrow> string result" where
  "k8s_GetSingleDocument k kind i w =
     k8s_GetSingleDocumentAnyType k kind i (k_apiGroup k) (k_apiVersion k) w"

definition k8s_StoreDocument ::
    "('w, 'd, 'o) ConfigurationInKubernetes \<Rightarrow> string \<Rightarrow> 'd \<Rightarrow> 'w \<Rightarrow> error option \<times> 'w" where
  "k8s_StoreDocument k kind document w =
     k8s_Create (k_api k)
       \<lparr>gvr_Group = k_apiGroup k, gvr_Version = k_apiVersion k, gvr_Resource = kind\<rparr>
       (k_namespace k) (structs_Map (k_api k) document) w"

definition CreateKubernetesConfigurationProvider ::
    "('w, 'd, 'o) k8s_client \<Rightarrow> string \<Rightarrow> ('w, 'd, 'o) ConfigurationInKubernetes" where
  "CreateKubernetesConfigurationProvider api namespace =
     \<lparr>k_api = api, k_namespace = namespace,
      k_apiGroup = ''backups.riotkit.org'', k_apiVersion = ''v1alpha1''\<rparr>"

definition kubernetes_provider ::
    "('w, 'd, 'o) ConfigurationInKubernetes \<Rightarrow> ('w, 'd) ConfigurationProvider" where
  "kubernetes_provider k = \<lparr>
     cp_GetSingleDocument = k8s_GetSingleDocument k,
     cp_GetSingleDocumentAnyType = k8s_GetSingleDocumentAnyType k,
     cp_StoreDocument = k8s_StoreDocument k,
     cp_GetHealth = k8s_GetHealth k\<rparr>"

section \<open>The factory (action.go)\<close>

definition CreateConfigurationProvider ::
    "'w os_files \<Rightarrow> 'v doc_codec \<Rightarrow> ('w, 'd, 'o) k8s_client \<Rightarrow> time \<Rightarrow>
     string \<Rightarrow> string \<Rightarrow> string \<Rightarrow> ('w, 'd) ConfigurationProvider result" where
  "CreateConfigurationProvider F C api now providerName namespace localPath =
     (if providerName = ''kubernetes''
      then Inr (kubernetes_provider (CreateKubernetesConfigurationProvider api namespace))
      else if providerName = ''filesystem''
      then Inr (filesystem_provider F C now (NewConfigurationInLocalFilesystemProvider localPath namespace))
      else Inl (''Invalid configuration provider name '' @ quoted providerName))"

section \<open>The contract of a provider\<close>

text \<open>
  Both providers serve the same documents: \<open>GetSingleDocument\<close> is the general lookup with the
  API group and version of the repository's own resources.
\<close>

locale config_provider =
  fixes P :: "('w, 'd) ConfigurationProvider"
  assumes own_group: "cp_GetSingleDocument P kind i w
    = cp_GetSingleDocumentAnyType P kind i ''backups.riotkit.org'' ''v1alpha1'' w"
begin

lemma document_found_iff:
  "is_Ok (cp_GetSingleDocument P kind i w) \<longleftrightarrow>
     is_Ok (cp_GetSingleDocumentAnyType P kind i ''backups.riotkit.org'' ''v1alpha1'' w)"
  by (simp add: own_group)

end

interpretation fs_provider:
  config_provider "filesystem_provider F C now (NewConfigurationInLocalFilesystemProvider path ns)"
  for F C now path ns
  by unfold_locales
    (simp add: filesystem_provider_def fs_GetSingleDocument_def
      NewConfigurationInLocalFilesystemProvider_def)

interpretation k8s_provider:
  config_provider "kubernetes_provider (CreateKubernetesConfigurationProvider api ns)"
  for api ns
  by unfold_locales
    (simp add: kubernetes_provider_def k8s_GetSingleDocument_def
      CreateKubernetesConfigurationProvider_def)

lemma created_provider:
  "CreateConfigurationProvider F C api now name ns path = Inr P \<Longrightarrow> config_provider P"
  using fs_provider.config_provider_axioms k8s_provider.config_provider_axioms
  by (auto simp: CreateConfigurationProvider_def split: if_splits)

section \<open>Paths\<close>

lemma slash_split:
  assumes "CHR ''/'' \<notin> set b" "CHR ''/'' \<notin> set b'" "a @ CHR ''/'' # b = a' @ CHR ''/'' # b'"
  shows "a = a' \<and> b = b'"
  using assms by (auto simp: append_eq_append_conv2 Cons_eq_append_conv append_eq_Cons_conv)

lemma no_double_slash_Cons:
  assumes "CHR ''/'' \<notin> set a" "a \<noteq> []" "\<not> sublist ''//'' t" "t \<noteq> []" "hd t \<noteq> CHR ''/''"
  shows "\<not> sublist ''//'' (a @ CHR ''/'' # t)" "hd (a @ CHR ''/'' # t) \<noteq> CHR ''/''"
proof
  assume "sublist ''//'' (a @ CHR ''/'' # t)"
  then obtain p q where eq: "a @ CHR ''/'' # t = p @ CHR ''/'' # CHR ''/'' # q" by (auto simp: sublist_def)
  from eq consider "p = a" "t = CHR ''/'' # q" | us where "t = us @ CHR ''/'' # CHR ''/'' # q"
    using assms(1) by (auto simp: append_eq_append_conv2 Cons_eq_append_conv append_eq_Cons_conv)
  then show False using assms(3,5) by cases (auto simp: sublist_def)
qed (use assms(1,2) in \<open>cases a; auto\<close>)

text \<open>The part of a path before the API version; an empty API group leaves no directory.\<close>

definition path_base :: "ConfigurationInLocalFilesystem \<Rightarrow> string \<Rightarrow> string" where
  "path_base fs g =
     (let s = lf_path fs @ ''/'' @ lf_namespace fs @ ''/'' in
      if g = '''' then replaceAll (s @ ''/'') (CHR ''/'') ''/'' ''/'' else replaceAll s (CHR ''/'') ''/'' ''/'' @ g @ ''/'')"

lemma buildPath_parts:
  assumes "CHR ''/'' \<notin> set g" "v \<noteq> []" "CHR ''/'' \<notin> set v" "kind \<noteq> []" "CHR ''/'' \<notin> set kind" "CHR ''/'' \<notin> set i"
  shows "buildPath fs kind i g v = path_base fs g @ v @ ''/'' @ kind @ ''/'' @ i @ ''.yaml''"
proof -
  let ?s = "lf_path fs @ ''/'' @ lf_namespace fs @ ''/''"
  let ?i = "i @ ''.yaml''" and ?k = "kind @ CHR ''/'' # (i @ ''.yaml'')"
  let ?t = "v @ CHR ''/'' # (kind @ CHR ''/'' # (i @ ''.yaml''))"
  have plain: "\<not> sublist ''//'' x" if "CHR ''/'' \<notin> set x" for x
    using that by (auto simp: sublist_def)
  have i: "hd ?i \<noteq> CHR ''/''" "?i \<noteq> []" "\<not> sublist ''//'' ?i"
    using assms(6) by (cases i; simp) (auto intro!: plain simp: assms)
  have k: "\<not> sublist ''//'' ?k" "hd ?k \<noteq> CHR ''/''" using no_double_slash_Cons [OF assms(5,4) i(3,2,1)] by simp_all
  have t: "\<not> sublist ''//'' ?t" "hd ?t \<noteq> CHR ''/''" using no_double_slash_Cons [OF assms(3,2) k(1) _ k(2)] by simp_all
  show ?thesis
  proof (cases "g = ''''")
    case True
    then show ?thesis
      using replaceAll_append [where t = ?t and c = "CHR ''/''" and s = "?s @ ''/''" and new = "''/''"] t
      by (simp add: buildPath_def path_base_def)
  next
    case False
    have "\<not> sublist ''//'' (g @ CHR ''/'' # ?t)" "hd (g @ CHR ''/'' # ?t) \<noteq> CHR ''/''"
      using no_double_slash_Cons [OF assms(1) False t(1) _ t(2)] by simp_all
    with False show ?thesis
      using replaceAll_append [where t = "g @ CHR ''/'' # ?t" and c = "CHR ''/''" and s = ?s and new = "''/''"]
      by (simp add: buildPath_def path_base_def)
  qed
qed

lemma path_base_slash: "\<exists>q. path_base fs g = q @ ''/''"
  using replaceAll_snoc [of "lf_path fs @ ''/'' @ lf_namespace fs @ ''/''" "CHR ''/''" "CHR ''/''"]
  by (auto simp: path_base_def Let_def)

lemma path_base_inj: "path_base fs g = path_base fs g' \<longleftrightarrow> g = g'"
proof -
  have "path_base fs '''' \<noteq> path_base fs h" if "h \<noteq> ''''" for h
  proof
    let ?s = "lf_path fs @ ''/'' @ lf_namespace fs @ ''/''"
    assume "path_base fs '''' = path_base fs h"
    then have "length (replaceAll (?s @ ''/'') (CHR ''/'') ''/'' ''/'') = length (replaceAll ?s (CHR ''/'') ''/'' ''/'') + length h + 1"
      using that by (simp add: path_base_def Let_def)
    moreover have "length (replaceAll (?s @ ''/'') (CHR ''/'') ''/'' ''/'') \<le> Suc (length (replaceAll ?s (CHR ''/'') ''/'' ''/''))"
      using replaceAll_snoc by blast
    ultimately show False using that by simp
  qed
  moreover have "path_base fs g = path_base fs g' \<Longrightarrow> g \<noteq> '''' \<Longrightarrow> g' \<noteq> '''' \<Longrightarrow> g = g'"
    by (simp add: path_base_def Let_def)
  ultimately show ?thesis by metis
qed

section \<open>Properties\<close>

text \<open>
  C29. Different documents are different files. For one provider, a document is named by its
  kind, its name, its API group and its API version. When none of these contains a slash, and
  only the group (as for secrets) and the name may be empty, two documents have the same path
  only if all four agree: collapsing doubled slashes merges no two such documents. (With an
  empty version it would: the group \<open>v1\<close> without a version is the version \<open>v1\<close> without a group.)
\<close>

theorem buildPath_inj:
  assumes "CHR ''/'' \<notin> set (g @ v @ kind @ i)" and "CHR ''/'' \<notin> set (g' @ v' @ kind' @ i')"
    and "v \<noteq> ''''" and "v' \<noteq> ''''" and "kind \<noteq> ''''" and "kind' \<noteq> ''''"
  shows "buildPath fs kind i g v = buildPath fs kind' i' g' v' \<longleftrightarrow> kind = kind' \<and> i = i' \<and> g = g' \<and> v = v'"
proof
  obtain q q' where q: "path_base fs g = q @ ''/''" "path_base fs g' = q' @ ''/''" using path_base_slash by metis
  assume "buildPath fs kind i g v = buildPath fs kind' i' g' v'"
  then have "path_base fs g @ v @ ''/'' @ kind @ ''/'' @ i @ ''.yaml'' = path_base fs g' @ v' @ ''/'' @ kind' @ ''/'' @ i' @ ''.yaml''"
    using assms by (simp add: buildPath_parts)
  then have "(((q @ CHR ''/'' # v) @ CHR ''/'' # kind) @ CHR ''/'' # (i @ ''.yaml''))
      = (((q' @ CHR ''/'' # v') @ CHR ''/'' # kind') @ CHR ''/'' # (i' @ ''.yaml''))" by (simp add: q)
  from slash_split [OF _ _ this] assms(1,2)
  have 1: "i = i'" "(q @ CHR ''/'' # v) @ CHR ''/'' # kind = (q' @ CHR ''/'' # v') @ CHR ''/'' # kind'" by auto
  from slash_split [OF _ _ 1(2)] assms(1,2) have 2: "kind = kind'" "q @ CHR ''/'' # v = q' @ CHR ''/'' # v'" by auto
  from slash_split [OF _ _ 2(2)] assms(1,2) have "v = v'" "q = q'" by auto
  moreover have "g = g'" using path_base_inj [of fs g g'] q \<open>q = q'\<close> by simp
  ultimately show "kind = kind' \<and> i = i' \<and> g = g' \<and> v = v'" using 1(1) 2(1) by blast
qed simp

theorem buildPath_inj_witness:
  "buildPath (NewConfigurationInLocalFilesystemProvider ''/etc'' ''backups'') ''secrets'' ''a'' '''' ''v1''
     = ''/etc/backups/v1/secrets/a.yaml''
   \<and> buildPath (NewConfigurationInLocalFilesystemProvider ''/etc'' ''backups'') ''secrets'' ''a'' ''apps'' ''v1''
     \<noteq> buildPath (NewConfigurationInLocalFilesystemProvider ''/etc'' ''backups'') ''secrets'' ''a'' '''' ''v1''"
proof
  show "buildPath (NewConfigurationInLocalFilesystemProvider ''/etc'' ''backups'') ''secrets'' ''a'' '''' ''v1''
     = ''/etc/backups/v1/secrets/a.yaml''" by code_simp
  show "buildPath (NewConfigurationInLocalFilesystemProvider ''/etc'' ''backups'') ''secrets'' ''a'' ''apps'' ''v1''
     \<noteq> buildPath (NewConfigurationInLocalFilesystemProvider ''/etc'' ''backups'') ''secrets'' ''a'' '''' ''v1''"
    by (subst buildPath_inj) simp_all
qed

text \<open>
  The filesystem health check is exactly "the probe file can be written and read". The last
  comparison has no effect: when the file reads back with other content, the error that is
  returned wraps a nil error and is nil, so a corrupting filesystem is reported as healthy. The
  probe file is removed in every case.
\<close>

theorem fs_GetHealth_verdict:
  "(fst (fs_GetHealth F now fs w) = None \<longleftrightarrow>
     (let f = lf_path fs @ ''/.health-'' @ itoa now; (r, w1) = os_WriteFile F f f w
      in r = None \<and> is_Ok (os_ReadFile F f w1)))
   \<and> snd (fs_GetHealth F now fs w) =
     (let f = lf_path fs @ ''/.health-'' @ itoa now in os_Remove F f (snd (os_WriteFile F f f w)))"
  by (auto simp: fs_GetHealth_def Wrap_def Let_def split: prod.splits option.splits sum.splits)

end
