(* ===== verification/Users.thy ===== *)
theory Users
  imports Security_Decision Crypto Config
begin

text \<open>
  Users, their access keys and sessions: \<open>pkg/users\<close>, with \<open>UserIdentity\<close> and
  \<open>PasswordFromSecretRef\<close> of \<open>pkg/security/model.go\<close> and \<open>FillPasswordFromKindSecret\<close> of
  \<open>pkg/security/service.go\<close>.

  The JSON decoding of a user document and \<open>gjson.Get\<close> are parameters (\<open>users_lib\<close>); documents
  and secrets come from a \<open>ConfigurationProvider\<close>. The access keys of a document are pointers,
  so an element of the list may be nil (\<open>None\<close>), and reading it panics.
\<close>

section \<open>Identities (security/model.go)\<close>

record UserIdentity =
  ui_Username :: string
  ui_AccessKeyName :: string

definition NewUserIdentityFromString :: "string \<Rightarrow> UserIdentity" where
  "NewUserIdentityFromString login =
     (if strContains login ''$''
      then let lastIndex = nat (LastIndex login (CHR ''$'')) in
           \<lparr>ui_Username = take lastIndex login, ui_AccessKeyName = drop (lastIndex + 1) login\<rparr>
      else \<lparr>ui_Username = login, ui_AccessKeyName = ''''\<rparr>)"

record PasswordFromSecretRef =
  ref_Name :: string
  ref_Entry :: string

section \<open>Secrets (security/service.go)\<close>

text \<open>
  \<open>gjson.Get(doc, path)\<close> is \<open>None\<close> when the path does not exist; its \<open>String()\<close> is then empty.
\<close>

type_synonym gjson = "string \<Rightarrow> string \<Rightarrow> string option"

definition gjson_String :: "string option \<Rightarrow> string" where
  "gjson_String r = (case r of None \<Rightarrow> '''' | Some s \<Rightarrow> s)"

text \<open>The result \<open>Inr (Some secret)\<close> is a call of the setter with that secret.\<close>

definition FillPasswordFromKindSecret ::
    "('w, 'd) ConfigurationProvider \<Rightarrow> gjson \<Rightarrow> PasswordFromSecretRef \<Rightarrow> 'w \<Rightarrow> string option result" where
  "FillPasswordFromKindSecret r gjsonGet ref w =
     (if ref_Name ref \<noteq> ''''
      then (case cp_GetSingleDocumentAnyType r ''secrets'' (ref_Name ref) '''' ''v1'' w of
              Inl secretErr \<Rightarrow> Inl secretErr
            | Inr secretDoc \<Rightarrow>
                (let secret = gjson_String (gjsonGet secretDoc (''data.'' @ ref_Entry ref)) in
                 if secret = '''' then Inl ''invalid field name in `kind: Secret`''
                 else Inr (Some secret)))
      else Inr None)"

section \<open>The model (users/model.go)\<close>

record AccessKey =
  ak_Name :: string
  ak_Password :: string
  ak_PasswordFromRef :: PasswordFromSecretRef
  ak_Objects :: "AccessControlObject list"

record UserSpec =
  us_Id :: string
  us_Email :: string
  us_Roles :: Roles
  us_Password :: string
  us_PasswordFromRef :: PasswordFromSecretRef
  us_AccessKeys :: "AccessKey option list"

record User =
  u_Metadata :: ObjectMetadata
  u_Spec :: UserSpec
  u_passwordFromSecret :: string

definition User_GetRoles :: "User \<Rightarrow> Roles" where
  "User_GetRoles u = us_Roles (u_Spec u)"

definition getPasswordHash :: "User \<Rightarrow> string" where
  "getPasswordHash u =
     (if u_passwordFromSecret u \<noteq> '''' then u_passwordFromSecret u else us_Password (u_Spec u))"

text \<open>\<open>ComparePassword\<close> returns false together with an error; the error is only logged.\<close>

fun result_or_false :: "bool result \<Rightarrow> bool" where
  "result_or_false (Inl err) = False"
| "result_or_false (Inr b) = b"

definition isPasswordValid :: "argon2_pkg \<Rightarrow> User \<Rightarrow> string \<Rightarrow> bool outcome" where
  "isPasswordValid A u password =
     bind_outcome (ComparePassword A password (getPasswordHash u)) (\<lambda>r. Return (result_or_false r))"

definition CanViewMyProfile :: "User \<Rightarrow> Actor \<Rightarrow> bool" where
  "CanViewMyProfile u actor =
     (if HasRole (act_GetRoles actor) RoleUserManager then True
      else us_Email (u_Spec u) = act_GetEmail actor)"

record SessionAwareUser =
  sau_User :: User
  sau_accessKeysFromSecret :: "AccessKey list"
  sau_currentAccessKey :: "AccessKey option"
  sau_sessionScope :: "SessionLimitedOperationsScope option"

definition NewSessionAwareUser ::
    "User \<Rightarrow> SessionLimitedOperationsScope option \<Rightarrow> SessionAwareUser" where
  "NewSessionAwareUser u scope =
     \<lparr>sau_User = u, sau_accessKeysFromSecret = [], sau_currentAccessKey = None, sau_sessionScope = scope\<rparr>"

fun rolesForSubject :: "AccessControlObject list \<Rightarrow> Subject \<Rightarrow> Roles" where
  "rolesForSubject [] s = []"
| "rolesForSubject (object # os) s =
     (if aco_Type object = sub_GetTypeName s \<and> aco_Name object = sub_GetId s
      then aco_Roles object else rolesForSubject os s)"

definition GetAccessKeyRolesInContextOf :: "SessionAwareUser \<Rightarrow> Subject \<Rightarrow> Roles" where
  "GetAccessKeyRolesInContextOf sau s =
     (case sau_currentAccessKey sau of
        Some key \<Rightarrow> rolesForSubject (ak_Objects key) s
      | None \<Rightarrow> [])"

definition IsInAccessKeyContext :: "SessionAwareUser \<Rightarrow> bool" where
  "IsInAccessKeyContext sau = (sau_currentAccessKey sau \<noteq> None)"

fun keyPasswordValid :: "argon2_pkg \<Rightarrow> AccessKey list \<Rightarrow> string \<Rightarrow> string \<Rightarrow> bool outcome" where
  "keyPasswordValid A [] password name = Return False"
| "keyPasswordValid A (accessKey # keys) password name =
     (if ak_Name accessKey = name
      then bind_outcome (ComparePassword A password (ak_Password accessKey))
             (\<lambda>r. Return (result_or_false r))
      else keyPasswordValid A keys password name)"

definition IsPasswordValid :: "argon2_pkg \<Rightarrow> SessionAwareUser \<Rightarrow> string \<Rightarrow> string \<Rightarrow> bool outcome" where
  "IsPasswordValid A sau password accessKeyName =
     (if accessKeyName \<noteq> ''''
      then keyPasswordValid A (sau_accessKeysFromSecret sau) password accessKeyName
      else isPasswordValid A (sau_User sau) password)"

text \<open>The session user as the \<open>Actor\<close> of a decision: the record of its methods.\<close>

definition sau_Actor :: "SessionAwareUser \<Rightarrow> Actor" where
  "sau_Actor sau = \<lparr>
     act_IsInAccessKeyContext = IsInAccessKeyContext sau,
     act_GetAccessKeyRolesInContextOf = GetAccessKeyRolesInContextOf sau,
     act_GetRoles = User_GetRoles (sau_User sau),
     act_GetEmail = us_Email (u_Spec (sau_User sau)),
     act_GetName = om_Name (u_Metadata (sau_User sau)),
     act_GetTypeName = ''user'',
     act_GetSessionLimitedOperationsScope = sau_sessionScope sau\<rparr>"

section \<open>Repository and service\<close>

record users_lib =
  ul_gjson :: gjson
  ul_UnmarshalUser :: "string \<Rightarrow> User result"

definition KindBackupUser :: string where "KindBackupUser = ''backupusers''"

definition hydrate :: "users_lib \<Rightarrow> ('w, 'd) ConfigurationProvider \<Rightarrow> User \<Rightarrow> 'w \<Rightarrow> User result" where
  "hydrate J r user w =
     (case FillPasswordFromKindSecret r (ul_gjson J) (us_PasswordFromRef (u_Spec user)) w of
        Inl fillErr \<Rightarrow> Inl (errWrap ''cannot fetch password'' fillErr)
      | Inr (Some password) \<Rightarrow> Inr (user\<lparr>u_passwordFromSecret := password\<rparr>)
      | Inr None \<Rightarrow> Inr user)"

definition findUserByLogin ::
    "users_lib \<Rightarrow> ('w, 'd) ConfigurationProvider \<Rightarrow> string \<Rightarrow> 'w \<Rightarrow> User result" where
  "findUserByLogin J r login w =
     (case cp_GetSingleDocument r KindBackupUser login w of
        Inl retrieveErr \<Rightarrow> Inl (''IsError retrieving user: '' @ retrieveErr)
      | Inr doc \<Rightarrow>
          (case ul_UnmarshalUser J doc of
             Inl err \<Rightarrow> Inl err
           | Inr user \<Rightarrow> hydrate J r user w))"

record ('w, 'd) users_Service =
  svc_repository :: "('w, 'd) ConfigurationProvider"
  svc_config :: "('w, 'd) ConfigurationProvider"

definition NewUsersService :: "('w, 'd) ConfigurationProvider \<Rightarrow> ('w, 'd) users_Service" where
  "NewUsersService provider = \<lparr>svc_repository = provider, svc_config = provider\<rparr>"

definition LookupUser ::
    "users_lib \<Rightarrow> ('w, 'd) users_Service \<Rightarrow> UserIdentity \<Rightarrow> 'w \<Rightarrow> User result" where
  "LookupUser J a identity w = findUserByLogin J (svc_repository a) (ui_Username identity) w"

text \<open>
  The loop over the access keys of the user: it collects copies with their passwords filled in
  and remembers the last one that has the name the session uses.
\<close>

fun fillKeys ::
    "users_lib \<Rightarrow> ('w, 'd) ConfigurationProvider \<Rightarrow> string \<Rightarrow> 'w \<Rightarrow> AccessKey option list \<Rightarrow>
     AccessKey list \<Rightarrow> AccessKey option \<Rightarrow> (AccessKey list \<times> AccessKey option) result outcome" where
  "fillKeys J cfg used w [] accessKeys current = Return (Inr (accessKeys, current))"
| "fillKeys J cfg used w (None # keys) accessKeys current =
     Panic ''invalid memory address or nil pointer dereference''"
| "fillKeys J cfg used w (Some accessKey # keys) accessKeys current =
     (case (if ak_Password accessKey = '''' \<and> ref_Name (ak_PasswordFromRef accessKey) \<noteq> ''''
            then FillPasswordFromKindSecret cfg (ul_gjson J) (ak_PasswordFromRef accessKey) w
            else Inr None) of
        Inl hashFillErr \<Rightarrow> Return (Inl (errWrap ''cannot fetch access key'' hashFillErr))
      | Inr filled \<Rightarrow>
          (let ak = (case filled of Some password \<Rightarrow> accessKey\<lparr>ak_Password := password\<rparr> | None \<Rightarrow> accessKey) in
           fillKeys J cfg used w keys (accessKeys @ [ak])
             (if ak_Name accessKey = used then Some ak else current)))"

definition fillUpAccessToken ::
    "users_lib \<Rightarrow> ('w, 'd) users_Service \<Rightarrow> SessionAwareUser \<Rightarrow> string \<Rightarrow> 'w \<Rightarrow> SessionAwareUser result outcome" where
  "fillUpAccessToken J a saUser used w =
     bind_outcome (fillKeys J (svc_config a) used w (us_AccessKeys (u_Spec (sau_User saUser))) [] None)
       (\<lambda>r. case r of
          Inl err \<Rightarrow> Return (Inl err)
        | Inr (accessKeys, current) \<Rightarrow>
            Return (Inr (saUser\<lparr>sau_accessKeysFromSecret := accessKeys, sau_currentAccessKey := current\<rparr>)))"

definition LookupSessionUser ::
    "users_lib \<Rightarrow> ('w, 'd) users_Service \<Rightarrow> UserIdentity \<Rightarrow> SessionLimitedOperationsScope option \<Rightarrow> 'w \<Rightarrow>
     SessionAwareUser result outcome" where
  "LookupSessionUser J a identity scope w =
     (case findUserByLogin J (svc_repository a) (ui_Username identity) w of
        Inl findErr \<Rightarrow> Return (Inl (errWrap ''LookupSessionUser error, cannot find user'' findErr))
      | Inr user \<Rightarrow>
          bind_outcome (fillUpAccessToken J a (NewSessionAwareUser user scope) (ui_AccessKeyName identity) w)
            (\<lambda>r. case r of
               Inl err \<Rightarrow> Return (Inl (errWrap ''LookupSessionUser error'' err))
             | Inr saUser \<Rightarrow> Return (Inr saUser)))"

section \<open>Lemmas\<close>

interpretation sau: session_actor sau_Actor
  by unfold_locales (auto simp: sau_Actor_def IsInAccessKeyContext_def GetAccessKeyRolesInContextOf_def)


text \<open>A copy of a key differs from the key of the document in its password only.\<close>

definition key_copy :: "AccessKey \<Rightarrow> AccessKey \<Rightarrow> bool" where
  "key_copy accessKey ak \<longleftrightarrow> ak = accessKey\<lparr>ak_Password := ak_Password ak\<rparr>
     \<and> (ak_Password accessKey \<noteq> '''' \<longrightarrow> ak_Password ak = ak_Password accessKey)"

lemma key_copy_simps:
  assumes "key_copy accessKey ak"
  shows "ak_Name ak = ak_Name accessKey" "ak_Objects ak = ak_Objects accessKey"
  using assms by (auto simp: key_copy_def) (metis AccessKey.select_convs AccessKey.surjective AccessKey.update_convs)+

text \<open>What the loop returns: copies of all keys in order, and the last one of the used name.\<close>

lemma fillKeys_result:
  assumes "fillKeys J cfg used w keys acc cur = Return (Inr (aks, current))"
  shows "\<exists>ks copies. keys = map Some ks \<and> aks = acc @ copies \<and> list_all2 key_copy ks copies
     \<and> current = (case rev (filter (\<lambda>k. ak_Name k = used) copies) of [] \<Rightarrow> cur | k # _ \<Rightarrow> Some k)"
  using assms
proof (induction J cfg used w keys acc cur rule: fillKeys.induct)
  case (3 J cfg used w accessKey keys acc cur)
  let ?fill = "if ak_Password accessKey = '''' \<and> ref_Name (ak_PasswordFromRef accessKey) \<noteq> ''''
            then FillPasswordFromKindSecret cfg (ul_gjson J) (ak_PasswordFromRef accessKey) w
            else Inr None"
  from "3.prems" obtain filled where f: "?fill = Inr filled" by (cases ?fill) auto
  define ak where "ak = (case filled of Some password \<Rightarrow> accessKey\<lparr>ak_Password := password\<rparr> | None \<Rightarrow> accessKey)"
  have copy: "key_copy accessKey ak"
    using f by (auto simp: key_copy_def ak_def split: option.splits if_splits)
  have "fillKeys J cfg used w keys (acc @ [ak])
      (if ak_Name accessKey = used then Some ak else cur) = Return (Inr (aks, current))"
    using "3.prems" unfolding fillKeys.simps f ak_def Let_def sum.case .
  from "3.IH" [OF f ak_def this] obtain ks copies where
    "keys = map Some ks" "aks = acc @ ak # copies" "list_all2 key_copy ks copies"
    "current = (case rev (filter (\<lambda>k. ak_Name k = used) copies) of
       [] \<Rightarrow> if ak_Name accessKey = used then Some ak else cur | k # _ \<Rightarrow> Some k)"
    by auto
  then show ?case
    using copy key_copy_simps(1) [OF copy]
    by (intro exI [of _ "accessKey # ks"] exI [of _ "ak # copies"]) (auto split: list.splits)
qed auto

lemma LookupSessionUser_result:
  assumes "LookupSessionUser J a identity scope w = Return (Inr saUser)"
  obtains ks copies where
    "findUserByLogin J (svc_repository a) (ui_Username identity) w = Inr (sau_User saUser)"
    "us_AccessKeys (u_Spec (sau_User saUser)) = map Some ks"
    "sau_accessKeysFromSecret saUser = copies" "list_all2 key_copy ks copies"
    "sau_currentAccessKey saUser =
       (case rev (filter (\<lambda>k. ak_Name k = ui_AccessKeyName identity) copies) of [] \<Rightarrow> None | k # _ \<Rightarrow> Some k)"
    "sau_sessionScope saUser = scope"
proof -
  from assms obtain user accessKeys current where
    find: "findUserByLogin J (svc_repository a) (ui_Username identity) w = Inr user"
    and fill: "fillKeys J (svc_config a) (ui_AccessKeyName identity) w
      (us_AccessKeys (u_Spec user)) [] None = Return (Inr (accessKeys, current))"
    and sau: "saUser = (NewSessionAwareUser user scope)\<lparr>sau_accessKeysFromSecret := accessKeys,
      sau_currentAccessKey := current\<rparr>"
    by (auto simp: LookupSessionUser_def fillUpAccessToken_def NewSessionAwareUser_def
        elim!: bind_outcomeE split: sum.split_asm prod.split_asm)
  from fillKeys_result [OF fill] find sau that show thesis
    by (auto simp: NewSessionAwareUser_def)
qed

lemma session_has_key:
  assumes "LookupSessionUser J a identity scope w = Return (Inr saUser)"
    and "Some k \<in> set (us_AccessKeys (u_Spec (sau_User saUser)))" "ak_Name k = ui_AccessKeyName identity"
  obtains k' where "Some k' \<in> set (us_AccessKeys (u_Spec (sau_User saUser)))"
    "ak_Name k' = ui_AccessKeyName identity" "IsInAccessKeyContext saUser"
    "GetAccessKeyRolesInContextOf saUser = rolesForSubject (ak_Objects k')"
proof -
  from LookupSessionUser_result [OF assms(1)] obtain ks copies where
    ks: "us_AccessKeys (u_Spec (sau_User saUser)) = map Some ks" "list_all2 key_copy ks copies"
    and cur: "sau_currentAccessKey saUser =
       (case rev (filter (\<lambda>k. ak_Name k = ui_AccessKeyName identity) copies) of [] \<Rightarrow> None | k # _ \<Rightarrow> Some k)"
    by metis
  from assms(2,3) ks obtain c where "c \<in> set copies" "ak_Name c = ui_AccessKeyName identity"
    using list_all2_left [OF ks(2)] key_copy_simps(1) by fastforce
  then obtain c' where c': "c' \<in> set copies" "ak_Name c' = ui_AccessKeyName identity"
    "sau_currentAccessKey saUser = Some c'"
    using last_match [where P = "\<lambda>k. ak_Name k = ui_AccessKeyName identity" and d = None] cur by metis
  from list_all2_right [OF ks(2) c'(1)] obtain k' where "k' \<in> set ks" "key_copy k' c'" by blast
  with c' ks(1) key_copy_simps [OF \<open>key_copy k' c'\<close>] show thesis
    by (intro that [of k']) (auto simp: IsInAccessKeyContext_def GetAccessKeyRolesInContextOf_def fun_eq_iff)
qed

lemma session_without_key:
  assumes "LookupSessionUser J a identity scope w = Return (Inr saUser)"
    and "\<forall>k. Some k \<in> set (us_AccessKeys (u_Spec (sau_User saUser))) \<longrightarrow> ak_Name k \<noteq> ui_AccessKeyName identity"
  shows "sau_currentAccessKey saUser = None"
proof -
  from LookupSessionUser_result [OF assms(1)] obtain ks copies where
    ks: "us_AccessKeys (u_Spec (sau_User saUser)) = map Some ks" "list_all2 key_copy ks copies"
    and cur: "sau_currentAccessKey saUser =
       (case rev (filter (\<lambda>k. ak_Name k = ui_AccessKeyName identity) copies) of [] \<Rightarrow> None | k # _ \<Rightarrow> Some k)"
    by metis
  have "ak_Name c \<noteq> ui_AccessKeyName identity" if c: "c \<in> set copies" for c
  proof -
    from list_all2_right [OF ks(2) c] obtain k where "k \<in> set ks" "key_copy k c" by blast
    with assms(2) ks(1) key_copy_simps(1) show ?thesis by auto
  qed
  then have "filter (\<lambda>k. ak_Name k = ui_AccessKeyName identity) copies = []"
    by (simp add: filter_empty_conv)
  with cur show ?thesis by simp
qed

lemma keyPasswordValid_skip:
  "(\<And>k. k \<in> set pre \<Longrightarrow> ak_Name k \<noteq> name) \<Longrightarrow>
     keyPasswordValid A (pre @ keys) password name = keyPasswordValid A keys password name"
  by (induction pre) auto

text \<open>A password stored in the document is the one that is compared, key by key.\<close>

lemma key_password_compared:
  assumes "LookupSessionUser J a identity scope w = Return (Inr saUser)"
    and keys: "us_AccessKeys (u_Spec (sau_User saUser)) = pre @ Some k # post"
    and k: "ak_Name k = name" "ak_Password k \<noteq> ''''" and first: "\<forall>k'. Some k' \<in> set pre \<longrightarrow> ak_Name k' \<noteq> name"
  shows "keyPasswordValid A (sau_accessKeysFromSecret saUser) password name
     = bind_outcome (ComparePassword A password (ak_Password k)) (\<lambda>r. Return (result_or_false r))"
proof -
  from LookupSessionUser_result [OF assms(1)] obtain ks where
    ks: "us_AccessKeys (u_Spec (sau_User saUser)) = map Some ks"
      "list_all2 key_copy ks (sau_accessKeysFromSecret saUser)"
    by metis
  from keys ks(1) obtain ks1 ks2 where split: "ks = ks1 @ k # ks2" "pre = map Some ks1"
    by (auto simp: map_eq_append_conv map_eq_Cons_conv)
  from ks(2) obtain c1 c c2 where copies: "sau_accessKeysFromSecret saUser = c1 @ c # c2"
    "list_all2 key_copy ks1 c1" "key_copy k c"
    unfolding split by (auto simp: list_all2_append1 list_all2_Cons1)
  have "ak_Name x \<noteq> name" if "x \<in> set c1" for x
    using list_all2_right [OF copies(2) that] first split(2) key_copy_simps(1) by fastforce
  with copies k key_copy_simps(1) [OF copies(3)] show ?thesis
    by (simp add: keyPasswordValid_skip key_copy_def)
qed

section \<open>Properties\<close>

text \<open>
  C27. Logins and identities. A login \<open>user$key\<close> is cut at its last dollar sign: for every key
  name without a dollar sign the two parts are found again, whatever the user name is; every
  login is the concatenation of its parts; and a login without a dollar sign has no access key.
\<close>

theorem identity_roundtrip:
  "NewUserIdentityFromString login = \<lparr>ui_Username = u, ui_AccessKeyName = k\<rparr> \<longleftrightarrow>
     (login = u @ ''$'' @ k \<and> CHR ''$'' \<notin> set k) \<or> (login = u \<and> CHR ''$'' \<notin> set u \<and> k = [])"
proof (cases "CHR ''$'' \<in> set login")
  case True
  then obtain p q where pq: "login = p @ CHR ''$'' # q" "CHR ''$'' \<notin> set q" by (rule LastIndex_decomp)
  have "NewUserIdentityFromString login = \<lparr>ui_Username = p, ui_AccessKeyName = q\<rparr>"
    using True LastIndex_append [OF pq(2), of p] pq(1)
    by (simp add: NewUserIdentityFromString_def)
  moreover have "p @ CHR ''$'' # q = u @ CHR ''$'' # k \<Longrightarrow> CHR ''$'' \<notin> set k \<Longrightarrow> p = u \<and> q = k"
    using LastIndex_append [OF pq(2), of p] LastIndex_append [of "CHR ''$''" k u] by auto
  ultimately show ?thesis using pq True by auto
next
  case False
  then show ?thesis by (auto simp: NewUserIdentityFromString_def)
qed

text \<open>
  C9. A session opened through an access key is confined by it. If the user of the session has
  an access key of the name the session uses, every decision in favour of the session on a
  subject is covered by the roles that an access key of that name grants on that subject, and
  the user could do the same without the access key.
\<close>

theorem access_key_session_confined:
  assumes "LookupSessionUser J a identity scope w = Return (Inr saUser)"
    and "Some k \<in> set (us_AccessKeys (u_Spec (sau_User saUser)))" "ak_Name k = ui_AccessKeyName identity"
    and "DecideCanDo \<lparr>dr_Actor = sau_Actor saUser, dr_Subject = Some s, dr_Action = action\<rparr>"
  shows "\<exists>k'. Some k' \<in> set (us_AccessKeys (u_Spec (sau_User saUser)))
       \<and> ak_Name k' = ui_AccessKeyName identity
       \<and> CanThoseRolesPerformAction (rolesForSubject (ak_Objects k') s) action
       \<and> DecideCanDo \<lparr>dr_Actor = sau_Actor (saUser\<lparr>sau_currentAccessKey := None\<rparr>),
            dr_Subject = Some s, dr_Action = action\<rparr>"
proof -
  from session_has_key [OF assms(1-3)] obtain k' where k':
    "Some k' \<in> set (us_AccessKeys (u_Spec (sau_User saUser)))" "ak_Name k' = ui_AccessKeyName identity"
    "IsInAccessKeyContext saUser" "GetAccessKeyRolesInContextOf saUser = rolesForSubject (ak_Objects k')" .
  have "CanThoseRolesPerformAction (rolesForSubject (ak_Objects k') s) action"
    using sau.key_confines [OF assms(4)] k'(3,4) by (simp add: sau_Actor_def)
  moreover have "DecideCanDo \<lparr>dr_Actor = sau_Actor (saUser\<lparr>sau_currentAccessKey := None\<rparr>),
            dr_Subject = Some s, dr_Action = action\<rparr>"
    using assms(4) by (auto simp: decision_simps sau_Actor_def IsInAccessKeyContext_def split: if_splits)
  ultimately show ?thesis using k'(1,2) by blast
qed

text \<open>A user with one access key, served by a provider that has this one document.\<close>

definition toy_key :: "string \<Rightarrow> AccessKey" where
  "toy_key hash = \<lparr>ak_Name = ''uploader'', ak_Password = hash,
     ak_PasswordFromRef = \<lparr>ref_Name = '''', ref_Entry = ''''\<rparr>,
     ak_Objects = [\<lparr>aco_Name = ''iwa'', aco_Type = ''collection'', aco_Roles = [RoleBackupUploader]\<rparr>]\<rparr>"

definition toy_user :: "AccessKey option list \<Rightarrow> string \<Rightarrow> User" where
  "toy_user keys hash = \<lparr>u_Metadata = \<lparr>om_Name = ''admin''\<rparr>,
     u_Spec = \<lparr>us_Id = ''1'', us_Email = ''admin@localhost'', us_Roles = [RoleCollectionManager],
       us_Password = hash, us_PasswordFromRef = \<lparr>ref_Name = '''', ref_Entry = ''''\<rparr>, us_AccessKeys = keys\<rparr>,
     u_passwordFromSecret = ''''\<rparr>"

definition toy_lib :: "User \<Rightarrow> users_lib" where
  "toy_lib u = \<lparr>ul_gjson = (\<lambda>_ _. None), ul_UnmarshalUser = (\<lambda>_. Inr u)\<rparr>"

definition toy_provider :: "('w, unit) ConfigurationProvider" where
  "toy_provider = \<lparr>cp_GetSingleDocument = (\<lambda>_ _ _. Inr ''{}''),
     cp_GetSingleDocumentAnyType = (\<lambda>_ _ _ _ _. Inr ''{}''),
     cp_StoreDocument = (\<lambda>_ _ w. (None, w)), cp_GetHealth = (\<lambda>w. (None, w))\<rparr>"

lemmas toy_defs = toy_key_def toy_user_def toy_lib_def toy_provider_def

lemmas lookup_defs = LookupSessionUser_def findUserByLogin_def hydrate_def FillPasswordFromKindSecret_def
  NewUsersService_def fillUpAccessToken_def NewSessionAwareUser_def Let_def

definition toy_session :: SessionAwareUser where
  "toy_session = \<lparr>sau_User = toy_user [Some (toy_key ''h'')] ''m'', sau_accessKeysFromSecret = [toy_key ''h''],
     sau_currentAccessKey = Some (toy_key ''h''), sau_sessionScope = None\<rparr>"

lemma toy_session_lookup:
  "LookupSessionUser (toy_lib (toy_user [Some (toy_key ''h'')] ''m'')) (NewUsersService toy_provider)
     \<lparr>ui_Username = ''admin'', ui_AccessKeyName = ''uploader''\<rparr> None () = Return (Inr toy_session)"
  by (simp add: lookup_defs toy_defs toy_session_def)

theorem access_key_session_confined_witness:
  "DecideCanDo \<lparr>dr_Actor = sau_Actor toy_session, dr_Subject = Some (named_subject ''iwa''),
      dr_Action = ActionUpload\<rparr>
   \<and> (\<exists>k'. Some k' \<in> set (us_AccessKeys (u_Spec (sau_User toy_session)))
       \<and> ak_Name k' = ''uploader''
       \<and> CanThoseRolesPerformAction (rolesForSubject (ak_Objects k') (named_subject ''iwa'')) ActionUpload)"
proof -
  have may: "DecideCanDo \<lparr>dr_Actor = sau_Actor toy_session, dr_Subject = Some (named_subject ''iwa''),
      dr_Action = ActionUpload\<rparr>"
    using uploads_examples
    by (simp add: decision_simps sau_Actor_def toy_session_def toy_defs User_GetRoles_def
        GetAccessKeyRolesInContextOf_def)
  show ?thesis
    using may access_key_session_confined [OF toy_session_lookup _ _ may, of "toy_key ''h''"]
    by (simp add: toy_session_def toy_user_def toy_key_def)
qed

text \<open>
  C35. A session whose access key was removed from the user is no longer confined. When the user
  has no access key of the name in the session, the lookup succeeds without an access key, and
  a session without an operations scope has all rights of the user on every subject.
\<close>

theorem removed_access_key_unconfines:
  assumes "LookupSessionUser J a identity scope w = Return (Inr saUser)"
    and "\<forall>k. Some k \<in> set (us_AccessKeys (u_Spec (sau_User saUser))) \<longrightarrow> ak_Name k \<noteq> ui_AccessKeyName identity"
    and "scope = None \<or> (\<exists>sc. scope = Some sc \<and> Elements sc = [])"
  shows "DecideCanDo \<lparr>dr_Actor = sau_Actor saUser, dr_Subject = Some s, dr_Action = action\<rparr> \<longleftrightarrow>
     IsPermitted (sub_GetAccessControlList s) (om_Name (u_Metadata (sau_User saUser))) ''user'' action
   \<or> CanThoseRolesPerformAction (us_Roles (u_Spec (sau_User saUser))) action"
proof -
  have "sau_sessionScope saUser = scope" using LookupSessionUser_result [OF assms(1)] by metis
  then show ?thesis
    using sau.unrestricted_decision [of saUser s action] session_without_key [OF assms(1,2)] assms(3)
    by (simp add: sau_Actor_def IsInAccessKeyContext_def User_GetRoles_def)
qed

theorem removed_access_key_unconfines_witness:
  "\<exists>saUser. LookupSessionUser (toy_lib (toy_user [] ''m'')) (NewUsersService toy_provider)
       \<lparr>ui_Username = ''admin'', ui_AccessKeyName = ''uploader''\<rparr> None () = Return (Inr saUser)
     \<and> DecideCanDo \<lparr>dr_Actor = sau_Actor saUser, dr_Subject = Some (named_subject ''other''),
          dr_Action = ActionUpload\<rparr>"
proof -
  let ?s = "NewSessionAwareUser (toy_user [] ''m'') None"
  have l: "LookupSessionUser (toy_lib (toy_user [] ''m'')) (NewUsersService toy_provider)
       \<lparr>ui_Username = ''admin'', ui_AccessKeyName = ''uploader''\<rparr> None () = Return (Inr ?s)"
    by (simp add: lookup_defs toy_defs)
  have "DecideCanDo \<lparr>dr_Actor = sau_Actor ?s, dr_Subject = Some (named_subject ''other''),
          dr_Action = ActionUpload\<rparr>"
    using removed_access_key_unconfines [OF l, of "named_subject ''other''" ActionUpload] uploads_examples
    by (simp add: NewSessionAwareUser_def toy_user_def)
  with l show ?thesis by blast
qed

text \<open>
  C26. Passwords at login. When the hash that \<open>CreateHashFromPassword\<close> made of a password is
  stored in the first access key of the requested name (or, without a key name, as the user's
  own hash), the password check never panics and accepts exactly the passwords with the same
  argon2 key; in particular it accepts the original one.
\<close>

theorem login_accepts_created_password:
  assumes "argon2_ok A" and "CreateHashFromPassword A (Inr salt) pw = Return (Inr h)"
    and "LookupSessionUser J a identity scope w = Return (Inr saUser)"
    and "if name \<noteq> ''''
         then us_AccessKeys (u_Spec (sau_User saUser)) = pre @ Some k # post \<and> ak_Name k = name
           \<and> ak_Password k = h \<and> (\<forall>k'. Some k' \<in> set pre \<longrightarrow> ak_Name k' \<noteq> name)
         else getPasswordHash (sau_User saUser) = h"
  shows "IsPasswordValid A saUser pw' name =
     Return (IDKey A pw' salt 1 65536 4 32 = IDKey A pw salt 1 65536 4 32)"
proof -
  have h: "h \<noteq> ''''" "ComparePassword A pw' h =
      Return (Inr (IDKey A pw' salt 1 65536 4 32 = IDKey A pw salt 1 65536 4 32))"
    using created_hash_compare [OF assms(1), of salt pw] assms(2) by auto
  show ?thesis
  proof (cases "name = ''''")
    case True
    with assms(4) h show ?thesis by (simp add: IsPasswordValid_def isPasswordValid_def)
  next
    case False
    with assms(4) h key_password_compared [OF assms(3), of pre k post name A pw'] show ?thesis
      by (simp add: IsPasswordValid_def)
  qed
qed

theorem login_accepts_created_password_witness:
  "\<exists>h saUser. CreateHashFromPassword toy_argon2 (Inr ''salt'') ''riotkit'' = Return (Inr h)
     \<and> LookupSessionUser (toy_lib (toy_user [Some (toy_key h)] ''m'')) (NewUsersService toy_provider)
         \<lparr>ui_Username = ''admin'', ui_AccessKeyName = ''uploader''\<rparr> None () = Return (Inr saUser)
     \<and> IsPasswordValid toy_argon2 saUser ''riotkit'' ''uploader'' = Return True
     \<and> IsPasswordValid toy_argon2 saUser ''guess'' ''uploader'' = Return False"
proof -
  obtain h where h: "CreateHashFromPassword toy_argon2 (Inr ''salt'') ''riotkit'' = Return (Inr h)" "h \<noteq> []"
    using created_hash_compare [OF toy_argon2_ok] by blast
  let ?u = "toy_user [Some (toy_key h)] ''m''"
  let ?s = "\<lparr>sau_User = ?u, sau_accessKeysFromSecret = [toy_key h],
     sau_currentAccessKey = Some (toy_key h), sau_sessionScope = None\<rparr>"
  have l: "LookupSessionUser (toy_lib ?u) (NewUsersService toy_provider)
         \<lparr>ui_Username = ''admin'', ui_AccessKeyName = ''uploader''\<rparr> None () = Return (Inr ?s)"
    by (simp add: lookup_defs toy_defs)
  have "IsPasswordValid toy_argon2 ?s pw' ''uploader'' =
     Return (IDKey toy_argon2 pw' ''salt'' 1 65536 4 32 = IDKey toy_argon2 ''riotkit'' ''salt'' 1 65536 4 32)" for pw'
    by (rule login_accepts_created_password [OF toy_argon2_ok h(1) l, where pre = "[]" and post = "[]" and k = "toy_key h"])
      (simp add: toy_user_def toy_key_def)
  from this [of "''riotkit''"] this [of "''guess''"] h(1) l show ?thesis
    by (auto simp: toy_argon2_def)
qed

end
