(* ===== verification/Granted_Access.thy ===== *)
theory Granted_Access
  imports Users
begin

text \<open>
  Sessions: \<open>GrantedAccess\<close> of \<open>pkg/security/model.go\<close>, the repository
  (\<open>pkg/security/repository.go\<close>) and the service (\<open>pkg/security/service.go\<close>) that store, check
  and revoke issued tokens, and the reading of claims from a token.

  The statements that gorm sends to the database are the fields of the parameter \<open>ga_sql\<close> over
  an arbitrary world; \<open>sessions_ok\<close> states what the code relies on of them. \<open>gjson.Get\<close> and the
  JSON decoding of a scope are parameters. The current time is an argument.
\<close>

section \<open>The model (security/model.go)\<close>

record GrantedAccess =
  ga_CreatedAt :: time
  ga_UpdatedAt :: time
  ga_DeletedAt :: "time option"
  ga_ID :: string
  ga_ExpiresAt :: time
  ga_Deactivated :: bool
  ga_Description :: string
  ga_RequesterIP :: string
  ga_User :: string
  ga_AccessKeyName :: string

text \<open>The name says the opposite of what it answers: whether the session has expired.\<close>

definition IsNotExpired :: "time \<Rightarrow> GrantedAccess \<Rightarrow> bool" where
  "IsNotExpired now ga = (ga_ExpiresAt ga < now)"

definition ga_IsValid :: "time \<Rightarrow> GrantedAccess \<Rightarrow> bool" where
  "ga_IsValid now ga =
     (if ga_Deactivated ga then False
      else if ga_DeletedAt ga \<noteq> None then False
      else if IsNotExpired now ga then False
      else True)"

definition NewGrantedAccess ::
    "string \<Rightarrow> time \<Rightarrow> bool \<Rightarrow> string \<Rightarrow> string \<Rightarrow> string \<Rightarrow> string \<Rightarrow> GrantedAccess" where
  "NewGrantedAccess jwt expiresAt deactivated description requesterIP username accessKeyName = \<lparr>
     ga_CreatedAt = zero_time, ga_UpdatedAt = zero_time, ga_DeletedAt = None,
     ga_ID = HashJWT jwt, ga_ExpiresAt = expiresAt, ga_Deactivated = deactivated,
     ga_Description = description, ga_RequesterIP = requesterIP, ga_User = username,
     ga_AccessKeyName = accessKeyName\<rparr>"

section \<open>The repository (security/repository.go)\<close>

text \<open>
  The six statements: insert a row; the first row of an id (an error when there is none); whether
  a row of an id exists; set \<open>deactivated\<close> of an id; the latest 100 rows of a user; at most one
  row of an id (the zero value when there is none).
\<close>

record 'w ga_sql =
  sql_ga_create :: "GrantedAccess \<Rightarrow> 'w \<Rightarrow> error option \<times> 'w"
  sql_ga_first :: "string \<Rightarrow> 'w \<Rightarrow> GrantedAccess result"
  sql_ga_exists :: "string \<Rightarrow> 'w \<Rightarrow> bool result"
  sql_ga_deactivate :: "string \<Rightarrow> 'w \<Rightarrow> error option \<times> 'w"
  sql_ga_of_user :: "string \<Rightarrow> 'w \<Rightarrow> GrantedAccess list"
  sql_ga_find_one :: "string \<Rightarrow> 'w \<Rightarrow> GrantedAccess result"

definition ga_create :: "'w ga_sql \<Rightarrow> GrantedAccess \<Rightarrow> 'w \<Rightarrow> error option \<times> 'w" where
  "ga_create g access w = sql_ga_create g access w"

definition getGrantedAccessByHashedToken :: "'w ga_sql \<Rightarrow> string \<Rightarrow> 'w \<Rightarrow> GrantedAccess result" where
  "getGrantedAccessByHashedToken g hashedToken w =
     (case sql_ga_first g hashedToken w of Inl err \<Rightarrow> Inl err | Inr gaModel \<Rightarrow> Inr gaModel)"

definition checkSessionExistsById :: "'w ga_sql \<Rightarrow> string \<Rightarrow> 'w \<Rightarrow> bool" where
  "checkSessionExistsById g i w = (case sql_ga_exists g i w of Inl err \<Rightarrow> False | Inr exists \<Rightarrow> exists)"

definition revokeById :: "'w ga_sql \<Rightarrow> string \<Rightarrow> 'w \<Rightarrow> error option \<times> 'w" where
  "revokeById g i w = sql_ga_deactivate g i w"

definition findForUsername :: "'w ga_sql \<Rightarrow> string \<Rightarrow> 'w \<Rightarrow> GrantedAccess list" where
  "findForUsername g name w = sql_ga_of_user g name w"

text \<open>
  Go leaves open whether \<open>return result, db...Find(&result).Error\<close> reads \<open>result\<close> before or after the
  query has filled it. The parameter \<open>sql_ga_find_one\<close> stands for the whole expression.
\<close>

definition findOneBySessionId :: "'w ga_sql \<Rightarrow> string \<Rightarrow> 'w \<Rightarrow> GrantedAccess result" where
  "findOneBySessionId g i w = sql_ga_find_one g i w"

section \<open>The service (security/service.go)\<close>

definition StoreJWTAsGrantedAccess ::
    "'w ga_sql \<Rightarrow> string \<Rightarrow> time \<Rightarrow> string \<Rightarrow> string \<Rightarrow> string \<Rightarrow> string \<Rightarrow> 'w \<Rightarrow> string \<times> 'w" where
  "StoreJWTAsGrantedAccess g token expire ip description username accessKeyName w =
     (let ga = NewGrantedAccess token expire False description ip username accessKeyName in
      case ga_create g ga w of
        (Some err, w') \<Rightarrow> ('''', w')
      | (None, w') \<Rightarrow> (ga_ID ga, w'))"

definition IsTokenStillValid :: "'w ga_sql \<Rightarrow> time \<Rightarrow> string \<Rightarrow> 'w \<Rightarrow> bool" where
  "IsTokenStillValid g now jwt w =
     (case getGrantedAccessByHashedToken g (HashJWT jwt) w of
        Inl err \<Rightarrow> False
      | Inr ga \<Rightarrow> ga_IsValid now ga)"

definition GetGrantedAccessInformation :: "'w ga_sql \<Rightarrow> string \<Rightarrow> 'w \<Rightarrow> GrantedAccess result" where
  "GetGrantedAccessInformation g jwt w = getGrantedAccessByHashedToken g (HashJWT jwt) w"

definition RevokeSessionBySessionId :: "'w ga_sql \<Rightarrow> string \<Rightarrow> 'w \<Rightarrow> error option \<times> 'w" where
  "RevokeSessionBySessionId g sessionId w =
     (if \<not> checkSessionExistsById g sessionId w
      then (Some ''specified session identifier is not valid, cannot find GrantedAccess of specified id'', w)
      else revokeById g sessionId w)"

definition RevokeSessionByJWT :: "'w ga_sql \<Rightarrow> string \<Rightarrow> 'w \<Rightarrow> error option \<times> 'w" where
  "RevokeSessionByJWT g jwt w = RevokeSessionBySessionId g (HashJWT jwt) w"

definition GetAllGrantedAccessesForUserByUsername :: "'w ga_sql \<Rightarrow> string \<Rightarrow> 'w \<Rightarrow> GrantedAccess list" where
  "GetAllGrantedAccessesForUserByUsername g name w = findForUsername g name w"

definition GetGrantedAccessInformationBySessionId :: "'w ga_sql \<Rightarrow> string \<Rightarrow> 'w \<Rightarrow> GrantedAccess result" where
  "GetGrantedAccessInformationBySessionId g sessionId w = findOneBySessionId g sessionId w"

section \<open>Reading claims (security/service.go)\<close>

definition extractJsonFromJWT :: "string \<Rightarrow> string result outcome" where
  "extractJsonFromJWT jwt0 =
     bind_outcome
       (if HasPrefix jwt0 ''Bearer''
        then (if 7 \<le> length jwt0 then Return (drop 7 jwt0) else Panic ''slice bounds out of range'')
        else Return jwt0)
       (\<lambda>jwt.
          bind_outcome (index_slice (SplitN jwt (CHR ''.'') 3) 1) (\<lambda>payload.
            case RawStdDecode payload of
              (json, True) \<Rightarrow> Return (Inl ''cannot extract JSON from JWT: illegal base64 data'')
            | (json, False) \<Rightarrow> Return (Inr json)))"

text \<open>A token that cannot be decoded is only logged: the claims are then read from empty text.\<close>

definition json_or_empty :: "string result \<Rightarrow> string" where
  "json_or_empty r = (case r of Inl err \<Rightarrow> '''' | Inr json \<Rightarrow> json)"

definition ExtractLoginFromJWT :: "gjson \<Rightarrow> string \<Rightarrow> (string \<times> string) outcome" where
  "ExtractLoginFromJWT gjsonGet jwt =
     bind_outcome (extractJsonFromJWT jwt) (\<lambda>r.
       let json = json_or_empty r in
       Return (gjson_String (gjsonGet json ''login''), gjson_String (gjsonGet json ''accessKeyName'')))"

definition ScopeClaimIndex :: string where "ScopeClaimIndex = ''operationsScope''"

text \<open>The JSON text \<open>null\<close> makes the scope a nil pointer, here \<open>None\<close>.\<close>

type_synonym scope_json = "string \<Rightarrow> SessionLimitedOperationsScope option result"

definition ExtractScopeFromString ::
    "scope_json \<Rightarrow> string \<Rightarrow> SessionLimitedOperationsScope option result" where
  "ExtractScopeFromString unmarshalScope asJson =
     (case StdDecode asJson of
        (scopeAsTxtJson, True) \<Rightarrow> Inl ''cannot base64 decode operations scope from JWT: illegal base64 data''
      | (scopeAsTxtJson, False) \<Rightarrow>
          (case unmarshalScope scopeAsTxtJson of
             Inl scopeErr \<Rightarrow> Inl (''cannot unpack operations scope from JWT: '' @ scopeErr)
           | Inr scope \<Rightarrow> Inr scope))"

definition ExtractSessionLimitedOperationsScopeFromJWT ::
    "gjson \<Rightarrow> scope_json \<Rightarrow> string \<Rightarrow> SessionLimitedOperationsScope option result outcome" where
  "ExtractSessionLimitedOperationsScopeFromJWT gjsonGet unmarshalScope jwt =
     bind_outcome (extractJsonFromJWT jwt) (\<lambda>r.
       case gjsonGet (json_or_empty r) ScopeClaimIndex of
         Some scopeJson \<Rightarrow> Return (ExtractScopeFromString unmarshalScope scopeJson)
       | None \<Rightarrow> Return (Inr (Some \<lparr>Elements = []\<rparr>)))"

text \<open>Reading a token back: its payload, whatever stands in the place of the signature.\<close>

lemma SplitN_append:
  "c \<notin> set a \<Longrightarrow> SplitN (a @ c # b) c (Suc (Suc n)) = a # SplitN b c (Suc n)"
proof -
  assume "c \<notin> set a"
  then have "takeWhile (\<lambda>x. x \<noteq> c) (a @ c # b) = a" "dropWhile (\<lambda>x. x \<noteq> c) (a @ c # b) = c # b"
    by (induction a) auto
  then show ?thesis by simp
qed

abbreviation token_text :: "string \<Rightarrow> string \<Rightarrow> string \<Rightarrow> string" where
  "token_text h json sig \<equiv> h @ ''.'' @ RawURLEncode json @ ''.'' @ sig"

lemma extractJson_token:
  assumes "CHR ''.'' \<notin> set h"
  shows "extractJsonFromJWT (''Bearer '' @ token_text h json sig)
      = Return (if same_alphabet json then Inr json else Inl ''cannot extract JSON from JWT: illegal base64 data'')"
    and "\<not> HasPrefix (token_text h json sig) ''Bearer'' \<Longrightarrow> extractJsonFromJWT (token_text h json sig)
      = Return (if same_alphabet json then Inr json else Inl ''cannot extract JSON from JWT: illegal base64 data'')"
proof -
  have "CHR ''.'' \<notin> set (RawURLEncode json)" by (auto dest: RawURLEncode_plain)
  then have split: "SplitN (h @ CHR ''.'' # RawURLEncode json @ CHR ''.'' # sig) (CHR ''.'') 3
      = [h, RawURLEncode json, sig]"
    using SplitN_append [OF assms, of _ 1] SplitN_append [of "CHR ''.''" _ sig 0] by (simp add: numeral_3_eq_3)
  have decode: "(case RawStdDecode (RawURLEncode json) of
        (json, True) \<Rightarrow> Return (Inl ''cannot extract JSON from JWT: illegal base64 data'')
      | (json, False) \<Rightarrow> Return (Inr json))
      = Return (if same_alphabet json then Inr json else Inl ''cannot extract JSON from JWT: illegal base64 data'')"
    by (subst RawStdDecode_url) simp
  show "extractJsonFromJWT (''Bearer '' @ token_text h json sig)
      = Return (if same_alphabet json then Inr json else Inl ''cannot extract JSON from JWT: illegal base64 data'')"
    using split decode by (simp add: extractJsonFromJWT_def HasPrefix_def index_slice_def)
  show "\<not> HasPrefix (token_text h json sig) ''Bearer'' \<Longrightarrow> extractJsonFromJWT (token_text h json sig)
      = Return (if same_alphabet json then Inr json else Inl ''cannot extract JSON from JWT: illegal base64 data'')"
    using split decode by (simp add: extractJsonFromJWT_def index_slice_def)
qed

section \<open>What the code relies on of the database\<close>

text \<open>
  \<open>T w\<close> is the table: the rows that are not soft-deleted, by id. Inserting a row whose id is
  taken fails; a failing statement changes nothing; an insert may set the time stamps; a read
  returns rows of the table only; deactivating an id changes that row only.
\<close>

definition sessions_ok :: "'w ga_sql \<Rightarrow> ('w \<Rightarrow> (string \<rightharpoonup> GrantedAccess)) \<Rightarrow> bool" where
  "sessions_ok g T \<longleftrightarrow>
     (\<forall>ga w w'. sql_ga_create g ga w = (None, w') \<longrightarrow>
        T w (ga_ID ga) = None
        \<and> (\<exists>c u. T w' = (T w)(ga_ID ga \<mapsto> ga\<lparr>ga_CreatedAt := c, ga_UpdatedAt := u\<rparr>)))
   \<and> (\<forall>ga w e w'. sql_ga_create g ga w = (Some e, w') \<longrightarrow> T w' = T w)
   \<and> (\<forall>i w ga. sql_ga_first g i w = Inr ga \<longrightarrow> T w i = Some ga)
   \<and> (\<forall>i w w'. sql_ga_deactivate g i w = (None, w') \<longrightarrow>
        (\<exists>u. T w' = (T w)(i := map_option (\<lambda>ga. ga\<lparr>ga_Deactivated := True, ga_UpdatedAt := u\<rparr>) (T w i))))
   \<and> (\<forall>i w e w'. sql_ga_deactivate g i w = (Some e, w') \<longrightarrow> T w' = T w)"

text \<open>A database whose reads answer.\<close>

definition sessions_respond :: "'w ga_sql \<Rightarrow> ('w \<Rightarrow> (string \<rightharpoonup> GrantedAccess)) \<Rightarrow> bool" where
  "sessions_respond g T \<longleftrightarrow>
     (\<forall>i w ga. T w i = Some ga \<longrightarrow> sql_ga_first g i w = Inr ga)
   \<and> (\<forall>i w. sql_ga_exists g i w = Inr (T w i \<noteq> None))"

lemma sessions_okD:
  assumes "sessions_ok g T"
  shows "sql_ga_create g ga w = (None, w') \<Longrightarrow>
        T w (ga_ID ga) = None
        \<and> (\<exists>c u. T w' = (T w)(ga_ID ga \<mapsto> ga\<lparr>ga_CreatedAt := c, ga_UpdatedAt := u\<rparr>))"
    and "sql_ga_create g ga w = (Some e, w') \<Longrightarrow> T w' = T w"
    and "sql_ga_first g i w = Inr ga \<Longrightarrow> T w i = Some ga"
    and "sql_ga_deactivate g i w = (None, w') \<Longrightarrow>
        (\<exists>u. T w' = (T w)(i := map_option (\<lambda>ga. ga\<lparr>ga_Deactivated := True, ga_UpdatedAt := u\<rparr>) (T w i)))"
    and "sql_ga_deactivate g i w = (Some e, w') \<Longrightarrow> T w' = T w"
  using assms unfolding sessions_ok_def by blast+

lemma sessions_respondD:
  assumes "sessions_respond g T"
  shows "T w i = Some ga \<Longrightarrow> sql_ga_first g i w = Inr ga"
    and "sql_ga_exists g i w = Inr (T w i \<noteq> None)"
  using assms unfolding sessions_respond_def by blast+

section \<open>Session histories\<close>

text \<open>Everything the service does to the table: issuing a token and revoking a session.\<close>

inductive session_step :: "'w ga_sql \<Rightarrow> 'w \<Rightarrow> 'w \<Rightarrow> bool" for g where
  login: "StoreJWTAsGrantedAccess g token expire ip desc user key w = (r, w') \<Longrightarrow> session_step g w w'"
| revoke: "RevokeSessionBySessionId g i w = (r, w') \<Longrightarrow> session_step g w w'"

inductive session_run :: "'w ga_sql \<Rightarrow> 'w \<Rightarrow> 'w \<Rightarrow> bool" for g where
  none: "session_run g w w"
| more: "session_run g w w' \<Longrightarrow> session_step g w' w'' \<Longrightarrow> session_run g w w''"

definition revoked :: "(string \<rightharpoonup> GrantedAccess) \<Rightarrow> string \<Rightarrow> bool" where
  "revoked m i \<longleftrightarrow> (\<exists>ga. m i = Some ga \<and> ga_Deactivated ga)"

lemma revoked_step:
  assumes ok: "sessions_ok g T" and "session_step g w w'" and rev: "revoked (T w) i"
  shows "revoked (T w') i"
  using assms(2)
proof cases
  case (login token expire ip desc user key r)
  obtain e where c: "sql_ga_create g (NewGrantedAccess token expire False desc ip user key) w = (e, w')"
    using login by (auto simp: StoreJWTAsGrantedAccess_def ga_create_def Let_def split: prod.splits option.splits)
  show ?thesis
  proof (cases e)
    case None
    with sessions_okD(1) [OF ok] c rev show ?thesis by (fastforce simp: revoked_def)
  next
    case (Some err)
    with sessions_okD(2) [OF ok] c rev show ?thesis by metis
  qed
next
  case (revoke j r)
  show ?thesis
  proof (cases "checkSessionExistsById g j w")
    case False
    with revoke rev show ?thesis by (simp add: RevokeSessionBySessionId_def)
  next
    case True
    with revoke have d: "sql_ga_deactivate g j w = (r, w')"
      by (simp add: RevokeSessionBySessionId_def revokeById_def)
    show ?thesis
    proof (cases r)
      case None
      with sessions_okD(4) [OF ok] d rev show ?thesis by (fastforce simp: revoked_def)
    next
      case (Some err)
      with sessions_okD(5) [OF ok] d rev show ?thesis by metis
    qed
  qed
qed

lemma revoked_run:
  assumes "sessions_ok g T" "session_run g w w'" "revoked (T w) i"
  shows "revoked (T w') i"
  using assms(2,3) by induction (auto intro: revoked_step [OF assms(1)])

lemma revoke_effect:
  assumes "sessions_ok g T" "sessions_respond g T" "RevokeSessionBySessionId g i w = (None, w')"
  shows "revoked (T w') i \<and> (\<forall>j. j \<noteq> i \<longrightarrow> T w' j = T w j)"
proof -
  have e: "checkSessionExistsById g i w" and d: "sql_ga_deactivate g i w = (None, w')"
    using assms(3) by (auto simp: RevokeSessionBySessionId_def revokeById_def split: if_splits)
  have "T w i \<noteq> None" using e sessions_respondD(2) [OF assms(2), of i w] by (simp add: checkSessionExistsById_def)
  with sessions_okD(4) [OF assms(1) d] show ?thesis by (auto simp: revoked_def)
qed

lemma revoked_invalid:
  assumes "sessions_ok g T" "revoked (T w) (HashJWT jwt)"
  shows "\<not> IsTokenStillValid g now jwt w"
  using assms sessions_okD(3) [OF assms(1)]
  by (auto simp: IsTokenStillValid_def getGrantedAccessByHashedToken_def ga_IsValid_def revoked_def
      split: sum.splits)

lemma IsTokenStillValid_row:
  assumes "sessions_ok g T" "sessions_respond g T"
  shows "IsTokenStillValid g now jwt w \<longleftrightarrow>
    (\<exists>ga. T w (HashJWT jwt) = Some ga \<and> ga_IsValid now ga)"
proof (cases "sql_ga_first g (HashJWT jwt) w")
  case (Inl err)
  with sessions_respondD(1) [OF assms(2), of w "HashJWT jwt"] have "T w (HashJWT jwt) = None"
    by (cases "T w (HashJWT jwt)") auto
  with Inl show ?thesis by (simp add: IsTokenStillValid_def getGrantedAccessByHashedToken_def)
next
  case (Inr ga)
  with sessions_okD(3) [OF assms(1) Inr] show ?thesis
    by (simp add: IsTokenStillValid_def getGrantedAccessByHashedToken_def)
qed

section \<open>Properties\<close>

text \<open>
  C28. Which claims survive a token. Take a token as it is issued, with the \<open>Bearer\<close> prefix of the
  header and the URL encoding of a JSON document as payload. When that encoding is also a text of
  the standard alphabet, the login and the access key name are the values of the document's
  claims, and a scope claim that holds the base64 text of an encoded scope gives exactly that
  scope back, for every codec that decodes what it encoded. When it is not (it contains \<open>-\<close> or
  \<open>_\<close>), the code, which decodes with the standard alphabet, reads every claim as missing: no
  login, no access key and an empty scope, so the request names no user. Nothing of this depends on
  the signature.
\<close>

theorem jwt_claims_roundtrip:
  assumes "CHR ''.'' \<notin> set h" and "unmarshalScope (marshalScope scope) = Inr scope"
    and "gjsonGet json ScopeClaimIndex = Some (EncodeToString (marshalScope scope))" and "\<And>k. gjsonGet '''' k = None"
    and "token = ''Bearer '' @ token_text h json sig"
  shows "ExtractLoginFromJWT gjsonGet token = Return (if same_alphabet json
        then (gjson_String (gjsonGet json ''login''), gjson_String (gjsonGet json ''accessKeyName'')) else ('''', ''''))
    \<and> ExtractSessionLimitedOperationsScopeFromJWT gjsonGet unmarshalScope token
        = Return (Inr (if same_alphabet json then scope else Some \<lparr>Elements = []\<rparr>))"
  using assms extractJson_token(1) [OF assms(1), of json sig]
  by (simp add: ExtractLoginFromJWT_def ExtractSessionLimitedOperationsScopeFromJWT_def json_or_empty_def
      ExtractScopeFromString_def gjson_String_def)

definition toy_claims :: gjson where
  "toy_claims = (\<lambda>j k. if j = '''' then None else if k = ''login'' then Some ''admin'' else if k = ScopeClaimIndex
     then Some (EncodeToString ''null'') else None)"

theorem jwt_claims_roundtrip_witness:
  "ExtractLoginFromJWT toy_claims (''Bearer '' @ token_text ''h'' ''{}'' ''forged'') = Return (''admin'', '''')
   \<and> ExtractLoginFromJWT toy_claims (''Bearer '' @ token_text ''h'' ''~~~'' ''forged'') = Return ('''', '''')"
proof -
  have a: "same_alphabet ''{}''" "\<not> same_alphabet ''~~~''" by code_simp+
  have c: "toy_claims j ScopeClaimIndex = Some (EncodeToString ''null'')" if "j \<noteq> ''''" for j
    using that by (simp add: toy_claims_def ScopeClaimIndex_def)
  have e: "toy_claims '''' k = None" for k by (simp add: toy_claims_def)
  have l: "gjson_String (toy_claims ''{}'' ''login'') = ''admin''" "gjson_String (toy_claims ''{}'' ''accessKeyName'') = ''''"
    by (simp_all add: toy_claims_def gjson_String_def ScopeClaimIndex_def)
  have "ExtractLoginFromJWT toy_claims (''Bearer '' @ token_text ''h'' json ''forged'') = Return (if same_alphabet json
        then (gjson_String (toy_claims json ''login''), gjson_String (toy_claims json ''accessKeyName'')) else ('''', ''''))"
    if "json \<noteq> ''''" for json
    using jwt_claims_roundtrip [of "''h''" "\<lambda>_. Inr None" "\<lambda>_. ''null''" None toy_claims json _ "''forged''"] c [OF that] e
    by simp
  from this [of "''{}''"] this [of "''~~~''"] a l show ?thesis by simp
qed

text \<open>
  C10. Revocation is permanent. Once revoking the session of a token has succeeded, the token is
  invalid at every instant and after every further sequence of logins (of any token, the revoked
  one included) and revocations.
\<close>

theorem revocation_is_permanent:
  assumes "sessions_ok g T" and "T w (HashJWT jwt) \<noteq> None"
    and "RevokeSessionByJWT g jwt w = (None, w')" and "session_run g w' w''"
  shows "\<not> IsTokenStillValid g now jwt w''"
proof -
  have d: "sql_ga_deactivate g (HashJWT jwt) w = (None, w')"
    using assms(3) by (auto simp: RevokeSessionByJWT_def RevokeSessionBySessionId_def revokeById_def split: if_splits)
  have "revoked (T w') (HashJWT jwt)"
    using sessions_okD(4) [OF assms(1) d] assms(2) by (fastforce simp: revoked_def)
  from revoked_invalid [OF assms(1) revoked_run [OF assms(1,4) this]] show ?thesis .
qed

text \<open>
  C14. A session lives from login to its expiry. When a login is stored, the session identifier
  it returns is the hash of the token, the token is accepted exactly until it expires, no other
  session is affected, and storing the same token a second time is refused.
\<close>

theorem login_creates_session:
  assumes "sessions_ok g T" "sessions_respond g T"
    and "StoreJWTAsGrantedAccess g token expire ip desc user key w = (sid, w')" and "sid \<noteq> ''''"
  shows "sid = HashJWT token
     \<and> (IsTokenStillValid g now token w' \<longleftrightarrow> now \<le> expire)
     \<and> (HashJWT other \<noteq> HashJWT token \<longrightarrow>
          IsTokenStillValid g now other w' = IsTokenStillValid g now other w)
     \<and> fst (StoreJWTAsGrantedAccess g token expire' ip' desc' user' key' w') = ''''"
proof -
  have c: "sql_ga_create g (NewGrantedAccess token expire False desc ip user key) w = (None, w')"
    and sid: "sid = HashJWT token"
    using assms(3,4)
    by (auto simp: StoreJWTAsGrantedAccess_def ga_create_def Let_def NewGrantedAccess_def
        split: prod.splits option.splits)
  from sessions_okD(1) [OF assms(1) c] obtain cr up where
    T': "T w' = (T w)(HashJWT token \<mapsto>
      (NewGrantedAccess token expire False desc ip user key)\<lparr>ga_CreatedAt := cr, ga_UpdatedAt := up\<rparr>)"
    by (auto simp: NewGrantedAccess_def)
  have "fst (sql_ga_create g (NewGrantedAccess token expire' False desc' ip' user' key') w') \<noteq> None"
    using sessions_okD(1) [OF assms(1), of "NewGrantedAccess token expire' False desc' ip' user' key'" w'] T'
    by (cases "sql_ga_create g (NewGrantedAccess token expire' False desc' ip' user' key') w'")
      (auto simp: NewGrantedAccess_def)
  then have twice: "fst (StoreJWTAsGrantedAccess g token expire' ip' desc' user' key' w') = ''''"
    by (auto simp: StoreJWTAsGrantedAccess_def ga_create_def Let_def split: prod.splits option.splits)
  show ?thesis
    using sid T' twice
    by (auto simp: IsTokenStillValid_row [OF assms(1,2)] ga_IsValid_def IsNotExpired_def NewGrantedAccess_def)
qed

text \<open>A table kept in memory.\<close>

definition mem_sessions :: "(string \<Rightarrow> GrantedAccess option) ga_sql" where
  "mem_sessions = \<lparr>
     sql_ga_create = (\<lambda>ga m. case m (ga_ID ga) of Some _ \<Rightarrow> (Some ''duplicate key'', m) | None \<Rightarrow> (None, m(ga_ID ga \<mapsto> ga))),
     sql_ga_first = (\<lambda>i m. case m i of Some ga \<Rightarrow> Inr ga | None \<Rightarrow> Inl ''record not found''),
     sql_ga_exists = (\<lambda>i m. Inr (m i \<noteq> None)),
     sql_ga_deactivate = (\<lambda>i m. (None, m(i := map_option (\<lambda>ga. ga\<lparr>ga_Deactivated := True\<rparr>) (m i)))),
     sql_ga_of_user = (\<lambda>_ _. []),
     sql_ga_find_one = (\<lambda>i m. case m i of Some ga \<Rightarrow> Inr ga | None \<Rightarrow> Inl ''record not found'')\<rparr>"

lemma GrantedAccess_stamp:
  "\<exists>c u. ga = ga\<lparr>ga_CreatedAt := c, ga_UpdatedAt := u\<rparr>" "\<exists>u. ga = ga\<lparr>ga_UpdatedAt := u\<rparr>"
  by (metis GrantedAccess.surjective GrantedAccess.update_convs(1,2))+

lemma mem_sessions_ok: "sessions_ok mem_sessions (\<lambda>m. m)"
proof -
  have "\<exists>u. m(i := map_option (\<lambda>ga. ga\<lparr>ga_Deactivated := True\<rparr>) (m i)) =
      m(i := map_option (\<lambda>ga. ga\<lparr>ga_Deactivated := True, ga_UpdatedAt := u\<rparr>) (m i))"
    for m :: "string \<Rightarrow> GrantedAccess option" and i
  proof (cases "m i")
    case (Some ga)
    then show ?thesis using GrantedAccess_stamp(2) [of "ga\<lparr>ga_Deactivated := True\<rparr>"] by (auto, metis)
  qed simp
  moreover have "\<exists>c u. m(ga_ID ga \<mapsto> ga) = m(ga_ID ga \<mapsto> ga\<lparr>ga_CreatedAt := c, ga_UpdatedAt := u\<rparr>)"
    for m :: "string \<Rightarrow> GrantedAccess option" and ga
    using GrantedAccess_stamp(1) [of ga] by metis
  ultimately show ?thesis
    by (auto simp: sessions_ok_def mem_sessions_def split: option.splits)
qed

lemma mem_sessions_respond: "sessions_respond mem_sessions (\<lambda>m. m)"
  by (auto simp: sessions_respond_def mem_sessions_def)

theorem login_creates_session_witness:
  "\<exists>w'. StoreJWTAsGrantedAccess mem_sessions ''t'' 100 ''ip'' ''Login'' ''admin'' '''' Map.empty = (HashJWT ''t'', w')
     \<and> IsTokenStillValid mem_sessions 100 ''t'' w' \<and> \<not> IsTokenStillValid mem_sessions 101 ''t'' w'"
proof -
  obtain w' where s: "StoreJWTAsGrantedAccess mem_sessions ''t'' 100 ''ip'' ''Login'' ''admin'' '''' Map.empty
      = (HashJWT ''t'', w')"
    by (simp add: StoreJWTAsGrantedAccess_def ga_create_def mem_sessions_def NewGrantedAccess_def Let_def)
  have ne: "HashJWT ''t'' \<noteq> ''''" using length_HashJWT [of "''t''"] by force
  from login_creates_session [OF mem_sessions_ok mem_sessions_respond s ne, of 100]
    login_creates_session [OF mem_sessions_ok mem_sessions_respond s ne, of 101] s
  show ?thesis by auto
qed

theorem revocation_is_permanent_witness:
  "\<exists>w w'. w (HashJWT ''t'') \<noteq> None \<and> RevokeSessionByJWT mem_sessions ''t'' w = (None, w')
     \<and> \<not> IsTokenStillValid mem_sessions 0 ''t'' w'"
proof -
  let ?w = "Map.empty(HashJWT ''t'' \<mapsto> NewGrantedAccess ''t'' 100 False '''' '''' ''admin'' '''')"
  obtain w' where r: "RevokeSessionByJWT mem_sessions ''t'' ?w = (None, w')"
    by (simp add: RevokeSessionByJWT_def RevokeSessionBySessionId_def checkSessionExistsById_def
        revokeById_def mem_sessions_def)
  have "\<not> IsTokenStillValid mem_sessions 0 ''t'' w'"
    by (rule revocation_is_permanent [OF mem_sessions_ok _ r session_run.none]) simp
  with r show ?thesis by (intro exI [of _ ?w] exI [of _ w']) simp
qed

text \<open>
  C30. Revoking a session affects the tokens with the same digest and no others. A session is
  found by the hexadecimal SHA-256 digest of the complete token. After a successful revocation by
  a token, every token with the same digest is invalid at every instant, and every token with
  another digest is exactly as valid as before.
\<close>

theorem revocation_confined:
  assumes "sessions_ok g T" and "sessions_respond g T" and "RevokeSessionByJWT g jwt w = (None, w')"
  shows "IsTokenStillValid g now other w' \<longleftrightarrow>
    Sum256 other \<noteq> Sum256 jwt \<and> IsTokenStillValid g now other w"
proof -
  have rev: "revoked (T w') (HashJWT jwt)" "\<forall>j. j \<noteq> HashJWT jwt \<longrightarrow> T w' j = T w j"
    using revoke_effect [OF assms(1,2)] assms(3) by (auto simp: RevokeSessionByJWT_def)
  show ?thesis
  proof (cases "Sum256 other = Sum256 jwt")
    case True
    then have "HashJWT other = HashJWT jwt" by (simp add: HashJWT_eq)
    with revoked_invalid [OF assms(1), of w' other now] rev(1) True show ?thesis by simp
  next
    case False
    then have "HashJWT other \<noteq> HashJWT jwt" by (simp add: HashJWT_eq)
    with rev(2) False show ?thesis by (simp add: IsTokenStillValid_row [OF assms(1,2)])
  qed
qed

text \<open>A table in which every identifier has an unexpired session.\<close>

theorem revocation_confined_witness:
  "\<exists>w'. RevokeSessionByJWT mem_sessions ''t'' (\<lambda>_. Some (NewGrantedAccess ''t'' 100 False '''' '''' ''admin'' '''')) = (None, w')
     \<and> (\<forall>other. IsTokenStillValid mem_sessions 7 other w' = (Sum256 other \<noteq> Sum256 ''t''))"
proof -
  let ?w = "\<lambda>_ :: string. Some (NewGrantedAccess ''t'' 100 False '''' '''' ''admin'' '''')"
  obtain w' where r: "RevokeSessionByJWT mem_sessions ''t'' ?w = (None, w')"
    by (simp add: RevokeSessionByJWT_def RevokeSessionBySessionId_def checkSessionExistsById_def
        revokeById_def mem_sessions_def)
  have "IsTokenStillValid mem_sessions 7 other ?w" for other
    unfolding IsTokenStillValid_row [OF mem_sessions_ok mem_sessions_respond]
    by (simp add: ga_IsValid_def IsNotExpired_def NewGrantedAccess_def)
  with revocation_confined [OF mem_sessions_ok mem_sessions_respond r] r show ?thesis by blast
qed

end
