(* ===== verification/Collections.thy ===== *)
theory Collections
  imports Users Backup_Window
begin

text \<open>
  Backup collections: \<open>pkg/collections\<close> without the backup windows themselves, which are in
  their own theory.

  \<open>bytes.Parse\<close> of \<open>github.com/labstack/gommon\<close> (sizes such as \<open>10M\<close>), the JSON decoding of a
  collection document and \<open>gjson.Get\<close> are parameters (\<open>collections_lib\<close>). Sizes are \<open>int64\<close> and
  their arithmetic wraps around.
\<close>

section \<open>The model (collections/model.go)\<close>

record StrategySpec =
  ss_KeepLastOlderNotMoreThan :: string
  ss_MaxOlderCopies :: goint

record CollectionSpec =
  cs_Description :: string
  cs_FilenameTemplate :: string
  cs_MaxBackupsCount :: goint
  cs_MaxOneVersionSize :: string
  cs_MaxCollectionSize :: string
  cs_Windows :: "BackupWindow list"
  cs_StrategyName :: string
  cs_StrategySpec :: StrategySpec
  cs_AccessControl :: AccessControlList
  cs_HealthSecretRef :: PasswordFromSecretRef

record Collection =
  c_Metadata :: ObjectMetadata
  c_Spec :: CollectionSpec
  c_SecretFromSecret :: string

record collections_lib =
  cl_gjson :: gjson
  cl_UnmarshalCollection :: "string \<Rightarrow> Collection result"
  bytes_Parse :: "string \<Rightarrow> int64 result"
  cl_windows :: window_lib

definition Collection_GetId :: "Collection \<Rightarrow> string" where
  "Collection_GetId c = om_Name (c_Metadata c)"

text \<open>The collection as the \<open>Subject\<close> of a decision: the record of its methods.\<close>

definition collection_Subject :: "Collection \<Rightarrow> Subject" where
  "collection_Subject c = \<lparr>
     sub_GetId = Collection_GetId c,
     sub_GetTypeName = ''collection'',
     sub_GetAccessControlList = cs_AccessControl (c_Spec c)\<rparr>"

definition GetGlobalIdentifier :: "Collection \<Rightarrow> string" where
  "GetGlobalIdentifier c = ''collection:'' @ Collection_GetId c"

definition IsHealthCheckSecretValid :: "Collection \<Rightarrow> string \<Rightarrow> bool" where
  "IsHealthCheckSecretValid c secret =
     (if c_SecretFromSecret c = '''' then True
      else CompareFastCryptoHash secret (c_SecretFromSecret c))"

definition CanUploadToMe :: "Collection \<Rightarrow> Actor \<Rightarrow> bool" where
  "CanUploadToMe c user =
     DecideCanDo \<lparr>dr_Actor = user, dr_Subject = Some (collection_Subject c), dr_Action = ActionUpload\<rparr>"

definition CanDownloadFromMe :: "Collection \<Rightarrow> Actor \<Rightarrow> bool" where
  "CanDownloadFromMe c user =
     DecideCanDo \<lparr>dr_Actor = user, dr_Subject = Some (collection_Subject c), dr_Action = ActionDownload\<rparr>"

definition CanListMyVersions :: "Collection \<Rightarrow> Actor \<Rightarrow> bool" where
  "CanListMyVersions c user = (CanUploadToMe c user \<or> CanDownloadFromMe c user)"

definition GenerateNextVersionFilename :: "Collection \<Rightarrow> goint \<Rightarrow> string" where
  "GenerateNextVersionFilename c version =
     replaceFirst (cs_FilenameTemplate (c_Spec c)) ''${version}'' (itoa (sint version))"

section \<open>Sizes\<close>

definition GetMaxOneVersionSizeInBytes :: "collections_lib \<Rightarrow> Collection \<Rightarrow> int64 result" where
  "GetMaxOneVersionSizeInBytes L c = bytes_Parse L (cs_MaxOneVersionSize (c_Spec c))"

definition GetCollectionMaxSize :: "collections_lib \<Rightarrow> Collection \<Rightarrow> int64 result" where
  "GetCollectionMaxSize L c = bytes_Parse L (cs_MaxCollectionSize (c_Spec c))"

definition getMaxCollectionSizeInBytes :: "collections_lib \<Rightarrow> Collection \<Rightarrow> int64 result" where
  "getMaxCollectionSizeInBytes L c = bytes_Parse L (cs_MaxCollectionSize (c_Spec c))"

definition getEstimatedDiskSpaceForFullCollectionInBytes :: "collections_lib \<Rightarrow> Collection \<Rightarrow> int64 result" where
  "getEstimatedDiskSpaceForFullCollectionInBytes L c =
     (case GetMaxOneVersionSizeInBytes L c of
        Inl err \<Rightarrow> Inl (''cannot calculate estimated collection size: '' @ err)
      | Inr maxVersionSizeInBytes \<Rightarrow> Inr (cs_MaxBackupsCount (c_Spec c) * maxVersionSizeInBytes))"

definition GetEstimatedCollectionExtraSpace :: "collections_lib \<Rightarrow> Collection \<Rightarrow> int64 result" where
  "GetEstimatedCollectionExtraSpace L c =
     (case getEstimatedDiskSpaceForFullCollectionInBytes L c of
        Inl err \<Rightarrow> Inl (''cannot calculate GetEstimatedCollectionExtraSpace(): '' @ err)
      | Inr estimatedStandardCollectionSize \<Rightarrow>
          (case getMaxCollectionSizeInBytes L c of
             Inl err \<Rightarrow> Inl (''cannot calculate GetEstimatedCollectionExtraSpace(): '' @ err)
           | Inr maxCollectionSizeInBytes \<Rightarrow> Inr (maxCollectionSizeInBytes - estimatedStandardCollectionSize)))"

section \<open>Repository and service\<close>

definition KindCollection :: string where "KindCollection = ''backupcollections''"

definition getById ::
    "collections_lib \<Rightarrow> ('w, 'd) ConfigurationProvider \<Rightarrow> string \<Rightarrow> 'w \<Rightarrow> Collection result" where
  "getById L cfg i w =
     (case cp_GetSingleDocument cfg KindCollection i w of
        Inl retrieveErr \<Rightarrow> Inl (''error retrieving result: '' @ retrieveErr)
      | Inr doc \<Rightarrow>
          (case cl_UnmarshalCollection L doc of
             Inl err \<Rightarrow> Inl (''cannot unmarshal response fron Kubernetes to get collection of id=''
                @ i @ '', error: '' @ err)
           | Inr result \<Rightarrow>
               (case FillPasswordFromKindSecret cfg (cl_gjson L) (cs_HealthSecretRef (c_Spec result)) w of
                  Inl fillErr \<Rightarrow> Inl fillErr
                | Inr (Some password) \<Rightarrow> Inr (result\<lparr>c_SecretFromSecret := password\<rparr>)
                | Inr None \<Rightarrow> Inr result)))"

definition GetCollectionById ::
    "collections_lib \<Rightarrow> ('w, 'd) ConfigurationProvider \<Rightarrow> string \<Rightarrow> 'w \<Rightarrow> Collection result" where
  "GetCollectionById L cfg i w = getById L cfg i w"

text \<open>The loop over the windows; an error of one window is logged and counts as "outside".\<close>

fun anyWindowNow :: "window_lib \<Rightarrow> BackupWindow list \<Rightarrow> time \<Rightarrow> bool" where
  "anyWindowNow W [] contextTime = False"
| "anyWindowNow W (window # ws) contextTime =
     (if result_or_false (IsInWindowNow W window contextTime) then True
      else anyWindowNow W ws contextTime)"

definition ValidateIsBackupWindowAllowingToUpload :: "collections_lib \<Rightarrow> Collection \<Rightarrow> time \<Rightarrow> bool" where
  "ValidateIsBackupWindowAllowingToUpload L c contextTime =
     (if length (cs_Windows (c_Spec c)) = 0 then True
      else anyWindowNow (cl_windows L) (cs_Windows (c_Spec c)) contextTime)"

section \<open>Lemmas\<close>

lemma anyWindowNow_iff:
  "anyWindowNow W ws t \<longleftrightarrow> (\<exists>b \<in> set ws. IsInWindowNow W b t = Inr True)"
proof (induction ws)
  case (Cons b ws)
  then show ?case by (cases "IsInWindowNow W b t") auto
qed simp

text \<open>Sizes that fit: the extra space is the exact difference.\<close>

definition sizes_fit :: "collections_lib \<Rightarrow> Collection \<Rightarrow> int64 \<Rightarrow> int64 \<Rightarrow> bool" where
  "sizes_fit L c m M \<longleftrightarrow>
     bytes_Parse L (cs_MaxOneVersionSize (c_Spec c)) = Inr m
   \<and> bytes_Parse L (cs_MaxCollectionSize (c_Spec c)) = Inr M
   \<and> 0 \<le> sint m \<and> 0 \<le> sint (cs_MaxBackupsCount (c_Spec c)) \<and> 0 \<le> sint M
   \<and> sint (cs_MaxBackupsCount (c_Spec c)) * sint m < 2 ^ 63"

lemma estimated_extra_space:
  assumes "sizes_fit L c m M"
  shows "\<exists>x. GetEstimatedCollectionExtraSpace L c = Inr x
    \<and> sint x = sint M - sint (cs_MaxBackupsCount (c_Spec c)) * sint m"
proof -
  let ?n = "cs_MaxBackupsCount (c_Spec c)"
  have r: "0 \<le> sint ?n * sint m" "sint ?n * sint m < 2 ^ 63" using assms by (auto simp: sizes_fit_def)
  then have p: "sint (?n * m) = sint ?n * sint m" by (simp add: sint_mult64)
  have "0 \<le> sint M" using assms by (simp add: sizes_fit_def)
  with r sint_range [of M] have "in_int64 (sint M - sint (?n * m))" unfolding p by linarith
  from sint_diff64 [OF this] p have "sint (M - ?n * m) = sint M - sint ?n * sint m" by simp
  then show ?thesis
    using assms
    by (simp add: GetEstimatedCollectionExtraSpace_def getEstimatedDiskSpaceForFullCollectionInBytes_def
        GetMaxOneVersionSizeInBytes_def getMaxCollectionSizeInBytes_def sizes_fit_def)
qed

lemma GenerateNextVersionFilename_inj:
  assumes "strContains (cs_FilenameTemplate (c_Spec c)) ''${version}''"
  shows "GenerateNextVersionFilename c v = GenerateNextVersionFilename c v' \<longleftrightarrow> v = v'"
proof -
  obtain p q where
    "\<And>new. replaceFirst (cs_FilenameTemplate (c_Spec c)) ''${version}'' new = p @ new @ q"
    using assms replaceFirst_present unfolding strContains_def by blast
  then show ?thesis by (simp add: GenerateNextVersionFilename_def sint_inject64)
qed

section \<open>Properties\<close>

text \<open>
  Version file names. Two versions of a collection get the same file name only if they have
  the same number or the template does not contain the placeholder; in the latter case all
  versions share one name.
\<close>

theorem filename_collisions:
  "GenerateNextVersionFilename c v = GenerateNextVersionFilename c v' \<longleftrightarrow>
     v = v' \<or> \<not> strContains (cs_FilenameTemplate (c_Spec c)) ''${version}''"
proof (cases "strContains (cs_FilenameTemplate (c_Spec c)) ''${version}''")
  case True
  then show ?thesis using GenerateNextVersionFilename_inj by simp
next
  case False
  then show ?thesis
    using replaceFirst_absent unfolding strContains_def by (simp add: GenerateNextVersionFilename_def)
qed

end
