(* ===== verification/Rotation.thy ===== *)
theory Rotation
  imports Collections
begin

text \<open>
  Stored versions (\<open>pkg/storage/entity.go\<close>) and their rotation (\<open>pkg/storage/rotation.go\<close>).

  A slice is its elements together with the elements of its array beyond its length
  (\<open>go_slice\<close>), because reslicing reads up to the capacity and panics only beyond it.
  \<open>sort.SliceStable\<close> is \<open>sort_key\<close>; it sorts the slice that the strategy holds, so the strategy
  is returned changed. The interface \<open>RotationStrategy\<close> is the locale \<open>rotation_strategy\<close>.
\<close>

section \<open>The entity\<close>

record UploadedVersion =
  uv_Id :: string
  uv_CollectionId :: string
  uv_VersionNumber :: goint
  uv_Filename :: string
  uv_Filesize :: int64
  uv_UploadedBySessionId :: string
  uv_Uploader :: string
  uv_CreatedAt :: time
  uv_UpdatedAt :: time
  uv_DeletedAt :: "time option"

definition GetTargetPath :: "UploadedVersion \<Rightarrow> string" where
  "GetTargetPath u = uv_CollectionId u @ ''/'' @ uv_Filename u"

section \<open>FIFO rotation\<close>

record 'a go_slice =
  sl_elems :: "'a list"
  sl_spare :: "'a list"

text \<open>\<open>xs[0:n]\<close>: up to the capacity, and a panic beyond it or for a negative \<open>n\<close>.\<close>

definition reslice :: "'a go_slice \<Rightarrow> goint \<Rightarrow> 'a list outcome" where
  "reslice xs n =
     (if 0 \<le> sint n \<and> nat (sint n) \<le> length (sl_elems xs @ sl_spare xs)
      then Return (take (nat (sint n)) (sl_elems xs @ sl_spare xs))
      else Panic ''slice bounds out of range'')"

record FifoRotationStrategy =
  frs_collection :: Collection
  frs_existingVersions :: "UploadedVersion go_slice"

definition NewFifoRotationStrategy :: "Collection \<Rightarrow> UploadedVersion go_slice \<Rightarrow> FifoRotationStrategy" where
  "NewFifoRotationStrategy c versions = \<lparr>frs_collection = c, frs_existingVersions = versions\<rparr>"

definition CanUpload :: "FifoRotationStrategy \<Rightarrow> UploadedVersion \<Rightarrow> error option" where
  "CanUpload frs version = None"

abbreviation version_key :: "UploadedVersion \<Rightarrow> int" where
  "version_key v \<equiv> sint (uv_VersionNumber v)"

definition GetVersionsThatShouldBeDeletedIfThisVersionUploaded ::
    "FifoRotationStrategy \<Rightarrow> UploadedVersion \<Rightarrow> (UploadedVersion list \<times> FifoRotationStrategy) outcome" where
  "GetVersionsThatShouldBeDeletedIfThisVersionUploaded frs version =
     (let existingVersions = frs_existingVersions frs;
          len = (of_nat (length (sl_elems existingVersions)) :: goint);
          maxCount = cs_MaxBackupsCount (c_Spec (frs_collection frs))
      in if sint len < sint maxCount then Return ([], frs)
         else let sorted = existingVersions\<lparr>sl_elems := sort_key version_key (sl_elems existingVersions)\<rparr>;
                  toDelete = len - maxCount + 1
              in bind_outcome (reslice sorted toDelete)
                   (\<lambda>oldest. Return (oldest, frs\<lparr>frs_existingVersions := sorted\<rparr>)))"

section \<open>The contract of a rotation strategy\<close>

text \<open>
  A strategy in a sound state (\<open>ok\<close>) answers, without changing which versions it holds; what it
  proposes to delete are versions it holds, none of them newer than one it keeps; and with the
  proposed versions gone there is room for one more version, and none is deleted needlessly.
\<close>

locale rotation_strategy =
  fixes to_delete :: "'s \<Rightarrow> UploadedVersion \<Rightarrow> (UploadedVersion list \<times> 's) outcome"
    and versions :: "'s \<Rightarrow> UploadedVersion list"
    and limit :: "'s \<Rightarrow> nat"
    and ok :: "'s \<Rightarrow> bool"
  assumes answers: "ok s \<Longrightarrow> \<exists>ds s'. to_delete s v = Return (ds, s')
      \<and> mset (versions s') = mset (versions s) \<and> ok s'"
    and held: "ok s \<Longrightarrow> to_delete s v = Return (ds, s') \<Longrightarrow> mset ds \<subseteq># mset (versions s)"
    and oldest: "ok s \<Longrightarrow> to_delete s v = Return (ds, s') \<Longrightarrow> d \<in> set ds \<Longrightarrow>
      k \<in># mset (versions s) - mset ds \<Longrightarrow> version_key d \<le> version_key k"
    and room: "ok s \<Longrightarrow> to_delete s v = Return (ds, s') \<Longrightarrow>
      length ds = length (versions s) + 1 - limit s"
begin

text \<open>The versions that remain once the proposed ones are deleted by their ids.\<close>

definition remaining :: "'s \<Rightarrow> UploadedVersion list \<Rightarrow> UploadedVersion list" where
  "remaining s ds = filter (\<lambda>v. uv_Id v \<notin> uv_Id ` set ds) (versions s)"

lemma remaining_mset:
  assumes "mset ds \<subseteq># mset (versions s)" "distinct (map uv_Id (versions s))"
  shows "mset (remaining s ds) = mset (versions s) - mset ds"
  unfolding remaining_def by (rule mset_filter_other_keys [OF assms(2,1)])

text \<open>With the proposed versions deleted, one more version keeps the collection within its limit.\<close>

lemma rotation_makes_room:
  assumes "ok s" "to_delete s v = Return (ds, s')" "distinct (map uv_Id (versions s))" "1 \<le> limit s"
  shows "length (remaining s ds) + 1 = min (length (versions s) + 1) (limit s)"
proof -
  have sub: "mset ds \<subseteq># mset (versions s)" by (rule held [OF assms(1,2)])
  have "length (remaining s ds) = length (versions s) - length ds"
    using remaining_mset [OF sub assms(3)] sub by (metis size_Diff_submset size_mset)
  then show ?thesis using room [OF assms(1,2)] assms(4) by auto
qed

lemma rotation_deletes_oldest:
  assumes "ok s" "to_delete s v = Return (ds, s')" "distinct (map uv_Id (versions s))"
    and "d \<in> set ds" "k \<in> set (remaining s ds)"
  shows "version_key d \<le> version_key k"
proof -
  have "k \<in># mset (versions s) - mset ds"
    using assms(5) remaining_mset [OF held [OF assms(1,2)] assms(3)] by (metis set_mset_mset)
  from oldest [OF assms(1,2,4) this] show ?thesis .
qed

end

section \<open>FIFO fulfils the contract\<close>

text \<open>Sound: at least one backup may be kept, and the slice's length is a Go \<open>int\<close>.\<close>

definition fifo_limit :: "FifoRotationStrategy \<Rightarrow> nat" where
  "fifo_limit frs = nat (sint (cs_MaxBackupsCount (c_Spec (frs_collection frs))))"

definition fifo_ok :: "FifoRotationStrategy \<Rightarrow> bool" where
  "fifo_ok frs \<longleftrightarrow> 1 \<le> sint (cs_MaxBackupsCount (c_Spec (frs_collection frs)))
     \<and> length (sl_elems (frs_existingVersions frs)) < 2 ^ 63"

abbreviation fifo_versions :: "FifoRotationStrategy \<Rightarrow> UploadedVersion list" where
  "fifo_versions frs \<equiv> sl_elems (frs_existingVersions frs)"

lemma fifo_deletes:
  assumes "fifo_ok frs"
  shows "\<exists>frs'. GetVersionsThatShouldBeDeletedIfThisVersionUploaded frs v =
      Return (take (length (fifo_versions frs) + 1 - fifo_limit frs)
                (sort_key version_key (fifo_versions frs)), frs')
    \<and> mset (fifo_versions frs') = mset (fifo_versions frs) \<and> fifo_ok frs'"
proof -
  let ?vs = "fifo_versions frs" and ?M = "cs_MaxBackupsCount (c_Spec (frs_collection frs))"
  have M: "1 \<le> sint ?M" and len: "int (length ?vs) < 2 ^ 63" using assms by (auto simp: fifo_ok_def)
  have sl: "sint (of_nat (length ?vs) :: goint) = int (length ?vs)"
    using len by (intro sint_of_nat64) auto
  show ?thesis
  proof (cases "int (length ?vs) < sint ?M")
    case True
    then have "length ?vs + 1 - fifo_limit frs = 0" by (simp add: fifo_limit_def)
    with True sl assms show ?thesis
      by (simp add: GetVersionsThatShouldBeDeletedIfThisVersionUploaded_def)
  next
    case False
    have d: "sint (of_nat (length ?vs) - ?M) = int (length ?vs) - sint ?M"
      by (subst sint_diff64) (use False M len sl in auto)
    have s: "sint (of_nat (length ?vs) - ?M + 1) = int (length ?vs) - sint ?M + 1"
      by (subst sint_add64) (use False M len d in auto)
    have n: "nat (int (length ?vs) - sint ?M + 1) = length ?vs + 1 - fifo_limit frs"
      using M False by (simp add: fifo_limit_def)
    have "length ?vs + 1 - fifo_limit frs \<le> length ?vs" using M by (simp add: fifo_limit_def)
    with False sl s n M assms show ?thesis
      by (simp add: GetVersionsThatShouldBeDeletedIfThisVersionUploaded_def reslice_def Let_def fifo_ok_def)
  qed
qed

interpretation fifo: rotation_strategy
  GetVersionsThatShouldBeDeletedIfThisVersionUploaded fifo_versions fifo_limit fifo_ok
proof
  fix s v ds s' d k
  assume ok: "fifo_ok s"
  then show "\<exists>ds s'. GetVersionsThatShouldBeDeletedIfThisVersionUploaded s v = Return (ds, s')
      \<and> mset (fifo_versions s') = mset (fifo_versions s) \<and> fifo_ok s'"
    using fifo_deletes [of s v] by blast
  let ?vs = "fifo_versions s" and ?n = "length (fifo_versions s) + 1 - fifo_limit s"
  assume "GetVersionsThatShouldBeDeletedIfThisVersionUploaded s v = Return (ds, s')"
  with fifo_deletes [OF ok, of v] have ds: "ds = take ?n (sort_key version_key ?vs)" by auto
  have split: "mset ?vs = mset ds + mset (drop ?n (sort_key version_key ?vs))"
    unfolding ds by (metis append_take_drop_id mset_append mset_sort)
  then show "mset ds \<subseteq># mset ?vs" by simp
  have "1 \<le> fifo_limit s" using ok unfolding fifo_ok_def fifo_limit_def by linarith
  then show "length ds = ?n" by (simp add: ds)
  assume "d \<in> set ds" "k \<in># mset ?vs - mset ds"
  then show "version_key d \<le> version_key k"
    using in_set_takeD_sorted [of version_key "sort_key version_key ?vs" d ?n k] split ds by simp
qed

section \<open>Properties\<close>

text \<open>
  C13. FIFO rotation keeps a collection within its limit. For a positive limit and versions with
  distinct ids the strategy answers; after deleting what it proposes and adding the new version
  the collection holds exactly the smaller of its old size plus one and its limit, no deleted
  version is newer than a kept one, and the proposed versions are the oldest ones in order.
\<close>

theorem fifo_rotation_bound:
  assumes "1 \<le> sint (cs_MaxBackupsCount (c_Spec c))" and "length vs < 2 ^ 63"
    and "distinct (map uv_Id vs)"
  shows "\<exists>ds frs'. GetVersionsThatShouldBeDeletedIfThisVersionUploaded
       (NewFifoRotationStrategy c \<lparr>sl_elems = vs, sl_spare = spare\<rparr>) v = Return (ds, frs')
     \<and> set ds \<subseteq> set vs \<and> sorted (map version_key ds)
     \<and> length (filter (\<lambda>x. uv_Id x \<notin> uv_Id ` set ds) vs) + 1
         = min (length vs + 1) (nat (sint (cs_MaxBackupsCount (c_Spec c))))
     \<and> (\<forall>d \<in> set ds. \<forall>k \<in> set vs. uv_Id k \<notin> uv_Id ` set ds \<longrightarrow> version_key d \<le> version_key k)"
proof -
  let ?s = "NewFifoRotationStrategy c \<lparr>sl_elems = vs, sl_spare = spare\<rparr>"
  have ok: "fifo_ok ?s" and sel: "fifo_versions ?s = vs"
    and lim: "fifo_limit ?s = nat (sint (cs_MaxBackupsCount (c_Spec c)))"
    using assms by (auto simp: fifo_ok_def fifo_limit_def NewFifoRotationStrategy_def)
  define ds where "ds = take (length vs + 1 - fifo_limit ?s) (sort_key version_key vs)"
  obtain frs' where r: "GetVersionsThatShouldBeDeletedIfThisVersionUploaded ?s v = Return (ds, frs')"
    using fifo_deletes [OF ok, of v] unfolding sel ds_def by blast
  have rem: "fifo.remaining ?s ds = filter (\<lambda>x. uv_Id x \<notin> uv_Id ` set ds) vs"
    unfolding fifo.remaining_def sel ..
  have "1 \<le> fifo_limit ?s" using assms(1) lim by linarith
  from fifo.rotation_makes_room [OF ok r, unfolded rem sel, OF assms(3) this]
    fifo.rotation_deletes_oldest [OF ok r, unfolded rem sel, OF assms(3)]
  have "length (filter (\<lambda>x. uv_Id x \<notin> uv_Id ` set ds) vs) + 1 = min (length vs + 1) (fifo_limit ?s)"
    "\<forall>d \<in> set ds. \<forall>k \<in> set vs. uv_Id k \<notin> uv_Id ` set ds \<longrightarrow> version_key d \<le> version_key k"
    by auto
  moreover have "set ds \<subseteq> set vs"
    unfolding ds_def using set_take_subset [of _ "sort_key version_key vs"] by simp
  moreover have "sorted (map version_key ds)"
    unfolding ds_def using sorted_wrt_take [of "(\<le>)" "map version_key (sort_key version_key vs)"]
    by (simp add: take_map)
  ultimately show ?thesis using r unfolding lim by blast
qed

text \<open>A collection of the given limits, and versions with numbers and sizes.\<close>

definition toy_collection :: "goint \<Rightarrow> string \<Rightarrow> string \<Rightarrow> string \<Rightarrow> Collection" where
  "toy_collection n one all template = \<lparr>c_Metadata = \<lparr>om_Name = ''iwa''\<rparr>,
     c_Spec = \<lparr>cs_Description = '''', cs_FilenameTemplate = template, cs_MaxBackupsCount = n,
       cs_MaxOneVersionSize = one, cs_MaxCollectionSize = all, cs_Windows = [], cs_StrategyName = ''fifo'',
       cs_StrategySpec = \<lparr>ss_KeepLastOlderNotMoreThan = '''', ss_MaxOlderCopies = 0\<rparr>, cs_AccessControl = [],
       cs_HealthSecretRef = \<lparr>ref_Name = '''', ref_Entry = ''''\<rparr>\<rparr>, c_SecretFromSecret = ''''\<rparr>"

definition toy_version :: "string \<Rightarrow> goint \<Rightarrow> int64 \<Rightarrow> UploadedVersion" where
  "toy_version i n sz = \<lparr>uv_Id = i, uv_CollectionId = ''iwa'', uv_VersionNumber = n,
     uv_Filename = ''iwa-'' @ itoa (sint n), uv_Filesize = sz, uv_UploadedBySessionId = '''',
     uv_Uploader = ''admin'', uv_CreatedAt = 0, uv_UpdatedAt = 0, uv_DeletedAt = None\<rparr>"

lemma toy_version_simps [simp]:
  "uv_Id (toy_version i n sz) = i" "uv_VersionNumber (toy_version i n sz) = n"
  "uv_Filesize (toy_version i n sz) = sz" "uv_CollectionId (toy_version i n sz) = ''iwa''"
  by (simp_all add: toy_version_def)

lemma toy_collection_simps [simp]:
  "cs_MaxBackupsCount (c_Spec (toy_collection n one all template)) = n"
  "cs_MaxOneVersionSize (c_Spec (toy_collection n one all template)) = one"
  "cs_MaxCollectionSize (c_Spec (toy_collection n one all template)) = all"
  "cs_FilenameTemplate (c_Spec (toy_collection n one all template)) = template"
  "cs_StrategyName (c_Spec (toy_collection n one all template)) = ''fifo''"
  "om_Name (c_Metadata (toy_collection n one all template)) = ''iwa''"
  by (simp_all add: toy_collection_def)

theorem fifo_rotation_bound_witness:
  "\<exists>ds frs'. GetVersionsThatShouldBeDeletedIfThisVersionUploaded
       (NewFifoRotationStrategy (toy_collection 2 ''1K'' ''2K'' ''x'')
         \<lparr>sl_elems = [toy_version ''c'' 3 7, toy_version ''a'' 1 7, toy_version ''b'' 2 7], sl_spare = []\<rparr>)
       (toy_version ''d'' 4 7) = Return (ds, frs')
     \<and> length (filter (\<lambda>x. uv_Id x \<notin> uv_Id ` set ds)
          [toy_version ''c'' 3 7, toy_version ''a'' 1 7, toy_version ''b'' 2 7]) + 1 = 2"
proof -
  let ?vs = "[toy_version ''c'' 3 7, toy_version ''a'' 1 7, toy_version ''b'' 2 7]"
  have "distinct (map uv_Id ?vs)" "length ?vs < 2 ^ 63" "(1::int) \<le> sint (2::goint)"
    and m: "min (length ?vs + 1) (nat (sint (2::goint))) = 2" by simp_all
  with fifo_rotation_bound [of "toy_collection 2 ''1K'' ''2K'' ''x''" ?vs "[]" "toy_version ''d'' 4 7"]
  show ?thesis unfolding toy_collection_simps m by blast
qed

text \<open>
  A limit of zero or less makes the rotation read beyond the versions. For a full slice (no
  spare capacity) the strategy panics, whatever versions exist.
\<close>

theorem fifo_nonpositive_limit_panics:
  assumes "sint (cs_MaxBackupsCount (c_Spec c)) \<le> 0"
    and "int (length vs) - sint (cs_MaxBackupsCount (c_Spec c)) + 1 < 2 ^ 63"
  shows "GetVersionsThatShouldBeDeletedIfThisVersionUploaded
       (NewFifoRotationStrategy c \<lparr>sl_elems = vs, sl_spare = []\<rparr>) v = Panic ''slice bounds out of range''"
proof -
  let ?M = "cs_MaxBackupsCount (c_Spec c)"
  have sl: "sint (of_nat (length vs) :: goint) = int (length vs)"
    by (rule sint_of_nat64) (use assms in auto)
  have d: "sint (of_nat (length vs) - ?M) = int (length vs) - sint ?M"
    by (subst sint_diff64) (use assms sl in auto)
  have s: "sint (of_nat (length vs) - ?M + 1) = int (length vs) - sint ?M + 1"
    by (subst sint_add64) (use assms d in auto)
  then have "length vs < nat (sint (of_nat (length vs) - ?M + 1))" using assms(1) by linarith
  with assms sl show ?thesis
    by (simp add: GetVersionsThatShouldBeDeletedIfThisVersionUploaded_def NewFifoRotationStrategy_def
        reslice_def Let_def)
qed

theorem fifo_nonpositive_limit_panics_witness:
  "GetVersionsThatShouldBeDeletedIfThisVersionUploaded
     (NewFifoRotationStrategy (toy_collection 0 ''1K'' ''2K'' ''x'') \<lparr>sl_elems = [toy_version ''a'' 1 7], sl_spare = []\<rparr>)
     (toy_version ''b'' 2 7) = Panic ''slice bounds out of range''"
  by (rule fifo_nonpositive_limit_panics) (simp_all add: toy_collection_def)

end
