(* ===== verification/Stream_Copy.thy ===== *)
theory Stream_Copy
  imports Go_Strings
begin

text \<open>
  Streaming an upload: the middlewares of \<open>pkg/storage/validation.go\<close> and \<open>CopyStream\<close> of
  \<open>pkg/storage/io.go\<close>.

  A middleware is a pair of closures; the four factories of the source are the constructors of
  \<open>streamMiddleware\<close>, and the variable that \<open>createNonEmptyMiddleware\<close> captures is the argument
  of its constructor. What the outside world does in one round of the copy loop (whether the
  context is done, what the reader delivers, whether the request is cancelled, whether the
  write fails) is a \<open>read_event\<close>; a stream is the list of its events, and a list that ends
  before the loop does is a read that never returns (\<open>None\<close>).

  The buffer is one array that every read overwrites from its start. \<open>previousBuff\<close> is first an
  array of its own and then a slice of that same buffer (\<open>PrevOfBuff n\<close>), so what it holds
  changes with the next read.
\<close>

section \<open>Middlewares (validation.go)\<close>

datatype streamMiddleware =
    RequestCancelled
  | QuotaMaxFileSize int64
  | NonEmpty int64
  | GPGStream

record chunk_info =
  ci_buff :: bytes
  ci_totalLength :: int64
  ci_previousHunkBeforeEof :: bytes
  ci_chunkNum :: goint
  ci_ctxErr :: bool

definition createRequestCancelledMiddleware :: streamMiddleware where
  "createRequestCancelledMiddleware = RequestCancelled"

definition createQuotaMaxFileSizeMiddleware :: "int64 \<Rightarrow> streamMiddleware" where
  "createQuotaMaxFileSizeMiddleware maxFileSize = QuotaMaxFileSize maxFileSize"

definition createNonEmptyMiddleware :: streamMiddleware where
  "createNonEmptyMiddleware = NonEmpty 0"

definition createGPGStreamMiddleware :: streamMiddleware where
  "createGPGStreamMiddleware = GPGStream"

definition gpg_header :: string where "gpg_header = ''-----BEGIN PGP MESSAGE''"
definition gpg_footer :: string where "gpg_footer = ''-----END PGP MESSAGE''"

fun processor :: "streamMiddleware \<Rightarrow> chunk_info \<Rightarrow> error option \<times> streamMiddleware" where
  "processor RequestCancelled i =
     (if ci_ctxErr i then Some ''upload was cancelled'' else None, RequestCancelled)"
| "processor (QuotaMaxFileSize maxFileSize) i =
     (if sint maxFileSize < sint (ci_totalLength i)
      then Some (''filesize reached allowed limit. Uploaded '' @ itoa (sint (ci_totalLength i))
             @ '' bytes, allowed to upload only '' @ itoa (sint maxFileSize) @ '' bytes'')
      else None,
      QuotaMaxFileSize maxFileSize)"
| "processor (NonEmpty recordedTotalLength) i = (None, NonEmpty (ci_totalLength i))"
| "processor GPGStream i =
     (if ci_chunkNum i = 1 \<and> \<not> strContains (ci_buff i) gpg_header
      then Some ''first chunk of uploaded data does not contain a valid GPG header''
      else if 0 < length (ci_previousHunkBeforeEof i)
        \<and> \<not> strContains (ci_previousHunkBeforeEof i @ ci_buff i) gpg_footer
      then Some ''end of stream does not contain a valid GPG footer, suspecting a data corruption''
      else None,
      GPGStream)"

fun resultReporter :: "streamMiddleware \<Rightarrow> error option" where
  "resultReporter (NonEmpty recordedTotalLength) =
     (if recordedTotalLength = 0 then Some ''sent empty data'' else None)"
| "resultReporter _ = None"

fun processChunk :: "streamMiddleware list \<Rightarrow> chunk_info \<Rightarrow> error option \<times> streamMiddleware list" where
  "processChunk [] i = (None, [])"
| "processChunk (m # nv) i =
     (case processor m i of
        (Some processingError, m') \<Rightarrow> (Some processingError, m' # nv)
      | (None, m') \<Rightarrow> (let (r, nv') = processChunk nv i in (r, m' # nv')))"

fun checkFinalStatusAfterFilesWasUploaded :: "streamMiddleware list \<Rightarrow> error option" where
  "checkFinalStatusAfterFilesWasUploaded [] = None"
| "checkFinalStatusAfterFilesWasUploaded (m # nv) =
     (case resultReporter m of
        Some processingError \<Rightarrow> Some processingError
      | None \<Rightarrow> checkFinalStatusAfterFilesWasUploaded nv)"

section \<open>The copy loop (io.go)\<close>

datatype read_status = ReadOk | ReadEOF | ReadError error

record read_event =
  ev_done :: bool
  ev_data :: bytes
  ev_status :: read_status
  ev_ctxErr :: bool
  ev_writeErr :: "error option"

datatype prev_buff = PrevOwn bytes | PrevOfBuff nat

fun prev_bytes :: "bytes \<Rightarrow> prev_buff \<Rightarrow> bytes" where
  "prev_bytes buff (PrevOwn b) = b"
| "prev_bytes buff (PrevOfBuff n) = take n buff"

text \<open>The local variables of \<open>CopyStream\<close>, and what was written to the target so far.\<close>

record copy_state =
  cp_buff :: bytes
  cp_previousBuff :: prev_buff
  cp_totalLength :: int64
  cp_chunkNum :: goint
  cp_middlewares :: "streamMiddleware list"
  cp_written :: bytes

fun copyLoop :: "read_event list \<Rightarrow> copy_state \<Rightarrow> ((int64 \<times> error option) \<times> copy_state) option" where
  "copyLoop [] s = None"
| "copyLoop (e # es) s =
     (if ev_done e
      then Some ((cp_totalLength s,
        Some ''context deadline exceeded, probably hit a Storage I/O timeout or Request timeout''), s)
      else
        (let data = ev_data e;
             buff = data @ drop (length data) (cp_buff s);
             chunkNum = cp_chunkNum s + 1;
             total = cp_totalLength s + of_nat (length data);
             s1 = s\<lparr>cp_buff := buff, cp_chunkNum := chunkNum\<rparr>
         in case ev_status e of
              ReadError err \<Rightarrow> Some ((cp_totalLength s, Some (''cannot copy stream, error: '' @ err)), s1)
            | ReadEOF \<Rightarrow>
                (case processChunk (cp_middlewares s)
                    \<lparr>ci_buff = data, ci_totalLength = total,
                     ci_previousHunkBeforeEof = prev_bytes buff (cp_previousBuff s),
                     ci_chunkNum = chunkNum, ci_ctxErr = ev_ctxErr e\<rparr> of
                   (Some err, mws) \<Rightarrow> Some ((total, Some err), s1\<lparr>cp_totalLength := total, cp_middlewares := mws\<rparr>)
                 | (None, mws) \<Rightarrow>
                     (case ev_writeErr e of
                        Some writeErr \<Rightarrow> Some ((total, Some writeErr),
                          s1\<lparr>cp_totalLength := total, cp_middlewares := mws\<rparr>)
                      | None \<Rightarrow> Some ((total, None),
                          s1\<lparr>cp_totalLength := total, cp_middlewares := mws, cp_written := cp_written s @ data\<rparr>)))
            | ReadOk \<Rightarrow>
                (let s2 = s1\<lparr>cp_totalLength := total, cp_previousBuff := PrevOfBuff (length data)\<rparr>
                 in case processChunk (cp_middlewares s)
                    \<lparr>ci_buff = data, ci_totalLength = total, ci_previousHunkBeforeEof = '''',
                     ci_chunkNum = chunkNum, ci_ctxErr = ev_ctxErr e\<rparr> of
                   (Some err, mws) \<Rightarrow> Some ((total, Some err), s2\<lparr>cp_middlewares := mws\<rparr>)
                 | (None, mws) \<Rightarrow>
                     (case ev_writeErr e of
                        Some writeErr \<Rightarrow> Some ((total, Some writeErr), s2\<lparr>cp_middlewares := mws\<rparr>)
                      | None \<Rightarrow>
                          (let s3 = s2\<lparr>cp_middlewares := mws, cp_written := cp_written s @ data\<rparr>
                           in case checkFinalStatusAfterFilesWasUploaded mws of
                                Some err \<Rightarrow> Some ((total, Some err), s3)
                              | None \<Rightarrow> copyLoop es s3)))))"

definition copy_start :: "nat \<Rightarrow> streamMiddleware list \<Rightarrow> copy_state" where
  "copy_start bufferLen mws = \<lparr>
     cp_buff = replicate bufferLen (CHR 0x00), cp_previousBuff = PrevOwn (replicate bufferLen (CHR 0x00)),
     cp_totalLength = 0, cp_chunkNum = 0, cp_middlewares = mws, cp_written = ''''\<rparr>"

definition CopyStream ::
    "read_event list \<Rightarrow> nat \<Rightarrow> streamMiddleware list \<Rightarrow> ((int64 \<times> error option) \<times> copy_state) option" where
  "CopyStream inputStream bufferLen middlewares = copyLoop inputStream (copy_start bufferLen middlewares)"

section \<open>The contract of a middleware\<close>

text \<open>
  A middleware passes or rejects a chunk, and what it accepts does not depend on the chunks it
  has seen before.
\<close>

locale chunk_guard =
  fixes proc :: "'m \<Rightarrow> chunk_info \<Rightarrow> error option \<times> 'm"
    and admits :: "'m \<Rightarrow> chunk_info \<Rightarrow> bool"
  assumes verdict: "fst (proc m i) = None \<longleftrightarrow> admits m i"
    and stable: "admits (snd (proc m i)) = admits m"
begin

text \<open>Running a list of guards: the first error wins.\<close>

fun run_all :: "'m list \<Rightarrow> chunk_info \<Rightarrow> error option \<times> 'm list" where
  "run_all [] i = (None, [])"
| "run_all (m # ms) i =
     (case proc m i of
        (Some e, m') \<Rightarrow> (Some e, m' # ms)
      | (None, m') \<Rightarrow> (let (r, ms') = run_all ms i in (r, m' # ms')))"

lemma run_all_passes: "fst (run_all ms i) = None \<longleftrightarrow> (\<forall>m \<in> set ms. admits m i)"
proof (induction ms)
  case (Cons m ms)
  with verdict [of m i] show ?case
    by (auto split: prod.splits option.splits)
qed simp

lemma run_all_stable: "map admits (snd (run_all ms i)) = map admits ms"
proof (induction ms)
  case (Cons m ms)
  with stable [of m i] show ?case by (auto split: prod.splits option.splits)
qed simp

end

text \<open>What the four middlewares accept.\<close>

fun mw_admits :: "streamMiddleware \<Rightarrow> chunk_info \<Rightarrow> bool" where
  "mw_admits RequestCancelled i = (\<not> ci_ctxErr i)"
| "mw_admits (QuotaMaxFileSize m) i = (sint (ci_totalLength i) \<le> sint m)"
| "mw_admits (NonEmpty r) i = True"
| "mw_admits GPGStream i =
     ((ci_chunkNum i = 1 \<longrightarrow> strContains (ci_buff i) gpg_header)
      \<and> (ci_previousHunkBeforeEof i \<noteq> [] \<longrightarrow> strContains (ci_previousHunkBeforeEof i @ ci_buff i) gpg_footer))"

interpretation mw: chunk_guard processor mw_admits
proof
  fix m i
  show "(fst (processor m i) = None) = mw_admits m i" by (cases m) auto
  show "mw_admits (snd (processor m i)) = mw_admits m" by (cases m) (auto simp: fun_eq_iff)
qed

lemma processChunk_run_all: "processChunk ms i = mw.run_all ms i"
  by (induction ms) (auto split: prod.splits option.splits)

lemmas processChunk_passes = mw.run_all_passes [folded processChunk_run_all]
lemmas processChunk_stable = mw.run_all_stable [folded processChunk_run_all]

section \<open>One round of the loop\<close>

definition round_total :: "read_event \<Rightarrow> copy_state \<Rightarrow> int64" where
  "round_total e s = cp_totalLength s + of_nat (length (ev_data e))"

definition round_info :: "read_event \<Rightarrow> copy_state \<Rightarrow> chunk_info" where
  "round_info e s = \<lparr>ci_buff = ev_data e, ci_totalLength = round_total e s,
     ci_previousHunkBeforeEof =
       (if ev_status e = ReadEOF
        then prev_bytes (ev_data e @ drop (length (ev_data e)) (cp_buff s)) (cp_previousBuff s) else ''''),
     ci_chunkNum = cp_chunkNum s + 1, ci_ctxErr = ev_ctxErr e\<rparr>"

text \<open>The round reads data, all middlewares accept it, and it is written.\<close>

definition accepts :: "read_event \<Rightarrow> copy_state \<Rightarrow> bool" where
  "accepts e s \<longleftrightarrow> \<not> ev_done e \<and> ev_writeErr e = None
     \<and> (\<forall>m \<in> set (cp_middlewares s). mw_admits m (round_info e s))"

definition after_round :: "read_event \<Rightarrow> copy_state \<Rightarrow> copy_state" where
  "after_round e s = s\<lparr>cp_buff := ev_data e @ drop (length (ev_data e)) (cp_buff s),
     cp_chunkNum := cp_chunkNum s + 1, cp_totalLength := round_total e s,
     cp_previousBuff := PrevOfBuff (length (ev_data e)),
     cp_middlewares := snd (processChunk (cp_middlewares s) (round_info e s)),
     cp_written := cp_written s @ ev_data e\<rparr>"

lemmas round_defs = round_total_def round_info_def accepts_def after_round_def Let_def

lemma copyLoop_eof:
  assumes "accepts e s" "ev_status e = ReadEOF"
  shows "\<exists>t. copyLoop (e # es) s = Some ((round_total e s, None), t) \<and> cp_written t = cp_written s @ ev_data e"
proof -
  have "fst (processChunk (cp_middlewares s) (round_info e s)) = None"
    using assms(1) by (simp add: accepts_def processChunk_passes)
  then show ?thesis using assms by (auto simp: round_defs split: prod.splits)
qed

lemma copyLoop_more:
  assumes "accepts e s" "ev_status e = ReadOk"
    and "checkFinalStatusAfterFilesWasUploaded (cp_middlewares (after_round e s)) = None"
  shows "copyLoop (e # es) s = copyLoop es (after_round e s)"
proof -
  have "fst (processChunk (cp_middlewares s) (round_info e s)) = None"
    using assms(1) by (simp add: accepts_def processChunk_passes)
  then show ?thesis using assms by (auto simp: round_defs split: prod.splits)
qed

lemma copyLoop_rejects:
  assumes "\<not> accepts e s \<or> (\<exists>err. ev_status e = ReadError err)" "copyLoop (e # es) s = Some (r, t)"
  shows "snd r \<noteq> None \<and> cp_written t = cp_written s"
proof (cases "ev_done e \<or> (\<exists>err. ev_status e = ReadError err)")
  case True
  then show ?thesis using assms(2) by (auto simp: Let_def split: if_splits)
next
  case False
  with assms(1) have "ev_writeErr e \<noteq> None
      \<or> fst (processChunk (cp_middlewares s) (round_info e s)) \<noteq> None"
    by (simp add: accepts_def processChunk_passes)
  with False assms(2) show ?thesis
    by (cases "ev_status e"; cases "ev_writeErr e")
      (auto simp: round_info_def round_total_def Let_def split: prod.splits option.splits)
qed

lemma copyLoop_cases:
  assumes "copyLoop (e # es) s = Some (r, t)"
  obtains (rejected) "snd r \<noteq> None" "cp_written t = cp_written s"
  | (eof) "accepts e s" "ev_status e = ReadEOF" "r = (round_total e s, None)"
      "cp_written t = cp_written s @ ev_data e"
  | (final) "accepts e s" "ev_status e = ReadOk" "snd r \<noteq> None" "cp_written t = cp_written s @ ev_data e"
  | (more) "accepts e s" "ev_status e = ReadOk" "copyLoop es (after_round e s) = Some (r, t)"
proof (cases "accepts e s \<and> (\<forall>err. ev_status e \<noteq> ReadError err)")
  case False
  with copyLoop_rejects [OF _ assms] rejected show thesis by blast
next
  case True
  then consider "ev_status e = ReadEOF" | "ev_status e = ReadOk" by (cases "ev_status e") auto
  then show thesis
  proof cases
    case 1
    with copyLoop_eof [of e s es] True assms eof show thesis by auto
  next
    case 2
    show thesis
    proof (cases "checkFinalStatusAfterFilesWasUploaded (cp_middlewares (after_round e s))")
      case None
      with copyLoop_more [of e s es] True 2 assms more show thesis by auto
    next
      case (Some err)
      have "fst (processChunk (cp_middlewares s) (round_info e s)) = None"
        using True by (simp add: accepts_def processChunk_passes)
      with True 2 Some assms final show thesis
        by (auto simp: round_defs split: prod.splits)
    qed
  qed
qed

declare copyLoop.simps(2) [simp del] mw_admits.simps [simp del]

lemma after_round_simps [simp]:
  "cp_written (after_round e s) = cp_written s @ ev_data e"
  "cp_totalLength (after_round e s) = round_total e s"
  "cp_chunkNum (after_round e s) = cp_chunkNum s + 1"
  by (simp_all add: after_round_def)

text \<open>The reader's contract: it never delivers more than the buffer holds.\<close>

definition reads_ok :: "nat \<Rightarrow> read_event list \<Rightarrow> bool" where
  "reads_ok bufferLen es \<longleftrightarrow> (\<forall>e \<in> set es. length (ev_data e) \<le> bufferLen)"

lemma after_round_admits: "mw_admits ` set (cp_middlewares (after_round e s)) = mw_admits ` set (cp_middlewares s)"
  using arg_cong [OF processChunk_stable [of "cp_middlewares s" "round_info e s"], of set]
  by (simp add: after_round_def)

lemma round_total_exact:
  assumes "sint (cp_totalLength s) = int (length (cp_written s))"
    and "int (length (cp_written s)) + int (length (ev_data e)) < 2 ^ 63"
  shows "sint (round_total e s) = int (length (cp_written s @ ev_data e))"
  using assms by (simp add: round_total_def sint_add64 sint_of_nat64)

text \<open>With a quota among the middlewares, what is written stays within it in every outcome.\<close>

lemma copyLoop_quota:
  assumes "copyLoop es s = Some (r, t)" "reads_ok bufferLen es"
    and "mw_admits (QuotaMaxFileSize m) \<in> mw_admits ` set (cp_middlewares s)"
    and "sint m + int bufferLen < 2 ^ 63"
    and "sint (cp_totalLength s) = int (length (cp_written s))" "int (length (cp_written s)) \<le> sint m"
  shows "int (length (cp_written t)) \<le> sint m
    \<and> (snd r = None \<longrightarrow> sint (fst r) = int (length (cp_written t)))"
  using assms(1-3,5,6)
proof (induction es arbitrary: s)
  case (Cons e es)
  have small: "int (length (cp_written s)) + int (length (ev_data e)) < 2 ^ 63"
    using Cons.prems(2,5) assms(4) by (force simp: reads_ok_def)
  note exact = round_total_exact [OF Cons.prems(4) small]
  have quota: "int (length (cp_written s @ ev_data e)) \<le> sint m" if acc: "accepts e s"
  proof -
    from Cons.prems(3) obtain mw where "mw \<in> set (cp_middlewares s)" "mw_admits (QuotaMaxFileSize m) = mw_admits mw"
      by blast
    with acc have "mw_admits (QuotaMaxFileSize m) (round_info e s)" by (simp add: accepts_def)
    then show ?thesis using exact by (simp add: round_info_def mw_admits.simps)
  qed
  from Cons.prems(1) show ?case
  proof (cases rule: copyLoop_cases)
    case rejected
    with Cons.prems(5) show ?thesis by auto
  next
    case eof
    with quota exact show ?thesis by simp
  next
    case final
    with quota show ?thesis by auto
  next
    case more
    show ?thesis
    proof (rule Cons.IH [OF more(3)])
      show "reads_ok bufferLen es" using Cons.prems(2) by (simp add: reads_ok_def)
      show "mw_admits (QuotaMaxFileSize m) \<in> mw_admits ` set (cp_middlewares (after_round e s))"
        using Cons.prems(3) by (simp add: after_round_admits)
    qed (use exact quota [OF more(1)] in simp_all)
  qed
qed simp

section \<open>Successful copies\<close>

text \<open>
  A copy that succeeds has accepted every chunk up to the first end of file, and has written
  exactly their concatenation.
\<close>

lemma copyLoop_success:
  assumes "copyLoop es s = Some ((n, None), t)"
  shows "\<exists>pre e post. es = pre @ e # post \<and> (\<forall>x \<in> set pre. ev_status x = ReadOk) \<and> ev_status e = ReadEOF
     \<and> accepts e (fold after_round pre s) \<and> (\<forall>x q. pre = x # q \<longrightarrow> accepts x s)
     \<and> cp_written t = cp_written s @ concat (map ev_data (pre @ [e]))"
  using assms
proof (induction es arbitrary: s)
  case (Cons e es)
  from Cons.prems show ?case
  proof (cases rule: copyLoop_cases)
    case eof
    then show ?thesis by (rule_tac x = "[]" in exI, rule_tac x = e in exI, rule_tac x = es in exI) simp
  next
    case more
    from Cons.IH [OF more(3)] obtain pre e' post where
      "es = pre @ e' # post" "\<forall>x \<in> set pre. ev_status x = ReadOk" "ev_status e' = ReadEOF"
      "accepts e' (fold after_round pre (after_round e s))"
      "cp_written t = cp_written (after_round e s) @ concat (map ev_data (pre @ [e']))"
      by blast
    with more(1,2) show ?thesis
      by (rule_tac x = "e # pre" in exI, rule_tac x = e' in exI, rule_tac x = post in exI) simp
  qed simp_all
qed simp

lemma fold_chunkNum: "cp_chunkNum (fold after_round pre s) = cp_chunkNum s + of_nat (length pre)"
  by (induction pre arbitrary: s) simp_all

lemma fold_admits:
  "mw_admits ` set (cp_middlewares (fold after_round pre s)) = mw_admits ` set (cp_middlewares s)"
  by (induction pre arbitrary: s) (simp_all add: after_round_admits)

lemma fold_previous:
  assumes "pre \<noteq> []"
  shows "cp_previousBuff (fold after_round pre s) = PrevOfBuff (length (ev_data (last pre)))"
    and "\<exists>b. cp_buff (fold after_round pre s) = ev_data (last pre) @ b"
  using assms by (induction pre rule: rev_induct) (auto simp: after_round_def)

lemma accepts_guard:
  assumes "accepts e s" "mw_admits g \<in> mw_admits ` set (cp_middlewares s)"
  shows "mw_admits g (round_info e s)"
proof -
  from assms(2) obtain m where "m \<in> set (cp_middlewares s)" "mw_admits g = mw_admits m" by blast
  with assms(1) show ?thesis by (simp add: accepts_def)
qed

text \<open>The four standard middlewares, and a stream of healthy rounds through them.\<close>

definition std_middlewares :: "int64 \<Rightarrow> int64 \<Rightarrow> streamMiddleware list" where
  "std_middlewares m r = [RequestCancelled, QuotaMaxFileSize m, NonEmpty r, GPGStream]"

definition healthy :: "read_event \<Rightarrow> bool" where
  "healthy e \<longleftrightarrow> \<not> ev_done e \<and> \<not> ev_ctxErr e \<and> ev_writeErr e = None"

lemma std_round:
  assumes "cp_middlewares s = std_middlewares m r" "healthy e" "ev_status e = ReadOk"
    and "sint (round_total e s) \<le> sint m" "0 < sint (round_total e s)"
    and "cp_chunkNum s + 1 = 1 \<longrightarrow> strContains (ev_data e) gpg_header"
  shows "copyLoop (e # es) s = copyLoop es (after_round e s)
    \<and> cp_middlewares (after_round e s) = std_middlewares m (round_total e s)"
proof -
  have acc: "accepts e s"
    using assms by (auto simp: accepts_def healthy_def std_middlewares_def round_info_def mw_admits.simps)
  have mws: "cp_middlewares (after_round e s) = std_middlewares m (round_total e s)"
    using assms by (auto simp: after_round_def std_middlewares_def round_info_def healthy_def)
  have "round_total e s \<noteq> 0" using assms(5) by auto
  then have "checkFinalStatusAfterFilesWasUploaded (cp_middlewares (after_round e s)) = None"
    by (simp add: mws std_middlewares_def)
  with copyLoop_more [OF acc assms(3)] mws show ?thesis by simp
qed

lemma std_run:
  assumes "cp_middlewares s = std_middlewares m r" "sint (cp_totalLength s) = int (length (cp_written s))"
    and "\<forall>x \<in> set pre. healthy x \<and> ev_status x = ReadOk"
    and "int (length (cp_written s @ concat (map ev_data pre))) \<le> sint m"
    and "cp_chunkNum s = of_nat k" "k + length pre < 2 ^ 63"
    and "k = 0 \<Longrightarrow> pre \<noteq> [] \<Longrightarrow> strContains (ev_data (hd pre)) gpg_header"
    and "0 < k \<Longrightarrow> cp_written s \<noteq> []"
  shows "\<exists>r'. copyLoop (pre @ rest) s = copyLoop rest (fold after_round pre s)
    \<and> cp_middlewares (fold after_round pre s) = std_middlewares m r'
    \<and> sint (cp_totalLength (fold after_round pre s)) = int (length (cp_written s @ concat (map ev_data pre)))
    \<and> cp_written (fold after_round pre s) = cp_written s @ concat (map ev_data pre)"
  using assms
proof (induction pre arbitrary: s r k)
  case (Cons e pre)
  have le: "int (length (cp_written s)) + int (length (ev_data e)) \<le> sint m" using Cons.prems(4) by simp
  then have small: "int (length (cp_written s)) + int (length (ev_data e)) < 2 ^ 63"
    using sint_range [of m] by linarith
  note exact = round_total_exact [OF Cons.prems(2) small]
  have first: "cp_chunkNum s + 1 = 1 \<longleftrightarrow> k = 0"
  proof
    assume "cp_chunkNum s + 1 = 1"
    then have "sint (of_nat k :: goint) = 0" using Cons.prems(5) by simp
    then show "k = 0" using Cons.prems(6) by (simp add: sint_of_nat64)
  qed (simp add: Cons.prems(5))
  have ne: "cp_written s @ ev_data e \<noteq> []"
  proof (cases "k = 0")
    case True
    with Cons.prems(7) show ?thesis by (auto simp: strContains_def gpg_header_def)
  next
    case False
    with Cons.prems(8) show ?thesis by simp
  qed
  have pos: "0 < sint (round_total e s)"
    unfolding exact of_nat_0_less_iff length_greater_0_conv by (rule ne)
  have round: "copyLoop (e # pre @ rest) s = copyLoop (pre @ rest) (after_round e s)"
    "cp_middlewares (after_round e s) = std_middlewares m (round_total e s)"
    using std_round [OF Cons.prems(1) _ _ _ pos, of "pre @ rest"] Cons.prems(3,7) exact le first by auto
  have w: "cp_chunkNum (after_round e s) = of_nat (Suc k)" using Cons.prems(5) by simp
  have "\<exists>r'. copyLoop (pre @ rest) (after_round e s) = copyLoop rest (fold after_round pre (after_round e s))
    \<and> cp_middlewares (fold after_round pre (after_round e s)) = std_middlewares m r'
    \<and> sint (cp_totalLength (fold after_round pre (after_round e s)))
        = int (length (cp_written (after_round e s) @ concat (map ev_data pre)))
    \<and> cp_written (fold after_round pre (after_round e s))
        = cp_written (after_round e s) @ concat (map ev_data pre)"
    by (rule Cons.IH [OF round(2), where k = "Suc k"]) (use Cons.prems exact w ne in auto)
  with round(1) show ?case by simp
qed auto

lemma CopyStream_quota:
  assumes "CopyStream es bufferLen mws = Some ((n, err), t)" and "QuotaMaxFileSize m \<in> set mws"
    and "reads_ok bufferLen es" and "0 \<le> sint m" and "sint m + int bufferLen < 2 ^ 63"
  shows "int (length (cp_written t)) \<le> sint m \<and> (err = None \<longrightarrow> sint n = int (length (cp_written t)))"
  using copyLoop_quota [OF assms(1) [unfolded CopyStream_def] assms(3) _ assms(5)] assms(2,4)
  by (simp add: copy_start_def)

lemma CopyStream_content:
  assumes "CopyStream es bufferLen mws = Some ((n, None), t)"
  shows "\<exists>pre e post. es = pre @ e # post \<and> (\<forall>x \<in> set pre. ev_status x = ReadOk) \<and> ev_status e = ReadEOF
     \<and> cp_written t = concat (map ev_data (pre @ [e]))"
  using copyLoop_success [OF assms [unfolded CopyStream_def]] by (auto simp: copy_start_def)

section \<open>Properties\<close>

text \<open>
  C12. The quota holds in every outcome. Whatever the reader, the writer and the context do, and
  whether the copy succeeds or fails, the bytes handed to the storage never exceed the quota;
  and a copy that succeeds reports exactly the number of bytes it has written.
\<close>

theorem quota_never_exceeded:
  assumes "CopyStream es bufferLen mws = Some ((n, err), t)" and "QuotaMaxFileSize m \<in> set mws"
    and "reads_ok bufferLen es" and "0 \<le> sint m" and "sint m + int bufferLen < 2 ^ 63"
  shows "int (length (cp_written t)) \<le> sint m \<and> (err = None \<longrightarrow> sint n = int (length (cp_written t)))"
  using CopyStream_quota [OF assms] .

text \<open>Concrete rounds: a chunk that is read and written, and the end of the stream.\<close>

definition chunk :: "bytes \<Rightarrow> read_event" where
  "chunk d = \<lparr>ev_done = False, ev_data = d, ev_status = ReadOk, ev_ctxErr = False, ev_writeErr = None\<rparr>"

definition stream_end :: read_event where
  "stream_end = \<lparr>ev_done = False, ev_data = '''', ev_status = ReadEOF, ev_ctxErr = False, ev_writeErr = None\<rparr>"

theorem quota_never_exceeded_witness:
  "\<exists>n t. CopyStream [chunk ''hello'', chunk ''world'', stream_end] 8 [QuotaMaxFileSize 7]
      = Some ((n, Some (''filesize reached allowed limit. Uploaded 10 bytes, allowed to upload only 7 bytes'')), t)
     \<and> int (length (cp_written t)) \<le> 7"
proof -
  have i: "itoa 10 = ''10''" "itoa 7 = ''7''" by code_simp+
  obtain n t where c: "CopyStream [chunk ''hello'', chunk ''world'', stream_end] 8 [QuotaMaxFileSize 7]
      = Some ((n, Some (''filesize reached allowed limit. Uploaded 10 bytes, allowed to upload only 7 bytes'')), t)"
    by (simp add: CopyStream_def copyLoop.simps chunk_def copy_start_def Let_def i)
  have "reads_ok 8 [chunk ''hello'', chunk ''world'', stream_end]"
    by (simp add: reads_ok_def chunk_def stream_end_def)
  from quota_never_exceeded [OF c _ this] c show ?thesis by auto
qed

text \<open>
  What an accepted upload has stored. A copy that succeeds has written exactly the
  concatenation of all chunks up to the end of the stream, in order; with the GPG middleware the
  first chunk contains the whole header, and if the stream ends with an empty read after a
  non-empty chunk, that last chunk alone contains the whole footer.
\<close>

theorem accepted_upload_content:
  assumes "CopyStream es bufferLen mws = Some ((n, None), t)" and "GPGStream \<in> set mws"
  shows "\<exists>pre e post. es = pre @ e # post \<and> (\<forall>x \<in> set pre. ev_status x = ReadOk) \<and> ev_status e = ReadEOF
     \<and> cp_written t = concat (map ev_data (pre @ [e]))
     \<and> strContains (ev_data (hd (pre @ [e]))) gpg_header
     \<and> (pre \<noteq> [] \<and> ev_data (last pre) \<noteq> [] \<and> ev_data e = [] \<longrightarrow> strContains (ev_data (last pre)) gpg_footer)"
proof -
  let ?s = "copy_start bufferLen mws"
  from copyLoop_success [OF assms(1) [unfolded CopyStream_def]] obtain pre e post where
    es: "es = pre @ e # post" "\<forall>x \<in> set pre. ev_status x = ReadOk" "ev_status e = ReadEOF"
    and acc: "accepts e (fold after_round pre ?s)" "\<forall>x q. pre = x # q \<longrightarrow> accepts x ?s"
    and wr: "cp_written t = concat (map ev_data (pre @ [e]))"
    by (auto simp: copy_start_def)
  have gpg: "mw_admits GPGStream \<in> mw_admits ` set (cp_middlewares ?s)"
    using assms(2) by (simp add: copy_start_def)
  have header: "strContains (ev_data (hd (pre @ [e]))) gpg_header"
  proof (cases pre)
    case Nil
    with acc(1) have "accepts e ?s" by simp
    from accepts_guard [OF this gpg] Nil show ?thesis
      by (simp add: mw_admits.simps round_info_def copy_start_def)
  next
    case (Cons x q)
    with acc(2) have "accepts x ?s" by blast
    from accepts_guard [OF this gpg] Cons show ?thesis
      by (simp add: mw_admits.simps round_info_def copy_start_def)
  qed
  have footer: "strContains (ev_data (last pre)) gpg_footer"
    if "pre \<noteq> []" "ev_data (last pre) \<noteq> []" "ev_data e = []"
    using accepts_guard [OF acc(1), unfolded fold_admits, OF gpg] es(3) that fold_previous [OF that(1), of ?s]
    by (auto simp: mw_admits.simps round_info_def)
  from es wr header footer show ?thesis by blast
qed

theorem accepted_upload_content_witness:
  "\<exists>n t. CopyStream [chunk (gpg_header @ gpg_footer), stream_end] 64 [GPGStream] = Some ((n, None), t)
     \<and> cp_written t = gpg_header @ gpg_footer"
proof -
  have c: "strContains (gpg_header @ gpg_footer) gpg_header" "strContains (gpg_header @ gpg_footer) gpg_footer"
    "gpg_header @ gpg_footer \<noteq> []"
    by (simp_all add: strContains_def) (simp add: gpg_header_def)
  obtain n t where r: "CopyStream [chunk (gpg_header @ gpg_footer), stream_end] 64 [GPGStream] = Some ((n, None), t)"
    using c by (simp add: CopyStream_def copyLoop.simps chunk_def stream_end_def copy_start_def Let_def)
  from accepted_upload_content [OF r] obtain pre e post where p:
    "[chunk (gpg_header @ gpg_footer), stream_end] = pre @ e # post" "\<forall>x \<in> set pre. ev_status x = ReadOk"
    "ev_status e = ReadEOF" "cp_written t = concat (map ev_data (pre @ [e]))" by auto
  then have "pre = [chunk (gpg_header @ gpg_footer)] \<and> e = stream_end"
    by (cases pre) (auto simp: chunk_def Cons_eq_append_conv)
  with p r show ?thesis by (simp add: chunk_def stream_end_def)
qed

text \<open>
  C40. A footer that two reads split is not found. When the stream ends with an empty read, an
  upload whose last chunk does not contain the whole footer is never accepted, even if the
  uploaded content as a whole contains it: which uploads are accepted depends on how the
  network cuts the stream into chunks.
\<close>

theorem split_footer_rejected:
  assumes "CopyStream (pre @ [c, e]) bufferLen mws = Some ((n, err), t)" and "GPGStream \<in> set mws"
    and "\<forall>x \<in> set pre. ev_status x = ReadOk" and "ev_status c = ReadOk" and "ev_status e = ReadEOF"
    and "ev_data e = ''''" and "ev_data c \<noteq> ''''" and "\<not> strContains (ev_data c) gpg_footer"
  shows "err \<noteq> None"
proof
  assume "err = None"
  from copyLoop_success [OF assms(1) [unfolded this CopyStream_def]] obtain p e' q where
    p: "pre @ [c, e] = p @ e' # q" "\<forall>x \<in> set p. ev_status x = ReadOk" "ev_status e' = ReadEOF"
    and acc: "accepts e' (fold after_round p (copy_start bufferLen mws))"
    by blast
  have "q = []"
  proof (rule ccontr)
    assume "q \<noteq> []"
    then have "e' \<in> set (butlast (pre @ [c, e]))" unfolding p(1) by (simp add: butlast_append)
    then show False using assms(3,4) p(3) by (auto simp: butlast_append)
  qed
  with p(1) have "(pre @ [c]) @ [e] = p @ [e']" by simp
  then have pe: "p = pre @ [c]" "e' = e" by blast+
  have gpg: "mw_admits GPGStream \<in> mw_admits ` set (cp_middlewares (copy_start bufferLen mws))"
    using assms(2) by (simp add: copy_start_def)
  from accepts_guard [OF acc, unfolded fold_admits, OF gpg] show False
    using fold_previous [of p "copy_start bufferLen mws"] assms(5-8) pe
    by (auto simp: mw_admits.simps round_info_def)
qed

theorem split_footer_rejected_witness:
  "\<exists>n t err. strContains (gpg_header @ ''-----END PGP'' @ '' MESSAGE'') gpg_footer
     \<and> CopyStream [chunk (gpg_header @ ''-----END PGP''), chunk '' MESSAGE'', stream_end] 64 [GPGStream]
       = Some ((n, Some err), t)"
proof -
  have s: "\<not> strContains '' MESSAGE'' gpg_footer"
    by (auto simp: strContains_def gpg_footer_def dest: sublist_length_le)
  have w: "strContains (gpg_header @ ''-----END PGP'' @ '' MESSAGE'') gpg_footer"
    by (simp add: strContains_def gpg_footer_def)
  have h: "strContains (gpg_header @ ''-----END PGP'') gpg_header" by (simp add: strContains_def)
  obtain n err t where r: "CopyStream ([chunk (gpg_header @ ''-----END PGP'')] @ [chunk '' MESSAGE'', stream_end])
      64 [GPGStream] = Some ((n, err), t)"
    using h s by (auto simp: CopyStream_def copyLoop.simps chunk_def stream_end_def copy_start_def Let_def)
  have "err \<noteq> None"
    by (rule split_footer_rejected [OF r]) (use s in \<open>simp_all add: chunk_def stream_end_def\<close>)
  with w r show ?thesis by auto
qed

text \<open>
  C19. Valid uploads are accepted. With the standard middlewares, a stream of non-failing reads
  that is not cancelled, stays within the quota, has the GPG header in its first chunk and the
  footer in its last chunk and then ends is copied completely and successfully.
\<close>

theorem valid_upload_accepted:
  assumes "\<forall>x \<in> set pre. healthy x \<and> ev_status x = ReadOk" and "pre \<noteq> []"
    and "healthy e" and "ev_status e = ReadEOF" and "ev_data e = ''''"
    and "strContains (ev_data (hd pre)) gpg_header" and "strContains (ev_data (last pre)) gpg_footer"
    and "int (length (concat (map ev_data pre))) \<le> sint m" and "length pre < 2 ^ 63"
  shows "\<exists>n t. CopyStream (pre @ e # post) bufferLen
        [createRequestCancelledMiddleware, createQuotaMaxFileSizeMiddleware m,
         createNonEmptyMiddleware, createGPGStreamMiddleware] = Some ((n, None), t)
     \<and> cp_written t = concat (map ev_data pre) \<and> sint n = int (length (concat (map ev_data pre)))"
proof -
  let ?s = "copy_start bufferLen (std_middlewares m 0)" and ?f = "fold after_round pre (copy_start bufferLen (std_middlewares m 0))"
  have run: "\<exists>r'. copyLoop (pre @ e # post) ?s = copyLoop (e # post) ?f
    \<and> cp_middlewares ?f = std_middlewares m r'
    \<and> sint (cp_totalLength ?f) = int (length (cp_written ?s @ concat (map ev_data pre)))
    \<and> cp_written ?f = cp_written ?s @ concat (map ev_data pre)"
    by (rule std_run [where k = 0]) (use assms in \<open>auto simp: copy_start_def\<close>)
  then obtain r' where f: "copyLoop (pre @ e # post) ?s = copyLoop (e # post) ?f"
    "cp_middlewares ?f = std_middlewares m r'" "sint (cp_totalLength ?f) = int (length (concat (map ev_data pre)))"
    "cp_written ?f = concat (map ev_data pre)"
    by (auto simp: copy_start_def)
  have tot: "round_total e ?f = cp_totalLength ?f" by (simp add: round_total_def assms(5))
  have "cp_chunkNum ?f + 1 \<noteq> 1"
  proof
    assume "cp_chunkNum ?f + 1 = 1"
    then have "(of_nat (length pre) :: goint) = 0" by (simp add: fold_chunkNum copy_start_def)
    then have "sint (of_nat (length pre) :: goint) = 0" by simp
    then show False using assms(2,9) by (simp add: sint_of_nat64)
  qed
  then have "accepts e ?f"
    using assms fold_previous [OF assms(2), of ?s] f(2,3) tot
    by (auto simp: accepts_def healthy_def std_middlewares_def mw_admits.simps round_info_def)
  from copyLoop_eof [OF this assms(4), of post] f tot assms(5) show ?thesis
    by (auto simp: CopyStream_def std_middlewares_def createRequestCancelledMiddleware_def
        createQuotaMaxFileSizeMiddleware_def createNonEmptyMiddleware_def createGPGStreamMiddleware_def)
qed

theorem valid_upload_accepted_witness:
  "\<exists>n t. CopyStream ([chunk gpg_header, chunk gpg_footer] @ stream_end # []) 64
        [createRequestCancelledMiddleware, createQuotaMaxFileSizeMiddleware 100,
         createNonEmptyMiddleware, createGPGStreamMiddleware] = Some ((n, None), t)
     \<and> cp_written t = gpg_header @ gpg_footer"
proof -
  have "strContains gpg_header gpg_header" "strContains gpg_footer gpg_footer" by (simp_all add: strContains_def)
  moreover have "int (length (concat (map ev_data [chunk gpg_header, chunk gpg_footer]))) \<le> sint (100::int64)"
    by (simp add: chunk_def gpg_header_def gpg_footer_def)
  ultimately show ?thesis
    using valid_upload_accepted [of "[chunk gpg_header, chunk gpg_footer]" stream_end 100 "[]" 64]
    by (auto simp: chunk_def stream_end_def healthy_def)
qed

text \<open>
  The check for empty data does not see an empty upload. The final check only runs after
  a read that delivered data without an end of file, so a stream that ends at its first read
  without any data passes \<open>createNonEmptyMiddleware\<close> and succeeds with zero bytes.
\<close>

theorem empty_upload_passes_non_empty_check:
  "\<exists>t. CopyStream [stream_end] bufferLen [createRequestCancelledMiddleware, createNonEmptyMiddleware]
      = Some ((0, None), t) \<and> cp_written t = ''''"
  by (simp add: CopyStream_def copyLoop.simps stream_end_def copy_start_def Let_def
      createNonEmptyMiddleware_def createRequestCancelledMiddleware_def)

end
