(* ===== verification/Storage.thy ===== *)
theory Storage
  imports Rotation Stream_Copy
begin

text \<open>
  The storage service: \<open>pkg/storage/repository.go\<close>, \<open>pkg/storage/service.go\<close> and \<open>UploadFile\<close>
  of \<open>pkg/storage/io.go\<close>.

  The statements on the table of versions (\<open>ver_sql\<close>) and the operations of the object storage
  (\<open>bucket\<close>) are parameters over an arbitrary world; \<open>versions_ok\<close>, \<open>lookups_ok\<close> and \<open>bucket_ok\<close>
  state what the code relies on. Generated identifiers and clock readings are arguments.
\<close>

section \<open>The repository (repository.go)\<close>

text \<open>
  The six statements, all on rows that are not soft-deleted: the highest version number of a
  collection (0 when it has none), its versions by descending number, deleting by id, inserting,
  the version of a collection with a number given as text (the zero value when there is none),
  and its versions in any order. A slice that gorm returns may have spare capacity.
\<close>

record 'w ver_sql =
  sql_ver_max :: "string \<Rightarrow> 'w \<Rightarrow> goint result"
  sql_ver_all :: "string \<Rightarrow> 'w \<Rightarrow> UploadedVersion go_slice result"
  sql_ver_delete :: "string \<Rightarrow> 'w \<Rightarrow> error option \<times> 'w"
  sql_ver_create :: "UploadedVersion \<Rightarrow> 'w \<Rightarrow> error option \<times> 'w"
  sql_ver_by_num :: "string \<Rightarrow> string \<Rightarrow> 'w \<Rightarrow> UploadedVersion result"
  sql_ver_active :: "string \<Rightarrow> 'w \<Rightarrow> UploadedVersion list result"

definition findLastHighestVersionNumber :: "'w ver_sql \<Rightarrow> string \<Rightarrow> 'w \<Rightarrow> goint result" where
  "findLastHighestVersionNumber vr collectionId w =
     (case sql_ver_max vr collectionId w of Inl err \<Rightarrow> Inl err | Inr maxNum \<Rightarrow> Inr maxNum)"

definition findAllVersionsForCollectionId :: "'w ver_sql \<Rightarrow> string \<Rightarrow> 'w \<Rightarrow> UploadedVersion go_slice result" where
  "findAllVersionsForCollectionId vr collectionId w =
     (case sql_ver_all vr collectionId w of Inl err \<Rightarrow> Inl err | Inr foundVersions \<Rightarrow> Inr foundVersions)"

definition ver_delete :: "'w ver_sql \<Rightarrow> UploadedVersion \<Rightarrow> 'w \<Rightarrow> error option \<times> 'w" where
  "ver_delete vr version w = sql_ver_delete vr (uv_Id version) w"

definition ver_create :: "'w ver_sql \<Rightarrow> UploadedVersion \<Rightarrow> 'w \<Rightarrow> error option \<times> 'w" where
  "ver_create vr version w = sql_ver_create vr version w"

definition getByVersionNum :: "'w ver_sql \<Rightarrow> string \<Rightarrow> string \<Rightarrow> 'w \<Rightarrow> UploadedVersion result" where
  "getByVersionNum vr i versionNum w = sql_ver_by_num vr i versionNum w"

definition findAllActiveVersions :: "'w ver_sql \<Rightarrow> string \<Rightarrow> 'w \<Rightarrow> UploadedVersion list result" where
  "findAllActiveVersions vr i w = sql_ver_active vr i w"

section \<open>The object storage\<close>

text \<open>
  A writer is opened on a path, receives the content of the copy and commits it when it is
  closed. \<open>bk_CloseNil\<close> and \<open>bk_CloseNilReader\<close> are what closing the nil writer or reader of a
  failed open does; a nil pointer instead of attributes is \<open>None\<close>.
\<close>

record 'w bucket =
  bk_NewWriter :: "string \<Rightarrow> 'w \<Rightarrow> error option \<times> 'w"
  bk_CloseNil :: "unit outcome"
  bk_CloseWriter :: "string \<Rightarrow> bytes \<Rightarrow> 'w \<Rightarrow> 'w"
  bk_Exists :: "string \<Rightarrow> 'w \<Rightarrow> bool \<times> error option"
  bk_Attributes :: "string \<Rightarrow> 'w \<Rightarrow> int64 option"
  bk_Delete :: "string \<Rightarrow> 'w \<Rightarrow> error option \<times> 'w"
  bk_NewReader :: "string \<Rightarrow> 'w \<Rightarrow> bytes result"
  bk_CloseNilReader :: "unit outcome"
  bk_WriteAll :: "string \<Rightarrow> bytes \<Rightarrow> 'w \<Rightarrow> error option \<times> 'w"
  bk_ReadAll :: "string \<Rightarrow> 'w \<Rightarrow> bytes result"

record 'w storage_Service =
  st_storage :: "'w bucket"
  st_repository :: "'w ver_sql"
  st_HealthTimeout :: duration
  st_IOTimeout :: duration

section \<open>Versions (service.go)\<close>

definition FindNextVersionForCollectionId :: "'w storage_Service \<Rightarrow> string \<Rightarrow> 'w \<Rightarrow> goint result" where
  "FindNextVersionForCollectionId s name w =
     (case findLastHighestVersionNumber (st_repository s) name w of
        Inl err \<Rightarrow> Inl err
      | Inr lastHigherVersion \<Rightarrow> Inr (lastHigherVersion + 1))"

definition CreateNewVersionFromCollection ::
    "'w storage_Service \<Rightarrow> string \<Rightarrow> Collection \<Rightarrow> string \<Rightarrow> string \<Rightarrow> int64 \<Rightarrow> 'w \<Rightarrow> UploadedVersion result" where
  "CreateNewVersionFromCollection s newId c uploader uploaderSessionId filesize w =
     (case FindNextVersionForCollectionId s (om_Name (c_Metadata c)) w of
        Inl err \<Rightarrow> Inl err
      | Inr nextVersion \<Rightarrow> Inr \<lparr>
          uv_Id = newId, uv_CollectionId = om_Name (c_Metadata c), uv_VersionNumber = nextVersion,
          uv_Filename = GenerateNextVersionFilename c nextVersion, uv_Filesize = filesize,
          uv_UploadedBySessionId = uploaderSessionId, uv_Uploader = uploader,
          uv_CreatedAt = zero_time, uv_UpdatedAt = zero_time, uv_DeletedAt = None\<rparr>)"

definition CreateRotationStrategyCase ::
    "'w storage_Service \<Rightarrow> Collection \<Rightarrow> 'w \<Rightarrow> FifoRotationStrategy result" where
  "CreateRotationStrategyCase s c w =
     (case findAllVersionsForCollectionId (st_repository s) (om_Name (c_Metadata c)) w of
        Inl err \<Rightarrow> Inl (''cannot construct rotation strategy, cannot findAllVersionsForCollectionId, error: '' @ err)
      | Inr foundVersions \<Rightarrow>
          (if cs_StrategyName (c_Spec c) = ''fifo'' then Inr (NewFifoRotationStrategy c foundVersions)
           else Inl (''collection configuration error: unrecognized backup strategy type ''
             @ quoted (cs_StrategyName (c_Spec c)))))"

definition Delete :: "'w storage_Service \<Rightarrow> UploadedVersion \<Rightarrow> 'w \<Rightarrow> error list \<times> 'w" where
  "Delete s version w =
     (let (dbErr, w1) = ver_delete (st_repository s) version w;
          errs1 = (case dbErr of
             None \<Rightarrow> []
           | Some err \<Rightarrow>
               if \<not> strContains err ''code=NotFound''
               then [''cannot delete version from database - id='' @ uv_Id version @ '', version=''
                 @ itoa (sint (uv_VersionNumber version)) @ '', error='' @ err]
               else []);
          (stErr, w2) = bk_Delete (st_storage s) (GetTargetPath version) w1;
          errs2 = (case stErr of
             None \<Rightarrow> []
           | Some err \<Rightarrow> [''cannot delete from storage at path '' @ quoted (GetTargetPath version) @ '', error: '' @ err])
      in (errs1 @ errs2, w2))"

text \<open>Every version is attempted, whatever happens to the others.\<close>

fun CleanUpOlderVersions :: "'w storage_Service \<Rightarrow> UploadedVersion list \<Rightarrow> 'w \<Rightarrow> bool \<times> 'w" where
  "CleanUpOlderVersions s [] w = (False, w)"
| "CleanUpOlderVersions s (version # versions) w =
     (let (errs, w1) = Delete s version w;
          (isError, w2) = CleanUpOlderVersions s versions w1
      in (length errs > 0 \<or> isError, w2))"

definition RegisterVersion :: "'w storage_Service \<Rightarrow> UploadedVersion \<Rightarrow> 'w \<Rightarrow> error option \<times> 'w" where
  "RegisterVersion s version w = ver_create (st_repository s) version w"

section \<open>Quotas (service.go)\<close>

fun contains :: "string list \<Rightarrow> string \<Rightarrow> bool" where
  "contains [] e = False"
| "contains (a # s) e = (if a = e then True else contains s e)"

fun allocatedAbove :: "int64 \<Rightarrow> string list \<Rightarrow> UploadedVersion list \<Rightarrow> int64 \<Rightarrow> int64" where
  "allocatedAbove maxOneVersionSize ids [] allocated = allocated"
| "allocatedAbove maxOneVersionSize ids (version # existing) allocated =
     (if contains ids (uv_Id version) then allocatedAbove maxOneVersionSize ids existing allocated
      else if sint maxOneVersionSize < sint (uv_Filesize version)
      then allocatedAbove maxOneVersionSize ids existing (allocated + (uv_Filesize version - maxOneVersionSize))
      else allocatedAbove maxOneVersionSize ids existing allocated)"

definition CalculateAllocatedSpaceAboveSingleVersionLimit ::
    "collections_lib \<Rightarrow> Collection \<Rightarrow> UploadedVersion list \<Rightarrow> UploadedVersion list \<Rightarrow> int64 result" where
  "CalculateAllocatedSpaceAboveSingleVersionLimit L c existing excluding =
     (case GetMaxOneVersionSizeInBytes L c of
        Inl err \<Rightarrow> Inl (''cannot calculate allocated space above single version limit in collection, error: '' @ err)
      | Inr maxOneVersionSize \<Rightarrow> Inr (allocatedAbove maxOneVersionSize (map uv_Id excluding) existing 0))"

definition CalculateMaximumAllowedUploadFilesize ::
    "collections_lib \<Rightarrow> 'w storage_Service \<Rightarrow> Collection \<Rightarrow> UploadedVersion list \<Rightarrow> 'w \<Rightarrow> int64 result" where
  "CalculateMaximumAllowedUploadFilesize L s c excluding w =
     (case GetEstimatedCollectionExtraSpace L c of
        Inl err \<Rightarrow> Inl (''cannot calculate maximum allowed filesize for upload: '' @ err)
      | Inr maxExtraSpace \<Rightarrow>
          (case GetMaxOneVersionSizeInBytes L c of
             Inl err \<Rightarrow> Inl (''cannot calculate maximum allowed filesize for upload: '' @ err)
           | Inr maxOneVersionSize \<Rightarrow>
               if maxExtraSpace = 0 then Inr maxOneVersionSize
               else
                 (case findAllVersionsForCollectionId (st_repository s) (Collection_GetId c) w of
                    Inl err \<Rightarrow> Inl (''cannot calculate maximum allowed filesize for upload: '' @ err)
                  | Inr current \<Rightarrow>
                      (case CalculateAllocatedSpaceAboveSingleVersionLimit L c (sl_elems current) excluding of
                         Inl err \<Rightarrow> Inl (''cannot calculate maximum allowed filesize for upload: '' @ err)
                       | Inr usedExtraSpace \<Rightarrow>
                           (let remainedExtraSpace = maxExtraSpace - usedExtraSpace in
                            if sint remainedExtraSpace < 0
                            then Inl ''weird thing happened, maxExtraSpace-usedExtraSpace gave minus result. Corrupted collection''
                            else Inr (remainedExtraSpace + maxOneVersionSize))))))"

definition CreateStandardMiddleWares ::
    "collections_lib \<Rightarrow> 'w storage_Service \<Rightarrow> UploadedVersion list \<Rightarrow> Collection \<Rightarrow> 'w \<Rightarrow> streamMiddleware list result" where
  "CreateStandardMiddleWares L s versionsToDelete c w =
     (case CalculateMaximumAllowedUploadFilesize L s c versionsToDelete w of
        Inl err \<Rightarrow> Inl (''cannot construct standard middlewares, error: '' @ err)
      | Inr maxAllowedFilesize \<Rightarrow>
          Inr [createRequestCancelledMiddleware, createQuotaMaxFileSizeMiddleware maxAllowedFilesize,
               createNonEmptyMiddleware, createGPGStreamMiddleware])"

section \<open>Lookup, reading and the storage probe (service.go)\<close>

definition GetVersionByNum :: "'w storage_Service \<Rightarrow> string \<Rightarrow> string \<Rightarrow> 'w \<Rightarrow> UploadedVersion result" where
  "GetVersionByNum s collectionId version w =
     (if version = ''latest''
      then (case findLastHighestVersionNumber (st_repository s) collectionId w of
              Inl err \<Rightarrow> Inl ''cannot find version. probably the collection is empty''
            | Inr v \<Rightarrow> getByVersionNum (st_repository s) collectionId (TrimPrefix (itoa (sint v)) ''v'') w)
      else getByVersionNum (st_repository s) collectionId (TrimPrefix version ''v'') w)"

definition FindLatestVersion :: "'w storage_Service \<Rightarrow> string \<Rightarrow> 'w \<Rightarrow> UploadedVersion result" where
  "FindLatestVersion s collectionId w =
     (case findLastHighestVersionNumber (st_repository s) collectionId w of
        Inl err \<Rightarrow> Inl err
      | Inr latestVersion \<Rightarrow> getByVersionNum (st_repository s) collectionId (itoa (sint latestVersion)) w)"

definition ReadFile :: "'w storage_Service \<Rightarrow> string \<Rightarrow> 'w \<Rightarrow> bytes result" where
  "ReadFile s path w = bk_NewReader (st_storage s) path w"

definition FindAllActiveVersionsFor :: "'w storage_Service \<Rightarrow> string \<Rightarrow> 'w \<Rightarrow> UploadedVersion list result" where
  "FindAllActiveVersionsFor s i w = findAllActiveVersions (st_repository s) i w"

text \<open>The two clock readings of the probe are arguments (nanoseconds, and then seconds).\<close>

definition TestReadWrite :: "'w storage_Service \<Rightarrow> time \<Rightarrow> time \<Rightarrow> 'w \<Rightarrow> error option \<times> 'w" where
  "TestReadWrite s nowNano nowUnix w =
     (let healthKey = ''.health-'' @ itoa nowNano; healthSecret = ''secret-'' @ itoa nowUnix in
      case bk_WriteAll (st_storage s) healthKey healthSecret w of
        (Some err, w1) \<Rightarrow> (Some err, w1)
      | (None, w1) \<Rightarrow>
          (case bk_ReadAll (st_storage s) healthKey w1 of
             Inl err \<Rightarrow> (Some err, w1)
           | Inr read \<Rightarrow>
               if read \<noteq> healthSecret
               then (Some ''cannot verify storage read&write - wrote a text, but read a different text'', w1)
               else (case bk_Delete (st_storage s) healthKey w1 of
                       (Some err, w2) \<Rightarrow> (Some err, w2)
                     | (None, w2) \<Rightarrow> (None, w2))))"

section \<open>Uploading (io.go)\<close>

definition io_buffer_len :: nat where "io_buffer_len = 1024 * 1024"

text \<open>
  The deferred close of the writer runs on every way out, before the context is cancelled, so it
  also commits what a failed copy has written so far. The error of \<open>Attributes\<close> is not looked at.
\<close>

definition UploadFile ::
    "'w storage_Service \<Rightarrow> read_event list \<Rightarrow> UploadedVersion \<Rightarrow> streamMiddleware list \<Rightarrow> 'w \<Rightarrow>
     ((int64 \<times> error option) outcome \<times> 'w) option" where
  "UploadFile s inputStream version middlewares w =
     (let B = st_storage s; path = GetTargetPath version in
      case bk_NewWriter B path w of
        (Some err, w1) \<Rightarrow>
          Some (bind_outcome (bk_CloseNil B) (\<lambda>_. Return (0,
            Some (''cannot upload file, attempted to open a writable stream, error: '' @ err))), w1)
      | (None, w1) \<Rightarrow>
          (case CopyStream inputStream io_buffer_len middlewares of
             None \<Rightarrow> None
           | Some ((wroteLen, Some writeErr), st) \<Rightarrow>
               Some (Return (wroteLen, Some (''cannot upload file, cannot copy stream, error: '' @ writeErr)),
                     bk_CloseWriter B path (cp_written st) w1)
           | Some ((wroteLen, None), st) \<Rightarrow>
               (let w2 = bk_CloseWriter B path (cp_written st) w1; (exists, err) = bk_Exists B path w2 in
                if \<not> exists \<or> err \<noteq> None then Some (Return (wroteLen, Some ''storage error''), w2)
                else (case bk_Attributes B path w2 of
                        None \<Rightarrow> Some (Panic ''invalid memory address or nil pointer dereference'', w2)
                      | Some sz \<Rightarrow>
                          if sz \<noteq> wroteLen then Some (Return (wroteLen, Some ''storage error''), w2)
                          else Some (Return (wroteLen, None), w2)))))"

section \<open>What the code relies on of the table and the storage\<close>

text \<open>\<open>V w\<close> are the rows that are not soft-deleted.\<close>

definition versions_of :: "string \<Rightarrow> UploadedVersion list \<Rightarrow> UploadedVersion list" where
  "versions_of cid vs = filter (\<lambda>v. uv_CollectionId v = cid) vs"

definition highest :: "UploadedVersion list \<Rightarrow> int" where
  "highest vs = (if vs = [] then 0 else Max (version_key ` set vs))"

definition versions_ok :: "'w ver_sql \<Rightarrow> ('w \<Rightarrow> UploadedVersion list) \<Rightarrow> bool" where
  "versions_ok S V \<longleftrightarrow>
     (\<forall>cid w sl. sql_ver_all S cid w = Inr sl \<longrightarrow> mset (sl_elems sl) = mset (versions_of cid (V w)))
   \<and> (\<forall>cid w n. sql_ver_max S cid w = Inr n \<longrightarrow> sint n = highest (versions_of cid (V w)))
   \<and> (\<forall>i w w'. sql_ver_delete S i w = (None, w') \<longrightarrow> V w' = filter (\<lambda>v. uv_Id v \<noteq> i) (V w))
   \<and> (\<forall>i w e w'. sql_ver_delete S i w = (Some e, w') \<longrightarrow> V w' = V w)
   \<and> (\<forall>v w w'. sql_ver_create S v w = (None, w') \<longrightarrow>
        uv_Id v \<notin> uv_Id ` set (V w)
        \<and> (\<exists>c u. V w' = V w @ [v\<lparr>uv_CreatedAt := c, uv_UpdatedAt := u\<rparr>]))
   \<and> (\<forall>v w e w'. sql_ver_create S v w = (Some e, w') \<longrightarrow> V w' = V w)
   \<and> (\<forall>cid num w v. sql_ver_by_num S cid num w = Inr v \<longrightarrow> uv_Id v \<noteq> '''' \<longrightarrow>
        v \<in> set (versions_of cid (V w)) \<and> atoi num = Some (version_key v))"

lemma versions_okD:
  assumes "versions_ok S V"
  shows "sql_ver_all S cid w = Inr sl \<Longrightarrow> mset (sl_elems sl) = mset (versions_of cid (V w))"
    and "sql_ver_max S cid w = Inr n \<Longrightarrow> sint n = highest (versions_of cid (V w))"
    and "sql_ver_delete S i w = (None, w') \<Longrightarrow> V w' = filter (\<lambda>v. uv_Id v \<noteq> i) (V w)"
    and "sql_ver_delete S i w = (Some e, w') \<Longrightarrow> V w' = V w"
    and "sql_ver_create S v w = (None, w') \<Longrightarrow> uv_Id v \<notin> uv_Id ` set (V w)
        \<and> (\<exists>c u. V w' = V w @ [v\<lparr>uv_CreatedAt := c, uv_UpdatedAt := u\<rparr>])"
    and "sql_ver_create S v w = (Some e, w') \<Longrightarrow> V w' = V w"
    and "sql_ver_by_num S cid num w = Inr v \<Longrightarrow> uv_Id v \<noteq> '''' \<Longrightarrow>
        v \<in> set (versions_of cid (V w)) \<and> atoi num = Some (version_key v)"
  using assms unfolding versions_ok_def by (elim conjE, meson)+

text \<open>
  What the readers of the table answer: a listing has the rows of the collection, a lookup by
  number has a row of the collection with that number, or, since gorm's \<open>Find\<close> does not report a
  missing row, the zero value of the struct when there is none.
\<close>

definition zero_UploadedVersion :: UploadedVersion where
  "zero_UploadedVersion = \<lparr>uv_Id = '''', uv_CollectionId = '''', uv_VersionNumber = 0, uv_Filename = '''', uv_Filesize = 0,
     uv_UploadedBySessionId = '''', uv_Uploader = '''', uv_CreatedAt = zero_time, uv_UpdatedAt = zero_time,
     uv_DeletedAt = None\<rparr>"

definition lookups_ok :: "'w ver_sql \<Rightarrow> ('w \<Rightarrow> UploadedVersion list) \<Rightarrow> bool" where
  "lookups_ok S V \<longleftrightarrow>
     (\<forall>cid w vs. sql_ver_active S cid w = Inr vs \<longrightarrow> mset vs = mset (versions_of cid (V w)))
   \<and> (\<forall>cid num w v. sql_ver_by_num S cid num w = Inr v \<longrightarrow>
        v \<in> set (versions_of cid (V w)) \<and> atoi num = Some (version_key v)
        \<or> v = zero_UploadedVersion \<and> (\<forall>x \<in> set (versions_of cid (V w)). atoi num \<noteq> Some (version_key x)))"

lemma zero_UploadedVersion_path: "GetTargetPath zero_UploadedVersion = ''/''"
  by (simp add: GetTargetPath_def zero_UploadedVersion_def)

text \<open>The number that a download asks for: the highest one for \<open>latest\<close>, else the one that is written.\<close>

definition asked_number :: "string \<Rightarrow> UploadedVersion list \<Rightarrow> int option" where
  "asked_number num vs = (if num = ''latest'' then Some (highest vs) else atoi (TrimPrefix num ''v''))"

lemma TrimPrefix_itoa: "TrimPrefix (itoa i) ''v'' = itoa i"
proof -
  have "CHR ''v'' \<notin> set (itoa i)" using itoa_chars [of "CHR ''v''" i] by (auto simp: is_digit_def)
  then show ?thesis by (cases "itoa i") (auto simp: TrimPrefix_def HasPrefix_def)
qed

lemma GetVersionByNum_row:
  assumes "versions_ok (st_repository s) V" "lookups_ok (st_repository s) V" "GetVersionByNum s cid num w = Inr v"
  defines "vs \<equiv> versions_of cid (V w)"
  shows "v \<in> set vs \<and> asked_number num vs = Some (version_key v)
    \<or> v = zero_UploadedVersion \<and> (\<forall>x \<in> set vs. asked_number num vs \<noteq> Some (version_key x))"
proof -
  obtain k where k: "sql_ver_by_num (st_repository s) cid k w = Inr v" "atoi k = asked_number num vs"
    using assms(3) versions_okD(2) [OF assms(1)]
    by (auto simp: GetVersionByNum_def getByVersionNum_def findLastHighestVersionNumber_def asked_number_def TrimPrefix_itoa vs_def
        split: if_splits sum.splits)
  with assms(2) show ?thesis unfolding lookups_ok_def vs_def by metis
qed

text \<open>
  \<open>Ob w\<close> are the stored objects. Opening a writer stores nothing; closing it commits its content
  or fails and leaves the objects as they are (the code ignores which); a failing delete leaves
  the objects as they are; the reading operations tell the truth.
\<close>

definition bucket_ok :: "'w bucket \<Rightarrow> ('w \<Rightarrow> (string \<rightharpoonup> bytes)) \<Rightarrow> bool" where
  "bucket_ok B Ob \<longleftrightarrow>
     (\<forall>p w. Ob (snd (bk_NewWriter B p w)) = Ob w)
   \<and> (\<forall>p d w. Ob (bk_CloseWriter B p d w) = (Ob w)(p \<mapsto> d) \<or> Ob (bk_CloseWriter B p d w) = Ob w)
   \<and> (\<forall>p w. bk_Exists B p w = (True, None) \<longrightarrow> Ob w p \<noteq> None)
   \<and> (\<forall>p w sz. bk_Attributes B p w = Some sz \<longrightarrow> (\<exists>d. Ob w p = Some d \<and> sz = of_nat (length d)))
   \<and> (\<forall>p w w'. bk_Delete B p w = (None, w') \<longrightarrow> Ob w' = (Ob w)(p := None))
   \<and> (\<forall>p w e w'. bk_Delete B p w = (Some e, w') \<longrightarrow> Ob w' = Ob w)
   \<and> (\<forall>p w d. bk_NewReader B p w = Inr d \<longrightarrow> Ob w p = Some d)"

lemma bucket_okD:
  assumes "bucket_ok B Ob"
  shows "Ob (snd (bk_NewWriter B p w)) = Ob w"
    and "Ob (bk_CloseWriter B p d w) = (Ob w)(p \<mapsto> d) \<or> Ob (bk_CloseWriter B p d w) = Ob w"
    and "bk_Exists B p w = (True, None) \<Longrightarrow> Ob w p \<noteq> None"
    and "bk_Attributes B p w = Some sz \<Longrightarrow> \<exists>d. Ob w p = Some d \<and> sz = of_nat (length d)"
    and "bk_Delete B p w = (None, w') \<Longrightarrow> Ob w' = (Ob w)(p := None)"
    and "bk_Delete B p w = (Some e, w') \<Longrightarrow> Ob w' = Ob w"
    and "bk_NewReader B p w = Inr d \<Longrightarrow> Ob w p = Some d"
  using assms unfolding bucket_ok_def by blast+

section \<open>Quota arithmetic\<close>

definition overflow :: "int64 \<Rightarrow> UploadedVersion \<Rightarrow> int" where
  "overflow m v = max 0 (sint (uv_Filesize v) - sint m)"

abbreviation overflows :: "int64 \<Rightarrow> UploadedVersion list \<Rightarrow> int" where
  "overflows m vs \<equiv> sum_list (map (overflow m) vs)"

abbreviation sizes :: "UploadedVersion list \<Rightarrow> int" where
  "sizes vs \<equiv> sum_list (map (\<lambda>v. sint (uv_Filesize v)) vs)"

lemma contains_iff [simp]: "contains s e \<longleftrightarrow> e \<in> set s"
  by (induction s) auto

lemma overflow_nonneg [simp]: "0 \<le> overflow m v" by (simp add: overflow_def)

lemma overflows_nonneg: "0 \<le> overflows m vs" by (simp add: sum_list_map_nonneg)

lemma allocatedAbove_exact:
  assumes "0 \<le> sint m" "0 \<le> sint acc"
    and "sint acc + overflows m (filter (\<lambda>v. uv_Id v \<notin> set ids) vs) < 2 ^ 63"
  shows "sint (allocatedAbove m ids vs acc) = sint acc + overflows m (filter (\<lambda>v. uv_Id v \<notin> set ids) vs)"
  using assms(2,3)
proof (induction vs arbitrary: acc)
  case (Cons v vs)
  let ?rest = "overflows m (filter (\<lambda>v. uv_Id v \<notin> set ids) vs)"
  show ?case
  proof (cases "uv_Id v \<notin> set ids \<and> sint m < sint (uv_Filesize v)")
    case False
    then have "uv_Id v \<in> set ids \<or> overflow m v = 0 \<and> \<not> sint m < sint (uv_Filesize v)"
      by (auto simp: overflow_def)
    with Cons show ?thesis by (elim disjE conjE) (simp_all split: if_splits)
  next
    case True
    then have d: "sint (uv_Filesize v - m) = overflow m v"
      using assms(1) sint_range [of "uv_Filesize v"] by (subst sint_diff64) (auto simp: overflow_def)
    have "sint acc + overflow m v + ?rest < 2 ^ 63" using Cons.prems(2) True by simp
    with Cons.prems(1) overflows_nonneg [of m "filter (\<lambda>v. uv_Id v \<notin> set ids) vs"] overflow_nonneg [of m v]
    have "in_int64 (sint acc + overflow m v)" by linarith
    with d have s: "sint (acc + (uv_Filesize v - m)) = sint acc + overflow m v" by (simp add: sint_add64)
    with True Cons.IH [of "acc + (uv_Filesize v - m)"] Cons.prems show ?thesis by simp
  qed
qed simp

lemma sizes_le: "sizes vs \<le> int (length vs) * sint m + overflows m vs"
  by (induction vs) (auto simp: overflow_def algebra_simps)

lemma overflows_filter_le: "overflows m (filter P vs) \<le> overflows m vs"
  by (rule sum_list_map_filter_le) simp

text \<open>
  The upload limit: the size of one version plus the extra space that the versions which stay do
  not use.
\<close>

lemma upload_limit:
  assumes fit: "sizes_fit L c m M" and n: "1 \<le> sint (cs_MaxBackupsCount (c_Spec c))"
    and extra: "extra = sint M - sint (cs_MaxBackupsCount (c_Spec c)) * sint m" "0 \<le> extra"
    and all: "sql_ver_all (st_repository s) (Collection_GetId c) w = Inr sl"
    and kept: "kept = filter (\<lambda>v. uv_Id v \<notin> uv_Id ` set ds) (sl_elems sl)" and inv: "overflows m kept \<le> extra"
  shows "\<exists>limit. CalculateMaximumAllowedUploadFilesize L s c ds w = Inr limit
    \<and> sint limit = sint m + extra - overflows m kept"
proof -
  let ?n = "cs_MaxBackupsCount (c_Spec c)"
  have m: "0 \<le> sint m" "bytes_Parse L (cs_MaxOneVersionSize (c_Spec c)) = Inr m"
    using fit by (auto simp: sizes_fit_def)
  obtain x where x: "GetEstimatedCollectionExtraSpace L c = Inr x" "sint x = extra"
    using estimated_extra_space [OF fit] extra(1) by auto
  have "1 * sint m \<le> sint ?n * sint m" using n m(1) by (intro mult_right_mono) auto
  then have mx: "sint m + extra < 2 ^ 63" using extra(1) sint_range [of M] by linarith
  show ?thesis
  proof (cases "x = 0")
    case True
    then have "overflows m kept = 0" "extra = 0" using inv x(2) overflows_nonneg [of m kept] by auto
    with True x m(2) show ?thesis
      by (simp add: CalculateMaximumAllowedUploadFilesize_def GetMaxOneVersionSizeInBytes_def)
  next
    case False
    define used where "used = allocatedAbove m (map uv_Id ds) (sl_elems sl) 0"
    have u: "sint used = overflows m kept"
      unfolding used_def by (subst allocatedAbove_exact) (use m inv mx kept in auto)
    have r: "sint (x - used) = extra - overflows m kept"
      by (subst sint_diff64) (use x u inv mx m overflows_nonneg [of m kept] in auto)
    have t: "sint (x - used + m) = sint m + extra - overflows m kept"
      by (subst sint_add64) (use r inv mx m overflows_nonneg [of m kept] in auto)
    have "\<not> sint (x - used) < 0" using r inv by simp
    with False x(1) m(2) all t show ?thesis
      by (simp add: CalculateMaximumAllowedUploadFilesize_def GetMaxOneVersionSizeInBytes_def
          findAllVersionsForCollectionId_def CalculateAllocatedSpaceAboveSingleVersionLimit_def
          Let_def flip: used_def)
  qed
qed

section \<open>Version numbers and files\<close>

lemma highest_bound: "v \<in> set vs \<Longrightarrow> version_key v \<le> highest vs"
  by (auto simp: highest_def)

lemma next_version:
  assumes "versions_ok (st_repository s) V"
    and "FindNextVersionForCollectionId s cid w = Inr n" and "highest (versions_of cid (V w)) < 2 ^ 63 - 1"
  shows "sint n = highest (versions_of cid (V w)) + 1"
proof -
  obtain k where k: "sql_ver_max (st_repository s) cid w = Inr k" "n = k + 1"
    using assms(2) by (auto simp: FindNextVersionForCollectionId_def findLastHighestVersionNumber_def split: sum.splits)
  have "sint k = highest (versions_of cid (V w))" by (rule versions_okD(2) [OF assms(1) k(1)])
  with assms(3) k(2) sint_range [of k] show ?thesis by (simp add: sint_add64)
qed

text \<open>Distinct file names give distinct paths.\<close>

lemma GetTargetPath_inj: "uv_CollectionId u = uv_CollectionId v \<Longrightarrow> GetTargetPath u = GetTargetPath v \<longleftrightarrow> uv_Filename u = uv_Filename v"
  by (simp add: GetTargetPath_def)

lemma new_version_fields:
  assumes "CreateNewVersionFromCollection s newId c uploader sid filesize w = Inr v"
  shows "uv_Id v = newId" "uv_CollectionId v = Collection_GetId c" "uv_Filesize v = filesize"
    "uv_Filename v = GenerateNextVersionFilename c (uv_VersionNumber v)"
    "FindNextVersionForCollectionId s (Collection_GetId c) w = Inr (uv_VersionNumber v)"
    "uv_Uploader v = uploader" "uv_UploadedBySessionId v = sid"
  using assms by (auto simp: CreateNewVersionFromCollection_def Collection_GetId_def split: sum.splits)

text \<open>What a finished upload leaves in the storage.\<close>

lemma UploadFile_success:
  assumes ok: "bucket_ok (st_storage s) Ob" and free: "Ob w (GetTargetPath v) = None"
    and up: "UploadFile s es v mws w = Some (Return (n, None), w')"
  obtains st where "CopyStream es io_buffer_len mws = Some ((n, None), st)"
    "Ob w' = (Ob w)(GetTargetPath v \<mapsto> cp_written st)"
proof -
  let ?B = "st_storage s" and ?p = "GetTargetPath v"
  obtain w1 where w1: "bk_NewWriter ?B ?p w = (None, w1)"
    using up by (auto simp: UploadFile_def Let_def bind_outcome_Return split: prod.split_asm option.split_asm)
  obtain st where st: "CopyStream es io_buffer_len mws = Some ((n, None), st)"
    and w': "w' = bk_CloseWriter ?B ?p (cp_written st) w1" and ex: "bk_Exists ?B ?p w' = (True, None)"
    using up w1
    by (auto simp: UploadFile_def Let_def split: prod.split_asm option.split_asm if_split_asm)
  have o1: "Ob w1 = Ob w" using bucket_okD(1) [OF ok, of ?p w] w1 by simp
  have "Ob w' ?p \<noteq> None" by (rule bucket_okD(3) [OF ok ex])
  with bucket_okD(2) [OF ok, of ?p "cp_written st" w1] w' o1 free
  have "Ob w' = (Ob w)(?p \<mapsto> cp_written st)" by auto
  with st that show thesis by blast
qed

lemma UploadFile_frame:
  assumes ok: "bucket_ok (st_storage s) Ob" and up: "UploadFile s es v mws w = Some (r, w')" and "p \<noteq> GetTargetPath v"
  shows "Ob w' p = Ob w p"
proof -
  let ?B = "st_storage s" and ?p = "GetTargetPath v"
  obtain w1 e where w1: "bk_NewWriter ?B ?p w = (e, w1)" by fastforce
  have o1: "Ob w1 = Ob w" using bucket_okD(1) [OF ok, of ?p w] w1 by simp
  have "w' = w1 \<or> (\<exists>d. w' = bk_CloseWriter ?B ?p d w1)"
    using up w1 by (auto simp: UploadFile_def Let_def split: prod.split_asm option.split_asm if_split_asm)
  with bucket_okD(2) [OF ok, of ?p _ w1] o1 assms(3) show ?thesis by (metis fun_upd_apply)
qed

text \<open>
  One upload and the quota. Take a collection with a positive limit and consistent sizes whose
  versions use no more than the extra space. If rotation proposes the versions \<open>ds\<close>, the limit
  for the upload is computed with them excluded, and a version of at most that size replaces
  them, then the collection has no more versions than it may have, its versions again use no
  more than the extra space, and all versions together are no larger than the collection may be.
\<close>

lemma quota_step:
  assumes "sizes_fit L c m M" and "1 \<le> sint (cs_MaxBackupsCount (c_Spec c))"
    and "sint (cs_MaxBackupsCount (c_Spec c)) * sint m \<le> sint M"
    and "sql_ver_all (st_repository s) (Collection_GetId c) w = Inr sl"
    and "length (sl_elems sl) < 2 ^ 63" and "distinct (map uv_Id (sl_elems sl))"
    and "overflows m (sl_elems sl) \<le> sint M - sint (cs_MaxBackupsCount (c_Spec c)) * sint m"
    and "GetVersionsThatShouldBeDeletedIfThisVersionUploaded (NewFifoRotationStrategy c sl) v = Return (ds, frs')"
    and "CalculateMaximumAllowedUploadFilesize L s c ds w = Inr limit"
    and "sint (uv_Filesize new) \<le> sint limit"
    and "after = filter (\<lambda>x. uv_Id x \<notin> uv_Id ` set ds) (sl_elems sl) @ [new]"
  shows "int (length after) \<le> sint (cs_MaxBackupsCount (c_Spec c))
    \<and> overflows m after \<le> sint M - sint (cs_MaxBackupsCount (c_Spec c)) * sint m
    \<and> sizes after \<le> sint M"
proof -
  let ?n = "sint (cs_MaxBackupsCount (c_Spec c))" and ?fifo = "NewFifoRotationStrategy c sl"
  define kept where "kept = filter (\<lambda>x. uv_Id x \<notin> uv_Id ` set ds) (sl_elems sl)"
  have ok: "fifo_ok ?fifo" and sel: "fifo_versions ?fifo = sl_elems sl" and lim: "fifo_limit ?fifo = nat ?n"
    using assms(2,5) by (auto simp: fifo_ok_def fifo_limit_def NewFifoRotationStrategy_def)
  have "length kept + 1 = min (length (sl_elems sl) + 1) (nat ?n)"
    using fifo.rotation_makes_room [OF ok assms(8)] assms(2,6)
    unfolding fifo.remaining_def sel lim kept_def by simp
  then have count: "int (length after) \<le> ?n"
    using assms(2,11) by (simp add: kept_def)
  have inv: "overflows m kept \<le> sint M - ?n * sint m"
    using overflows_filter_le [of m "\<lambda>x. uv_Id x \<notin> uv_Id ` set ds" "sl_elems sl"] assms(7)
    unfolding kept_def by linarith
  have limit: "sint limit = sint m + (sint M - ?n * sint m) - overflows m kept"
    using upload_limit [OF assms(1,2) refl _ assms(4) kept_def inv] assms(3,9) by auto
  then have over: "overflows m after \<le> sint M - ?n * sint m"
    using assms(10,11) inv by (simp add: overflow_def flip: kept_def)
  have "0 \<le> sint m" using assms(1) by (simp add: sizes_fit_def)
  then have "int (length after) * sint m \<le> ?n * sint m" using count by (rule mult_right_mono [rotated])
  with sizes_le [of after m] over count show ?thesis by linarith
qed

section \<open>Properties\<close>

text \<open>
  C21. The upload limit. For a collection whose sizes are consistent (the versions fit into the
  collection), and while the versions that stay use no more than the extra space, the limit
  computed for the next upload is the size of one version plus the extra space that is left;
  no 64-bit operation overflows on the way.
\<close>

theorem upload_limit_exact:
  assumes "sizes_fit L c m M" and "1 \<le> sint (cs_MaxBackupsCount (c_Spec c))"
    and "sint (cs_MaxBackupsCount (c_Spec c)) * sint m \<le> sint M"
    and "sql_ver_all (st_repository s) (Collection_GetId c) w = Inr sl"
    and "overflows m (filter (\<lambda>v. uv_Id v \<notin> uv_Id ` set ds) (sl_elems sl))
      \<le> sint M - sint (cs_MaxBackupsCount (c_Spec c)) * sint m"
  shows "\<exists>limit. CalculateMaximumAllowedUploadFilesize L s c ds w = Inr limit
    \<and> sint limit = sint m + (sint M - sint (cs_MaxBackupsCount (c_Spec c)) * sint m)
        - overflows m (filter (\<lambda>v. uv_Id v \<notin> uv_Id ` set ds) (sl_elems sl))
    \<and> sint m \<le> sint limit"
  using upload_limit [OF assms(1,2) refl _ assms(4) refl assms(5)] assms(3,5) by auto

text \<open>A library that knows two sizes, and a table and an object store kept in memory.\<close>

definition toy_clib :: collections_lib where
  "toy_clib = \<lparr>cl_gjson = (\<lambda>_ _. None), cl_UnmarshalCollection = (\<lambda>_. Inl ''no document''),
     bytes_Parse = (\<lambda>t. if t = ''1K'' then Inr 1000 else if t = ''3K'' then Inr 3000 else Inl ''size''),
     cl_windows = minute_lib\<rparr>"

record mem_store =
  mem_versions :: "UploadedVersion list"
  mem_objects :: "string \<Rightarrow> bytes option"

definition mem_ver_sql :: "mem_store ver_sql" where
  "mem_ver_sql = \<lparr>
     sql_ver_max = (\<lambda>cid w. Inr (of_int (highest (versions_of cid (mem_versions w))))),
     sql_ver_all = (\<lambda>cid w. Inr \<lparr>sl_elems = versions_of cid (mem_versions w), sl_spare = []\<rparr>),
     sql_ver_delete = (\<lambda>i w. (None, w\<lparr>mem_versions := filter (\<lambda>v. uv_Id v \<noteq> i) (mem_versions w)\<rparr>)),
     sql_ver_create = (\<lambda>v w. if uv_Id v \<in> uv_Id ` set (mem_versions w) then (Some ''duplicate key'', w)
        else (None, w\<lparr>mem_versions := mem_versions w @ [v]\<rparr>)),
     sql_ver_by_num = (\<lambda>cid num w. case filter (\<lambda>v. atoi num = Some (version_key v)) (versions_of cid (mem_versions w)) of
        [] \<Rightarrow> Inr zero_UploadedVersion | v # _ \<Rightarrow> Inr v),
     sql_ver_active = (\<lambda>cid w. Inr (versions_of cid (mem_versions w)))\<rparr>"

definition mem_bucket :: "mem_store bucket" where
  "mem_bucket = \<lparr>
     bk_NewWriter = (\<lambda>p w. (None, w)), bk_CloseNil = Panic ''nil writer'',
     bk_CloseWriter = (\<lambda>p d w. w\<lparr>mem_objects := (mem_objects w)(p \<mapsto> d)\<rparr>),
     bk_Exists = (\<lambda>p w. (mem_objects w p \<noteq> None, None)),
     bk_Attributes = (\<lambda>p w. map_option (\<lambda>d. of_nat (length d)) (mem_objects w p)),
     bk_Delete = (\<lambda>p w. if mem_objects w p = None then (Some ''NotFound'', w)
       else (None, w\<lparr>mem_objects := (mem_objects w)(p := None)\<rparr>)),
     bk_NewReader = (\<lambda>p w. case mem_objects w p of None \<Rightarrow> Inl ''not found'' | Some d \<Rightarrow> Inr d),
     bk_CloseNilReader = Panic ''nil reader'',
     bk_WriteAll = (\<lambda>p d w. (None, w\<lparr>mem_objects := (mem_objects w)(p \<mapsto> d)\<rparr>)),
     bk_ReadAll = (\<lambda>p w. case mem_objects w p of None \<Rightarrow> Inl ''not found'' | Some d \<Rightarrow> Inr d)\<rparr>"

definition mem_service :: "mem_store storage_Service" where
  "mem_service = \<lparr>st_storage = mem_bucket, st_repository = mem_ver_sql, st_HealthTimeout = 0, st_IOTimeout = 0\<rparr>"

lemma mem_service_simps [simp]:
  "st_storage mem_service = mem_bucket" "st_repository mem_service = mem_ver_sql"
  by (simp_all add: mem_service_def)

lemma mem_bucket_ok: "bucket_ok mem_bucket mem_objects"
  by (auto simp: bucket_ok_def mem_bucket_def split: option.splits if_splits)

lemma toy_sizes_fit: "0 \<le> sint n \<Longrightarrow> sint n \<le> 3 \<Longrightarrow> sizes_fit toy_clib (toy_collection n ''1K'' ''3K'' t) 1000 3000"
  by (simp add: sizes_fit_def toy_clib_def)

theorem upload_limit_exact_witness:
  "\<exists>limit. CalculateMaximumAllowedUploadFilesize toy_clib mem_service (toy_collection 2 ''1K'' ''3K'' ''x'') []
      \<lparr>mem_versions = [toy_version ''a'' 1 1400], mem_objects = Map.empty\<rparr> = Inr limit \<and> sint limit = 1600"
proof -
  let ?w = "\<lparr>mem_versions = [toy_version ''a'' 1 1400], mem_objects = Map.empty\<rparr>"
  have a: "sql_ver_all (st_repository mem_service) (Collection_GetId (toy_collection 2 ''1K'' ''3K'' ''x'')) ?w
      = Inr \<lparr>sl_elems = [toy_version ''a'' 1 1400], sl_spare = []\<rparr>"
    by (simp add: mem_ver_sql_def versions_of_def Collection_GetId_def)
  show ?thesis
    using upload_limit_exact [OF toy_sizes_fit _ _ a, of "[]"] by (auto simp: overflow_def)
qed

text \<open>
  A new version gets a new number and a new file. The number is higher than that of every
  active version of the collection, and when the file name template has the version placeholder
  the path differs from the path of every active version whose name comes from that template.
\<close>

theorem new_version_is_fresh:
  assumes "versions_ok (st_repository s) V"
    and "CreateNewVersionFromCollection s newId c uploader sid filesize w = Inr v"
    and "highest (versions_of (Collection_GetId c) (V w)) < 2 ^ 63 - 1"
    and "old \<in> set (versions_of (Collection_GetId c) (V w))"
  shows "version_key old < version_key v
    \<and> (strContains (cs_FilenameTemplate (c_Spec c)) ''${version}''
         \<and> uv_Filename old = GenerateNextVersionFilename c (uv_VersionNumber old)
       \<longrightarrow> GetTargetPath v \<noteq> GetTargetPath old)"
proof -
  have num: "version_key old < version_key v"
    using next_version [OF assms(1) new_version_fields(5) [OF assms(2)] assms(3)] highest_bound [OF assms(4)]
    by simp
  moreover have "GetTargetPath v \<noteq> GetTargetPath old"
    if "strContains (cs_FilenameTemplate (c_Spec c)) ''${version}''"
      "uv_Filename old = GenerateNextVersionFilename c (uv_VersionNumber old)"
  proof -
    have "uv_CollectionId v = uv_CollectionId old"
      using new_version_fields(2) [OF assms(2)] assms(4) by (simp add: versions_of_def)
    moreover have "uv_Filename v \<noteq> uv_Filename old"
      using num that new_version_fields(4) [OF assms(2)]
        GenerateNextVersionFilename_inj [OF that(1), of "uv_VersionNumber v" "uv_VersionNumber old"] by auto
    ultimately show ?thesis by (simp add: GetTargetPath_inj)
  qed
  ultimately show ?thesis by blast
qed

lemma highest_in_range: "in_int64 (highest vs)"
proof (cases "vs = []")
  case False
  then have "highest vs \<in> version_key ` set vs" unfolding highest_def by (auto intro: Max_in)
  then obtain v where "highest vs = version_key v" by blast
  then show ?thesis using sint_range [of "uv_VersionNumber v"] by simp
qed (simp add: highest_def)

lemma UploadedVersion_stamp: "\<exists>c u. v = v\<lparr>uv_CreatedAt := c, uv_UpdatedAt := u\<rparr>"
  by (rule exI [of _ "uv_CreatedAt v"], rule exI [of _ "uv_UpdatedAt v"]) simp

lemma mem_by_num:
  assumes "sql_ver_by_num mem_ver_sql cid num w = Inr v"
  shows "v \<in> set (versions_of cid (mem_versions w)) \<and> atoi num = Some (version_key v)
    \<or> v = zero_UploadedVersion \<and> (\<forall>x \<in> set (versions_of cid (mem_versions w)). atoi num \<noteq> Some (version_key x))"
proof (cases "filter (\<lambda>v. atoi num = Some (version_key v)) (versions_of cid (mem_versions w))")
  case Nil
  with assms show ?thesis by (simp add: mem_ver_sql_def filter_empty_conv)
next
  case (Cons x xs)
  then have "x \<in> set (filter (\<lambda>v. atoi num = Some (version_key v)) (versions_of cid (mem_versions w)))" by simp
  moreover have "v = x" using assms Cons by (simp add: mem_ver_sql_def)
  ultimately show ?thesis by simp
qed

lemma mem_lookups_ok: "lookups_ok mem_ver_sql mem_versions"
  unfolding lookups_ok_def using mem_by_num by (auto simp: mem_ver_sql_def)

lemma mem_versions_ok: "versions_ok mem_ver_sql mem_versions"
  unfolding versions_ok_def
proof (intro conjI allI impI)
  fix v :: UploadedVersion and w w'
  assume c: "sql_ver_create mem_ver_sql v w = (None, w')"
  then show "uv_Id v \<notin> uv_Id ` set (mem_versions w)" by (simp add: mem_ver_sql_def split: if_splits)
  have "mem_versions w' = mem_versions w @ [v]" using c by (auto simp: mem_ver_sql_def split: if_splits)
  then show "\<exists>c u. mem_versions w' = mem_versions w @ [v\<lparr>uv_CreatedAt := c, uv_UpdatedAt := u\<rparr>]"
    using UploadedVersion_stamp [of v] by metis
next
  fix cid num w v
  assume v: "sql_ver_by_num mem_ver_sql cid num w = Inr v" "uv_Id v \<noteq> ''''"
  then show "v \<in> set (versions_of cid (mem_versions w))" "atoi num = Some (version_key v)"
    using mem_by_num [OF v(1)] by (auto simp: zero_UploadedVersion_def)
next
  fix cid w n
  assume "sql_ver_max mem_ver_sql cid w = Inr n"
  then show "sint n = highest (versions_of cid (mem_versions w))"
    using sint_of_int64 [OF highest_in_range] by (auto simp: mem_ver_sql_def)
qed (auto simp: mem_ver_sql_def split: if_splits)

theorem new_version_is_fresh_witness:
  "\<exists>v. CreateNewVersionFromCollection mem_service ''b'' (toy_collection 2 ''1K'' ''3K'' ''v${version}'') ''admin'' ''s'' 0
       \<lparr>mem_versions = [toy_version ''a'' 41 5], mem_objects = Map.empty\<rparr> = Inr v
     \<and> 41 < version_key v"
proof -
  let ?w = "\<lparr>mem_versions = [toy_version ''a'' 41 5], mem_objects = Map.empty\<rparr>"
  let ?c = "toy_collection 2 ''1K'' ''3K'' ''v${version}''"
  obtain v where v: "CreateNewVersionFromCollection mem_service ''b'' ?c ''admin'' ''s'' 0 ?w = Inr v"
    by (simp add: CreateNewVersionFromCollection_def FindNextVersionForCollectionId_def
        findLastHighestVersionNumber_def mem_ver_sql_def)
  have "version_key (toy_version ''a'' 41 5) < version_key v"
    using new_version_is_fresh [OF _ v, of mem_versions "toy_version ''a'' 41 5"] mem_versions_ok
    by (simp add: versions_of_def highest_def Collection_GetId_def)
  with v show ?thesis by simp
qed

text \<open>
  C20. An upload that succeeds has stored the stream. When nothing was stored at the path of the
  version before, the object there is exactly the concatenation of the chunks that were read,
  the returned size is its length (for a quota below \<open>2^63 - 2^20\<close>), it respects the quota, and
  no other object has changed.
\<close>

theorem uploaded_content_stored:
  assumes "bucket_ok (st_storage s) Ob" and "Ob w (GetTargetPath v) = None"
    and "UploadFile s es v mws w = Some (Return (n, None), w')"
    and "QuotaMaxFileSize m \<in> set mws" and "reads_ok io_buffer_len es"
    and "0 \<le> sint m" and "sint m + int io_buffer_len < 2 ^ 63"
  shows "\<exists>pre e post. es = pre @ e # post \<and> (\<forall>x \<in> set pre. ev_status x = ReadOk) \<and> ev_status e = ReadEOF
    \<and> Ob w' = (Ob w)(GetTargetPath v \<mapsto> concat (map ev_data (pre @ [e])))
    \<and> sint n = int (length (concat (map ev_data (pre @ [e])))) \<and> sint n \<le> sint m"
proof -
  obtain st where st: "CopyStream es io_buffer_len mws = Some ((n, None), st)"
    "Ob w' = (Ob w)(GetTargetPath v \<mapsto> cp_written st)"
    using UploadFile_success [OF assms(1-3)] .
  have q: "int (length (cp_written st)) \<le> sint m" "sint n = int (length (cp_written st))"
    using CopyStream_quota [OF st(1) assms(4-7)] by auto
  obtain pre e post where p: "es = pre @ e # post" "\<forall>x \<in> set pre. ev_status x = ReadOk" "ev_status e = ReadEOF"
    and c: "cp_written st = concat (map ev_data (pre @ [e]))"
    using CopyStream_content [OF st(1)] by blast
  show ?thesis using p st(2) q unfolding c by metis
qed

text \<open>The in-memory storage, and a stream that the middlewares accept.\<close>

definition toy_stream :: "read_event list" where
  "toy_stream = [chunk (gpg_header @ gpg_footer), stream_end]"

definition toy_store :: mem_store where
  "toy_store = \<lparr>mem_versions = [], mem_objects = Map.empty\<rparr>"

lemma toy_stream_ok: "reads_ok io_buffer_len toy_stream"
  by (simp add: reads_ok_def toy_stream_def chunk_def stream_end_def io_buffer_len_def gpg_header_def gpg_footer_def)

lemma toy_stream_copied:
  assumes "42 \<le> sint m"
  shows "\<exists>n st. CopyStream toy_stream io_buffer_len [createRequestCancelledMiddleware,
      createQuotaMaxFileSizeMiddleware m, createNonEmptyMiddleware, createGPGStreamMiddleware]
     = Some ((n, None), st) \<and> n = 42 \<and> cp_written st = gpg_header @ gpg_footer"
proof -
  have c: "strContains (gpg_header @ gpg_footer) gpg_header" "strContains (gpg_header @ gpg_footer) gpg_footer"
    "length (gpg_header @ gpg_footer) = 42" "gpg_header @ gpg_footer \<noteq> []"
    by (simp_all add: strContains_def) (simp_all add: gpg_header_def gpg_footer_def)
  show ?thesis
    using assms c(1,2,4) c(3) [simplified]
    by (simp add: CopyStream_def toy_stream_def copyLoop.simps chunk_def stream_end_def copy_start_def Let_def
        createRequestCancelledMiddleware_def createQuotaMaxFileSizeMiddleware_def
        createNonEmptyMiddleware_def createGPGStreamMiddleware_def)
qed

lemma toy_upload:
  assumes "42 \<le> sint m"
  shows "UploadFile mem_service toy_stream v [createRequestCancelledMiddleware,
      createQuotaMaxFileSizeMiddleware m, createNonEmptyMiddleware, createGPGStreamMiddleware] w
     = Some (Return (42, None), w\<lparr>mem_objects := (mem_objects w)(GetTargetPath v \<mapsto> gpg_header @ gpg_footer)\<rparr>)"
proof -
  have "length (gpg_header @ gpg_footer) = 42" by (simp add: gpg_header_def gpg_footer_def)
  with toy_stream_copied [OF assms] show ?thesis
    by (auto simp: UploadFile_def Let_def mem_bucket_def)
qed

theorem uploaded_content_stored_witness:
  "\<exists>w'. UploadFile mem_service toy_stream (toy_version ''a'' 1 0) [createRequestCancelledMiddleware,
      createQuotaMaxFileSizeMiddleware 100, createNonEmptyMiddleware, createGPGStreamMiddleware] toy_store
     = Some (Return (42, None), w')
   \<and> (\<exists>pre e post. toy_stream = pre @ e # post
     \<and> mem_objects w' (GetTargetPath (toy_version ''a'' 1 0)) = Some (concat (map ev_data (pre @ [e]))))"
proof -
  obtain w' where u: "UploadFile mem_service toy_stream (toy_version ''a'' 1 0) [createRequestCancelledMiddleware,
      createQuotaMaxFileSizeMiddleware 100, createNonEmptyMiddleware, createGPGStreamMiddleware] toy_store
     = Some (Return (42, None), w')" using toy_upload [of 100] by auto
  have b: "bucket_ok (st_storage mem_service) mem_objects" using mem_bucket_ok by simp
  have free: "mem_objects toy_store (GetTargetPath (toy_version ''a'' 1 0)) = None" by (simp add: toy_store_def)
  obtain pre e post where "toy_stream = pre @ e # post"
    "mem_objects w' = (mem_objects toy_store)(GetTargetPath (toy_version ''a'' 1 0) \<mapsto> concat (map ev_data (pre @ [e])))"
    using uploaded_content_stored [OF b free u _ toy_stream_ok, of 100]
    by (auto simp: createQuotaMaxFileSizeMiddleware_def io_buffer_len_def)
  with u show ?thesis by auto
qed

text \<open>
  Inconsistent sizes block every upload. If the versions a collection may have are together
  larger than the collection may be, the computation of the upload limit fails, however many
  versions exist and whichever are about to be deleted: the collection never accepts an upload.
\<close>

theorem inconsistent_sizes_block_uploads:
  assumes "sizes_fit L c m M" and "sint M < sint (cs_MaxBackupsCount (c_Spec c)) * sint m"
    and "sql_ver_all (st_repository s) (Collection_GetId c) w = Inr sl"
    and "overflows m (sl_elems sl) < 2 ^ 62"
    and "sint (cs_MaxBackupsCount (c_Spec c)) * sint m < 2 ^ 62"
  shows "CalculateMaximumAllowedUploadFilesize L s c ds w =
    Inl ''weird thing happened, maxExtraSpace-usedExtraSpace gave minus result. Corrupted collection''"
proof -
  let ?kept = "filter (\<lambda>v. uv_Id v \<notin> set (map uv_Id ds)) (sl_elems sl)"
  have m: "0 \<le> sint m" "0 \<le> sint M" "bytes_Parse L (cs_MaxOneVersionSize (c_Spec c)) = Inr m"
    using assms(1) by (auto simp: sizes_fit_def)
  obtain x where x: "GetEstimatedCollectionExtraSpace L c = Inr x"
    "sint x = sint M - sint (cs_MaxBackupsCount (c_Spec c)) * sint m"
    using estimated_extra_space [OF assms(1)] by auto
  define used where "used = allocatedAbove m (map uv_Id ds) (sl_elems sl) 0"
  have kept: "0 \<le> overflows m ?kept" "overflows m ?kept < 2 ^ 62"
    using overflows_nonneg [of m ?kept]
      overflows_filter_le [of m "\<lambda>v. uv_Id v \<notin> set (map uv_Id ds)" "sl_elems sl"] assms(4) by linarith+
  have u: "sint used = overflows m ?kept"
    unfolding used_def by (subst allocatedAbove_exact) (use m kept in auto)
  have "in_int64 (sint x - sint used)" using x(2) u kept m assms(2,5) by simp
  then have neg: "sint (x - used) < 0" using sint_diff64 [of x used] x(2) u kept assms(2) by simp
  have "x \<noteq> 0" using x(2) assms(2) by auto
  with x(1) m(3) assms(3) neg show ?thesis
    by (simp add: CalculateMaximumAllowedUploadFilesize_def GetMaxOneVersionSizeInBytes_def
        findAllVersionsForCollectionId_def CalculateAllocatedSpaceAboveSingleVersionLimit_def
        Let_def flip: used_def)
qed

theorem inconsistent_sizes_block_uploads_witness:
  "CalculateMaximumAllowedUploadFilesize toy_clib mem_service (toy_collection 2 ''3K'' ''3K'' ''x'') [] toy_store =
    Inl ''weird thing happened, maxExtraSpace-usedExtraSpace gave minus result. Corrupted collection''"
  by (rule inconsistent_sizes_block_uploads [of _ _ 3000 3000 _ _ "\<lparr>sl_elems = [], sl_spare = []\<rparr>"])
    (simp_all add: sizes_fit_def toy_clib_def toy_store_def mem_ver_sql_def versions_of_def)

text \<open>
  A rejected upload first stores its beginning. An upload that the quota stops returns an
  error, but the deferred close of the writer commits what was written before the rejected
  chunk, over whatever was stored at the path; it is up to the caller to delete it again.
\<close>

theorem rejected_upload_leaves_object:
  "\<exists>err w'. UploadFile mem_service [chunk ''hello'', chunk ''world'', stream_end] v [QuotaMaxFileSize 7] w
      = Some (Return (10, Some err), w')
    \<and> mem_objects w' = (mem_objects w)(GetTargetPath v \<mapsto> ''hello'')"
  by (simp add: UploadFile_def Let_def mem_bucket_def CopyStream_def copyLoop.simps chunk_def copy_start_def)

end
