(* ===== verification/Health.thy ===== *)
theory Health
  imports Storage
begin

text \<open>
  Health checks: \<open>pkg/health\<close>. A \<open>Validator\<close> is its type name and its method \<open>Validate\<close> on the
  outside world; \<open>Validators.Validate\<close> runs a list of them in order.

  The printing of windows and instants in messages is the parameter \<open>health_lib\<close>; the one
  statement of the database check is \<open>db_Select\<close>. \<open>bytes.Parse\<close> returns zero together with an
  error, and a failed listing returns no versions: that is what the validators that ignore the
  error go on with.
\<close>

section \<open>Interface (interface.go)\<close>

record 'w Validator =
  val_Name :: string
  val_Validate :: "'w \<Rightarrow> error option \<times> 'w"

record Status =
  hs_Name :: string
  hs_StatusMsg :: string
  hs_IsError :: bool

fun Validators_Validate :: "'w Validator list \<Rightarrow> 'w \<Rightarrow> Status list \<times> 'w" where
  "Validators_Validate [] w = ([], w)"
| "Validators_Validate (validator # v) w =
     (let (err, w1) = val_Validate validator w;
          status = (case err of
             Some e \<Rightarrow> \<lparr>hs_Name = val_Name validator, hs_StatusMsg = e, hs_IsError = True\<rparr>
           | None \<Rightarrow> \<lparr>hs_Name = val_Name validator, hs_StatusMsg = ''OK'', hs_IsError = False\<rparr>);
          (rest, w2) = Validators_Validate v w1
      in (status # rest, w2))"

fun GetOverallStatus :: "Status list \<Rightarrow> bool" where
  "GetOverallStatus [] = True"
| "GetOverallStatus (status # sc) = (if hs_IsError status then False else GetOverallStatus sc)"

datatype json_value = JString string | JBool bool

definition bool_text :: "bool \<Rightarrow> string" where
  "bool_text b = (if b then ''true'' else ''false'')"

definition Status_MarshalJSON :: "Status \<Rightarrow> (string \<times> json_value) list" where
  "Status_MarshalJSON s =
     [(''name'', JString (hs_Name s)),
      (''statusText'', JString (hs_Name s @ ''='' @ bool_text (\<not> hs_IsError s))),
      (''status'', JBool (\<not> hs_IsError s)),
      (''message'', JString (hs_StatusMsg s))]"

section \<open>Backup windows (backupwindow.go)\<close>

record health_lib =
  hl_fmtWindow :: "BackupWindow \<Rightarrow> string"
  hl_fmtTime :: "time \<Rightarrow> string"

fun checkWindows ::
    "health_lib \<Rightarrow> window_lib \<Rightarrow> BackupWindow list \<Rightarrow> time \<Rightarrow> time \<Rightarrow> string \<Rightarrow> error option" where
  "checkWindows H W [] now created allowedSlots =
     Some (''previous backup was not executed in expected time slots: '' @ Trim allowedSlots '', ''
       @ ''. Latest backup created at: '' @ hl_fmtTime H created)"
| "checkWindows H W (window # ws) now created allowedSlots =
     (case IsInPreviousWindowTimeSlot W window now created of
        Inl err \<Rightarrow> Some (''failed to calculate previous run for window '' @ quoted (hl_fmtWindow H window)
          @ '' - '' @ err)
      | Inr True \<Rightarrow> None
      | Inr False \<Rightarrow>
          if result_or_false (IsInPreviousWindowTimeSlot W window now now) then None
          else checkWindows H W ws now created
            (allowedSlots @ '', interval('' @ bw_From window @ '') + '' @ bw_Duration window))"

definition BackupWindowValidator_Validate ::
    "health_lib \<Rightarrow> collections_lib \<Rightarrow> 'w storage_Service \<Rightarrow> Collection \<Rightarrow> time \<Rightarrow> 'w \<Rightarrow> error option \<times> 'w" where
  "BackupWindowValidator_Validate H L svc c now w =
     (if length (cs_Windows (c_Spec c)) = 0 then (None, w)
      else (case FindLatestVersion svc (Collection_GetId c) w of
              Inl err \<Rightarrow> (Wrap (Some err) ''cannot find any backup in the collection'', w)
            | Inr latest \<Rightarrow>
                (checkWindows H (cl_windows L) (cs_Windows (c_Spec c)) now (uv_CreatedAt latest) '''', w)))"

section \<open>Sizes (size.go, sumofversions.go)\<close>

fun findTooBig :: "int64 \<Rightarrow> UploadedVersion list \<Rightarrow> error option" where
  "findTooBig maxVersionSize [] = None"
| "findTooBig maxVersionSize (v # versions) =
     (if sint maxVersionSize < sint (uv_Filesize v)
      then Some (''maximum filesize is bigger than collection soft limit per file. Failed file: ''
             @ uv_Filename v @ '' (size='' @ itoa (sint (uv_Filesize v)) @ ''b)'')
      else findTooBig maxVersionSize versions)"

definition VersionsSizeValidator_Validate ::
    "collections_lib \<Rightarrow> 'w storage_Service \<Rightarrow> Collection \<Rightarrow> 'w \<Rightarrow> error option \<times> 'w" where
  "VersionsSizeValidator_Validate L svc c w =
     (case FindAllActiveVersionsFor svc (Collection_GetId c) w of
        Inl err \<Rightarrow> (Wrap (Some err) (''Cannot list versions for collection id='' @ Collection_GetId c), w)
      | Inr versions \<Rightarrow>
          (case GetMaxOneVersionSizeInBytes L c of
             Inl err \<Rightarrow> (Wrap (Some err) (''Cannot list versions for collection id='' @ Collection_GetId c), w)
           | Inr maxVersionSize \<Rightarrow> (findTooBig maxVersionSize versions, w)))"

definition SumOfVersionsValidator_Validate ::
    "collections_lib \<Rightarrow> 'w storage_Service \<Rightarrow> Collection \<Rightarrow> 'w \<Rightarrow> error option \<times> 'w" where
  "SumOfVersionsValidator_Validate L svc c w =
     (let allActive = (case FindAllActiveVersionsFor svc (Collection_GetId c) w of Inl err \<Rightarrow> [] | Inr vs \<Rightarrow> vs);
          totalSize = foldl (\<lambda>total v. total + uv_Filesize v) 0 allActive;
          maxCollectionSize = (case GetCollectionMaxSize L c of Inl err \<Rightarrow> 0 | Inr M \<Rightarrow> M)
      in if sint maxCollectionSize < sint totalSize
         then (Some (''Summary of all files is '' @ itoa (sint totalSize)
                @ ''b, while collection hard limit is '' @ itoa (sint maxCollectionSize) @ ''b''), w)
         else (None, w))"

section \<open>Server checks (db.go, storage.go, config.go)\<close>

text \<open>The mismatch of the database check wraps a nil error, so it is reported as healthy.\<close>

definition DbValidator_Validate ::
    "(goint \<Rightarrow> 'w \<Rightarrow> goint \<times> error option) \<Rightarrow> goint \<Rightarrow> 'w \<Rightarrow> error option \<times> 'w" where
  "DbValidator_Validate db_Select key w =
     (let (result, err) = db_Select key w in
      if err \<noteq> None \<or> result \<noteq> key then (Wrap err ''cannot connect to database'', w) else (None, w))"

definition StorageAvailabilityValidator_Validate ::
    "'w storage_Service \<Rightarrow> time \<Rightarrow> time \<Rightarrow> 'w \<Rightarrow> error option \<times> 'w" where
  "StorageAvailabilityValidator_Validate st nowNano nowUnix w =
     (case TestReadWrite st nowNano nowUnix w of
        (Some err, w1) \<Rightarrow> (Wrap (Some err) ''storage not operable'', w1)
      | (None, w1) \<Rightarrow> (None, w1))"

definition ConfigurationProviderValidator_Validate :: "('w, 'd) ConfigurationProvider \<Rightarrow> 'w \<Rightarrow> error option \<times> 'w" where
  "ConfigurationProviderValidator_Validate cfg w =
     (case cp_GetHealth cfg w of
        (Some err, w1) \<Rightarrow> (Wrap (Some err) ''configuration provider is not usable'', w1)
      | (None, w1) \<Rightarrow> (None, w1))"

text \<open>The validators of a collection and of the server, with their type names.\<close>

definition collection_validators ::
    "health_lib \<Rightarrow> collections_lib \<Rightarrow> 'w storage_Service \<Rightarrow> Collection \<Rightarrow> time \<Rightarrow> 'w Validator list" where
  "collection_validators H L svc c now =
     [\<lparr>val_Name = ''BackupWindowValidator'', val_Validate = BackupWindowValidator_Validate H L svc c now\<rparr>,
      \<lparr>val_Name = ''VersionsSizeValidator'', val_Validate = VersionsSizeValidator_Validate L svc c\<rparr>,
      \<lparr>val_Name = ''SumOfVersionsValidator'', val_Validate = SumOfVersionsValidator_Validate L svc c\<rparr>]"

definition server_validators ::
    "(goint \<Rightarrow> 'w \<Rightarrow> goint \<times> error option) \<Rightarrow> goint \<Rightarrow> 'w storage_Service \<Rightarrow> time \<Rightarrow> time \<Rightarrow>
     ('w, 'd) ConfigurationProvider \<Rightarrow> 'w Validator list" where
  "server_validators db_Select key st nowNano nowUnix cfg =
     [\<lparr>val_Name = ''DbValidator'', val_Validate = DbValidator_Validate db_Select key\<rparr>,
      \<lparr>val_Name = ''StorageAvailabilityValidator'',
       val_Validate = StorageAvailabilityValidator_Validate st nowNano nowUnix\<rparr>,
      \<lparr>val_Name = ''ConfigurationProviderValidator'', val_Validate = ConfigurationProviderValidator_Validate cfg\<rparr>]"

section \<open>The contract of a validator\<close>

text \<open>
  A validator of a collection only looks: it leaves the world as it is, and it reports no error
  exactly when what it stands for holds.
\<close>

locale observing_validator =
  fixes validate :: "'w \<Rightarrow> error option \<times> 'w" and holds :: "'w \<Rightarrow> bool"
  assumes observes: "snd (validate w) = w"
    and verdict: "fst (validate w) = None \<longleftrightarrow> holds w"
begin

lemma first_status:
  "\<exists>st. Validators_Validate (\<lparr>val_Name = name, val_Validate = validate\<rparr> # vs) w
      = (st # fst (Validators_Validate vs w), snd (Validators_Validate vs w))
    \<and> (hs_IsError st \<longleftrightarrow> \<not> holds w) \<and> hs_Name st = name"
proof -
  obtain err where v: "validate w = (err, w)" using observes [of w] by (cases "validate w") auto
  with verdict [of w] have "err = None \<longleftrightarrow> holds w" by simp
  with v show ?thesis by (cases err) (auto split: prod.splits)
qed

lemma overall_status:
  "GetOverallStatus (fst (Validators_Validate (\<lparr>val_Name = name, val_Validate = validate\<rparr> # vs) w)) \<longleftrightarrow>
     holds w \<and> GetOverallStatus (fst (Validators_Validate vs w))"
  using first_status [of name vs w] by auto

lemma world_kept:
  "snd (Validators_Validate (\<lparr>val_Name = name, val_Validate = validate\<rparr> # vs) w) = snd (Validators_Validate vs w)"
  using first_status [of name vs w] by auto

end

text \<open>What the three collection validators stand for.\<close>

definition windows_kept :: "collections_lib \<Rightarrow> 'w storage_Service \<Rightarrow> Collection \<Rightarrow> time \<Rightarrow> 'w \<Rightarrow> bool" where
  "windows_kept L svc c now w \<longleftrightarrow>
     cs_Windows (c_Spec c) = []
   \<or> (\<exists>latest pre b post. FindLatestVersion svc (Collection_GetId c) w = Inr latest
        \<and> cs_Windows (c_Spec c) = pre @ b # post
        \<and> (\<forall>x \<in> set pre. IsInPreviousWindowTimeSlot (cl_windows L) x now (uv_CreatedAt latest) = Inr False)
        \<and> (IsInPreviousWindowTimeSlot (cl_windows L) b now (uv_CreatedAt latest) = Inr True
           \<or> IsInPreviousWindowTimeSlot (cl_windows L) b now (uv_CreatedAt latest) = Inr False
             \<and> IsInPreviousWindowTimeSlot (cl_windows L) b now now = Inr True))"

definition versions_within :: "collections_lib \<Rightarrow> 'w storage_Service \<Rightarrow> Collection \<Rightarrow> 'w \<Rightarrow> bool" where
  "versions_within L svc c w \<longleftrightarrow>
     (\<exists>vs m. sql_ver_active (st_repository svc) (Collection_GetId c) w = Inr vs
        \<and> bytes_Parse L (cs_MaxOneVersionSize (c_Spec c)) = Inr m
        \<and> (\<forall>v \<in> set vs. sint (uv_Filesize v) \<le> sint m))"

lemma checkWindows_iff:
  "checkWindows H W ws now created slots = None \<longleftrightarrow>
     (\<exists>pre b post. ws = pre @ b # post
        \<and> (\<forall>x \<in> set pre. IsInPreviousWindowTimeSlot W x now created = Inr False)
        \<and> (IsInPreviousWindowTimeSlot W b now created = Inr True
           \<or> IsInPreviousWindowTimeSlot W b now created = Inr False
             \<and> IsInPreviousWindowTimeSlot W b now now = Inr True))"
  (is "_ \<longleftrightarrow> ?found ws")
proof (induction ws arbitrary: slots)
  case (Cons b ws)
  let ?r = "IsInPreviousWindowTimeSlot W b now created" and ?n = "IsInPreviousWindowTimeSlot W b now now"
  have split: "?found (b # ws) \<longleftrightarrow> ?r = Inr True \<or> ?r = Inr False \<and> (?n = Inr True \<or> ?found ws)"
  proof
    assume "?found (b # ws)"
    then obtain pre x post where x: "b # ws = pre @ x # post"
      "\<forall>y \<in> set pre. IsInPreviousWindowTimeSlot W y now created = Inr False"
      "IsInPreviousWindowTimeSlot W x now created = Inr True
        \<or> IsInPreviousWindowTimeSlot W x now created = Inr False \<and> IsInPreviousWindowTimeSlot W x now now = Inr True"
      by blast
    show "?r = Inr True \<or> ?r = Inr False \<and> (?n = Inr True \<or> ?found ws)"
    proof (cases pre)
      case Nil
      with x show ?thesis by auto
    next
      case (Cons y q)
      with x have "?r = Inr False" "ws = q @ x # post" "\<forall>y \<in> set q. IsInPreviousWindowTimeSlot W y now created = Inr False"
        by auto
      with x(3) show ?thesis by blast
    qed
  next
    assume r: "?r = Inr True \<or> ?r = Inr False \<and> (?n = Inr True \<or> ?found ws)"
    show "?found (b # ws)"
    proof (cases "?r = Inr False \<and> ?found ws")
      case True
      then obtain pre x post where x: "ws = pre @ x # post"
        "\<forall>y \<in> set pre. IsInPreviousWindowTimeSlot W y now created = Inr False"
        "IsInPreviousWindowTimeSlot W x now created = Inr True
          \<or> IsInPreviousWindowTimeSlot W x now created = Inr False \<and> IsInPreviousWindowTimeSlot W x now now = Inr True"
        by blast
      then have "b # ws = (b # pre) @ x # post"
        "\<forall>y \<in> set (b # pre). IsInPreviousWindowTimeSlot W y now created = Inr False" using True by auto
      with x(3) show ?thesis by blast
    next
      case False
      with r have "?r = Inr True \<or> ?r = Inr False \<and> ?n = Inr True" by blast
      then show ?thesis by (metis append_Nil empty_iff empty_set)
    qed
  qed
  have step: "checkWindows H W (b # ws) now created slots = None \<longleftrightarrow>
      ?r = Inr True \<or> ?r = Inr False \<and> (?n = Inr True \<or> ?found ws)"
    using Cons.IH by (cases ?n) (auto split: sum.splits bool.splits)
  show ?case unfolding step split ..
qed simp

lemma findTooBig_None: "findTooBig m vs = None \<longleftrightarrow> (\<forall>v \<in> set vs. sint (uv_Filesize v) \<le> sint m)"
  by (induction vs) auto

definition total_size :: "UploadedVersion list \<Rightarrow> int64" where
  "total_size vs = foldl (\<lambda>total v. total + uv_Filesize v) 0 vs"

definition sum_within :: "collections_lib \<Rightarrow> 'w storage_Service \<Rightarrow> Collection \<Rightarrow> 'w \<Rightarrow> bool" where
  "sum_within L svc c w \<longleftrightarrow>
     sint (total_size (case sql_ver_active (st_repository svc) (Collection_GetId c) w of Inl err \<Rightarrow> [] | Inr vs \<Rightarrow> vs))
   \<le> sint (case bytes_Parse L (cs_MaxCollectionSize (c_Spec c)) of Inl err \<Rightarrow> 0 | Inr M \<Rightarrow> M)"

interpretation window_check: observing_validator
  "BackupWindowValidator_Validate H L svc c now" "windows_kept L svc c now" for H L svc c now
proof
  fix w
  show "snd (BackupWindowValidator_Validate H L svc c now w) = w"
    by (simp add: BackupWindowValidator_Validate_def split: sum.split)
  show "(fst (BackupWindowValidator_Validate H L svc c now w) = None) = windows_kept L svc c now w"
    by (cases "FindLatestVersion svc (Collection_GetId c) w")
      (simp_all add: BackupWindowValidator_Validate_def windows_kept_def checkWindows_iff Wrap_def)
qed

interpretation size_check: observing_validator
  "VersionsSizeValidator_Validate L svc c" "versions_within L svc c" for L svc c
proof
  fix w
  show "snd (VersionsSizeValidator_Validate L svc c w) = w"
    by (simp add: VersionsSizeValidator_Validate_def split: sum.split)
  show "(fst (VersionsSizeValidator_Validate L svc c w) = None) = versions_within L svc c w"
    by (auto simp: VersionsSizeValidator_Validate_def versions_within_def findTooBig_None Wrap_def
        FindAllActiveVersionsFor_def findAllActiveVersions_def GetMaxOneVersionSizeInBytes_def split: sum.split)
qed

interpretation sum_check: observing_validator
  "SumOfVersionsValidator_Validate L svc c" "sum_within L svc c" for L svc c
proof
  fix w
  show "snd (SumOfVersionsValidator_Validate L svc c w) = w"
    by (simp add: SumOfVersionsValidator_Validate_def Let_def)
  show "(fst (SumOfVersionsValidator_Validate L svc c w) = None) = sum_within L svc c w"
    by (simp add: SumOfVersionsValidator_Validate_def sum_within_def total_size_def Let_def not_less
        FindAllActiveVersionsFor_def findAllActiveVersions_def GetCollectionMaxSize_def)
qed

lemma total_size_exact:
  assumes "\<forall>v \<in> set vs. 0 \<le> sint (uv_Filesize v)" "sizes vs < 2 ^ 63"
  shows "sint (total_size vs) = sizes vs"
  using assms unfolding total_size_def
proof (induction vs rule: rev_induct)
  case (snoc v vs)
  have "0 \<le> sizes vs" using snoc.prems(1) by (intro sum_list_map_nonneg) auto
  with snoc show ?case by (simp add: sint_add64)
qed simp

lemma collection_status:
  "GetOverallStatus (fst (Validators_Validate (collection_validators H L svc c now) w)) \<longleftrightarrow>
     windows_kept L svc c now w \<and> versions_within L svc c w \<and> sum_within L svc c w"
  by (simp only: collection_validators_def window_check.overall_status size_check.overall_status
      sum_check.overall_status) simp

section \<open>Properties\<close>

text \<open>
  C24. What a healthy collection is. For consistent sizes and a total below \<open>2^63\<close>, the overall
  status of a collection is "healthy" exactly when its backup windows were kept (there are none,
  or the first window that does not answer "no" saw the latest version in its last time slot or
  is open now), no active version is larger than one version may be, and all active versions
  together are no larger than the collection may be; and the checks change nothing.
\<close>

theorem collection_health_verdict:
  assumes "sizes_fit L c m M"
    and "sql_ver_active (st_repository svc) (Collection_GetId c) w = Inr vs"
    and "\<forall>v \<in> set vs. 0 \<le> sint (uv_Filesize v)" and "sizes vs < 2 ^ 63"
  shows "(GetOverallStatus (fst (Validators_Validate (collection_validators H L svc c now) w)) \<longleftrightarrow>
      windows_kept L svc c now w \<and> (\<forall>v \<in> set vs. sint (uv_Filesize v) \<le> sint m) \<and> sizes vs \<le> sint M)
    \<and> snd (Validators_Validate (collection_validators H L svc c now) w) = w"
proof
  have "versions_within L svc c w \<longleftrightarrow> (\<forall>v \<in> set vs. sint (uv_Filesize v) \<le> sint m)"
    "sum_within L svc c w \<longleftrightarrow> sizes vs \<le> sint M"
    using assms total_size_exact [OF assms(3,4)] by (auto simp: versions_within_def sum_within_def sizes_fit_def)
  then show "GetOverallStatus (fst (Validators_Validate (collection_validators H L svc c now) w)) \<longleftrightarrow>
      windows_kept L svc c now w \<and> (\<forall>v \<in> set vs. sint (uv_Filesize v) \<le> sint m) \<and> sizes vs \<le> sint M"
    unfolding collection_status by blast
  show "snd (Validators_Validate (collection_validators H L svc c now) w) = w"
    by (simp only: collection_validators_def window_check.world_kept size_check.world_kept sum_check.world_kept) simp
qed

definition toy_hlib :: health_lib where
  "toy_hlib = \<lparr>hl_fmtWindow = bw_From, hl_fmtTime = itoa\<rparr>"

theorem collection_health_verdict_witness:
  "GetOverallStatus (fst (Validators_Validate
      (collection_validators toy_hlib toy_clib mem_service (toy_collection 2 ''1K'' ''3K'' ''x'') 0)
      \<lparr>mem_versions = [toy_version ''a'' 1 900], mem_objects = Map.empty\<rparr>))
   \<and> \<not> GetOverallStatus (fst (Validators_Validate
      (collection_validators toy_hlib toy_clib mem_service (toy_collection 2 ''1K'' ''3K'' ''x'') 0)
      \<lparr>mem_versions = [toy_version ''a'' 1 1001], mem_objects = Map.empty\<rparr>))"
proof -
  let ?c = "toy_collection 2 ''1K'' ''3K'' ''x''"
  have a: "sql_ver_active (st_repository mem_service) (Collection_GetId ?c)
      \<lparr>mem_versions = [toy_version ''a'' 1 n], mem_objects = Map.empty\<rparr> = Inr [toy_version ''a'' 1 n]" for n
    by (simp add: mem_ver_sql_def versions_of_def Collection_GetId_def)
  have w: "windows_kept toy_clib mem_service ?c 0 w" for w
    by (simp add: windows_kept_def toy_collection_def)
  show ?thesis
    using collection_health_verdict [OF toy_sizes_fit a [of 900], where H = toy_hlib and now = 0]
      collection_health_verdict [OF toy_sizes_fit a [of 1001], where H = toy_hlib and now = 0] w
    by simp
qed

text \<open>
  The server checks look at errors only. The database check reports healthy exactly when the
  statement did not fail, even if the database answered with another number than the one it was
  asked for; the storage check is the verdict of the probe, which compares what it reads.
\<close>

theorem server_checks_verdict:
  "(fst (DbValidator_Validate db_Select key w) = None \<longleftrightarrow> snd (db_Select key w) = None)
   \<and> (fst (StorageAvailabilityValidator_Validate st nowNano nowUnix w) = None \<longleftrightarrow>
        (let k = ''.health-'' @ itoa nowNano; d = ''secret-'' @ itoa nowUnix;
             (e1, w1) = bk_WriteAll (st_storage st) k d w
         in e1 = None \<and> bk_ReadAll (st_storage st) k w1 = Inr d \<and> fst (bk_Delete (st_storage st) k w1) = None))
   \<and> (fst (ConfigurationProviderValidator_Validate cfg w) = None \<longleftrightarrow> fst (cp_GetHealth cfg w) = None)"
proof (intro conjI)
  show "fst (DbValidator_Validate db_Select key w) = None \<longleftrightarrow> snd (db_Select key w) = None"
    by (auto simp: DbValidator_Validate_def Wrap_def split: prod.splits)
  show "fst (ConfigurationProviderValidator_Validate cfg w) = None \<longleftrightarrow> fst (cp_GetHealth cfg w) = None"
    by (auto simp: ConfigurationProviderValidator_Validate_def Wrap_def split: prod.splits option.splits)
  show "fst (StorageAvailabilityValidator_Validate st nowNano nowUnix w) = None \<longleftrightarrow>
        (let k = ''.health-'' @ itoa nowNano; d = ''secret-'' @ itoa nowUnix;
             (e1, w1) = bk_WriteAll (st_storage st) k d w
         in e1 = None \<and> bk_ReadAll (st_storage st) k w1 = Inr d \<and> fst (bk_Delete (st_storage st) k w1) = None)"
    unfolding StorageAvailabilityValidator_Validate_def TestReadWrite_def Let_def
    by (cases "bk_WriteAll (st_storage st) (''.health-'' @ itoa nowNano) (''secret-'' @ itoa nowUnix) w")
      (auto simp: Wrap_def split: option.splits sum.splits prod.splits)
qed

end
