(* ===== verification/Http_Auth.thy ===== *)
theory Http_Auth
  imports Granted_Access Health Locking
begin

text \<open>
  The web layer, part one: responses (\<open>pkg/http/responses.go\<close>), the application container
  (\<open>pkg/core/ctx.go\<close>), the user of a request (\<open>pkg/http/utils.go\<close>), the callbacks of the
  authentication middleware and the routes about users and sessions (\<open>pkg/http/auth.go\<close>).

  gin and gin-jwt are not part of the repository: a request is the record of what the handlers
  read of it (\<open>request\<close>), a response is what they write (\<open>http_response\<close>). The token that
  gin-jwt has verified is \<open>rq_JWT_TOKEN\<close>, its verified claims are an argument of
  \<open>IdentityHandler\<close>. A handler returns its response, or panics, and the changed world.
\<close>

section \<open>Requests and responses\<close>

datatype payload =
    NoData
  | TextData string
  | VersionData UploadedVersion
  | VersionsData "UploadedVersion list"
  | HealthData "Status list"
  | ProfileData string Roles
  | WhoamiData string Roles string GrantedAccess
  | LoginData string string time
  | RevokedData string
  | SessionsData "GrantedAccess list"
  | FileData string int64

text \<open>\<open>rs_stream\<close> is what a handler wrote to the body before it answered.\<close>

record http_response =
  rs_code :: nat
  rs_status :: bool
  rs_error :: string
  rs_data :: payload
  rs_stream :: bytes

definition NotFoundResponse :: "error \<Rightarrow> http_response" where
  "NotFoundResponse err = \<lparr>rs_code = 404, rs_status = False, rs_error = err, rs_data = NoData, rs_stream = ''''\<rparr>"

definition OKResponse :: "payload \<Rightarrow> http_response" where
  "OKResponse data = \<lparr>rs_code = 200, rs_status = True, rs_error = '''', rs_data = data, rs_stream = ''''\<rparr>"

definition UnauthorizedResponse :: "error \<Rightarrow> http_response" where
  "UnauthorizedResponse err = \<lparr>rs_code = 403, rs_status = False, rs_error = err, rs_data = NoData, rs_stream = ''''\<rparr>"

definition ServerErrorResponse :: "error \<Rightarrow> http_response" where
  "ServerErrorResponse err = \<lparr>rs_code = 500, rs_status = False, rs_error = err, rs_data = NoData, rs_stream = ''''\<rparr>"

definition ServerErrorResponseWithData :: "error \<Rightarrow> payload \<Rightarrow> http_response" where
  "ServerErrorResponseWithData err data =
     \<lparr>rs_code = 500, rs_status = False, rs_error = err, rs_data = data, rs_stream = ''''\<rparr>"

definition RequestTimeoutResponse :: http_response where
  "RequestTimeoutResponse =
     \<lparr>rs_code = 408, rs_status = False, rs_error = ''Request took too long'', rs_data = NoData, rs_stream = ''''\<rparr>"

lemmas response_defs = NotFoundResponse_def OKResponse_def UnauthorizedResponse_def ServerErrorResponse_def
  ServerErrorResponseWithData_def

record request =
  rq_Authorization :: string
  rq_JWT_TOKEN :: string
  rq_collectionId :: string
  rq_versionNum :: string
  rq_userName :: string
  rq_Query :: "string \<Rightarrow> string option"
  rq_ContentType :: string
  rq_ClientIP :: string

section \<open>The container (core/ctx.go) and the third parties\<close>

record ('w, 'd) ApplicationContainer =
  app_Db :: "goint \<Rightarrow> 'w \<Rightarrow> goint \<times> error option"
  app_Config :: "('w, 'd) ConfigurationProvider"
  app_Users :: "('w, 'd) users_Service"
  app_GrantedAccesses :: "'w ga_sql"
  app_Collections :: "('w, 'd) ConfigurationProvider"
  app_Storage :: "'w storage_Service"
  app_JwtSecretKey :: string
  app_HealthCheckKey :: string
  app_Locks :: "'w lock_sql"
  app_UploadTimeout :: duration
  app_DownloadTimeout :: duration
  app_DefaultRPS :: "16 word"
  app_AuthRPM :: "16 word"
  app_CollectionHealthRPM :: "16 word"
  app_ServerHealthRPM :: "16 word"

record http_lib =
  hb_users :: users_lib
  hb_collections :: collections_lib
  hb_unmarshalScope :: scope_json
  hb_marshalScope :: "SessionLimitedOperationsScope option \<Rightarrow> string result"
  hb_argon2 :: argon2_pkg
  hb_health :: health_lib

abbreviation nil_deref :: "'a outcome" where
  "nil_deref \<equiv> Panic ''invalid memory address or nil pointer dereference''"

section \<open>The user of a request (utils.go)\<close>

text \<open>
  The user is read from the claims in the \<open>Authorization\<close> header, not from the token that the
  middleware has verified. Both branches of the last conditional are the same call.
\<close>

definition GetContextUser ::
    "http_lib \<Rightarrow> ('w, 'd) ApplicationContainer \<Rightarrow> request \<Rightarrow> 'w \<Rightarrow> SessionAwareUser result outcome" where
  "GetContextUser E ctx c w =
     bind_outcome (ExtractLoginFromJWT (ul_gjson (hb_users E)) (rq_Authorization c)) (\<lambda>(username, accessKeyName).
     bind_outcome (ExtractSessionLimitedOperationsScopeFromJWT (ul_gjson (hb_users E)) (hb_unmarshalScope E)
         (rq_Authorization c)) (\<lambda>scopeResult.
       case scopeResult of
         Inl scopeErr \<Rightarrow> Return (Inl (''cannot create context user: '' @ scopeErr))
       | Inr scope \<Rightarrow>
           (let identity = (NewUserIdentityFromString username)\<lparr>ui_AccessKeyName := accessKeyName\<rparr> in
            if accessKeyName \<noteq> '''' then LookupSessionUser (hb_users E) (app_Users ctx) identity scope w
            else LookupSessionUser (hb_users E) (app_Users ctx) identity scope w)))"

definition GetCurrentSessionId :: "request \<Rightarrow> string outcome" where
  "GetCurrentSessionId c =
     (let t = Trim (rq_Authorization c) '' '' in
      if 7 \<le> length t then Return (HashJWT (drop 7 t)) else Panic ''slice bounds out of range'')"

section \<open>The authentication middleware (auth.go)\<close>

record loginForm =
  lf_Username :: string
  lf_Password :: string
  lf_OperationsScope :: "SessionLimitedOperationsScope option"

record AuthUser =
  au_UserName :: string
  au_AccessKeyName :: string
  au_OperationsScope :: "SessionLimitedOperationsScope option"

datatype auth_error = ErrMissingLoginValues | ErrFailedAuthentication

text \<open>
  Claims by name. \<open>PayloadFunc\<close> puts the JSON text of the scope into the claims as a byte slice,
  which is base64 text in the token. Data of another type has no claims.
\<close>

type_synonym claims = "string \<Rightarrow> string option"

definition PayloadFunc :: "http_lib \<Rightarrow> nat \<Rightarrow> AuthUser option \<Rightarrow> claims" where
  "PayloadFunc E intn64 data =
     (case data of
        None \<Rightarrow> Map.empty
      | Some v \<Rightarrow>
          (case hb_marshalScope E (au_OperationsScope v) of
             Inl scopeErr \<Rightarrow> Map.empty
           | Inr scope \<Rightarrow>
               [''login'' \<mapsto> au_UserName v, ''accessKeyName'' \<mapsto> au_AccessKeyName v,
                ''operationsScope'' \<mapsto> EncodeToString scope, ''rand'' \<mapsto> itoa (int intn64)]))"

definition claim_string :: "string option \<Rightarrow> string outcome" where
  "claim_string v = (case v of None \<Rightarrow> Panic ''interface conversion'' | Some s \<Rightarrow> Return s)"

definition IdentityHandler ::
    "http_lib \<Rightarrow> ('w, 'd) ApplicationContainer \<Rightarrow> time \<Rightarrow> request \<Rightarrow> claims \<Rightarrow> 'w \<Rightarrow> AuthUser option outcome" where
  "IdentityHandler E di now c claims w =
     (if \<not> IsTokenStillValid (app_GrantedAccesses di) now (rq_JWT_TOKEN c) w then Return None
      else
        bind_outcome (claim_string (claims ''login'')) (\<lambda>username.
          let build = (\<lambda>opScope. bind_outcome (claim_string (claims ''accessKeyName'')) (\<lambda>key.
                 Return (Some \<lparr>au_UserName = username, au_AccessKeyName = key, au_OperationsScope = opScope\<rparr>)))
          in case claims ScopeClaimIndex of
               None \<Rightarrow> build (Some \<lparr>Elements = []\<rparr>)
             | Some val \<Rightarrow>
                 (case ExtractScopeFromString (hb_unmarshalScope E) val of
                    Inl scopeErr \<Rightarrow> Return None
                  | Inr opScope \<Rightarrow> build opScope)))"

definition Authenticator ::
    "http_lib \<Rightarrow> ('w, 'd) ApplicationContainer \<Rightarrow> loginForm result \<Rightarrow> 'w \<Rightarrow> (auth_error + AuthUser) outcome" where
  "Authenticator E di form w =
     (case form of
        Inl err \<Rightarrow> Return (Inl ErrMissingLoginValues)
      | Inr loginValues \<Rightarrow>
          (let userIdentity = NewUserIdentityFromString (lf_Username loginValues) in
           bind_outcome (LookupSessionUser (hb_users E) (app_Users di) userIdentity (lf_OperationsScope loginValues) w)
             (\<lambda>r. case r of
                Inl err \<Rightarrow> Return (Inl ErrFailedAuthentication)
              | Inr user \<Rightarrow>
                  bind_outcome (IsPasswordValid (hb_argon2 E) user (lf_Password loginValues) (ui_AccessKeyName userIdentity))
                    (\<lambda>valid. if \<not> valid then Return (Inl ErrFailedAuthentication)
                       else Return (Inr \<lparr>au_UserName = ui_Username userIdentity,
                         au_AccessKeyName = ui_AccessKeyName userIdentity,
                         au_OperationsScope = lf_OperationsScope loginValues\<rparr>)))))"

definition Authorizator :: "AuthUser option \<Rightarrow> bool" where
  "Authorizator data = (data \<noteq> None)"

definition LoginResponse ::
    "http_lib \<Rightarrow> ('w, 'd) ApplicationContainer \<Rightarrow> request \<Rightarrow> string \<Rightarrow> time \<Rightarrow> 'w \<Rightarrow> http_response outcome \<times> 'w" where
  "LoginResponse E di c token expire w =
     (case ExtractLoginFromJWT (ul_gjson (hb_users E)) token of
        Panic m \<Rightarrow> (Panic m, w)
      | Return (username, accessKey) \<Rightarrow>
          (let (hashedShortcut, w1) = StoreJWTAsGrantedAccess (app_GrantedAccesses di) token expire
                 (rq_ClientIP c) ''Login'' username accessKey w
           in if hashedShortcut = ''''
              then (Return (ServerErrorResponse ''too short interval between login attempts''), w1)
              else (Return (OKResponse (LoginData token hashedShortcut expire)), w1)))"

section \<open>Routes about users and sessions (auth.go)\<close>

definition lookupUserRoute ::
    "http_lib \<Rightarrow> ('w, 'd) ApplicationContainer \<Rightarrow> request \<Rightarrow> 'w \<Rightarrow> http_response outcome" where
  "lookupUserRoute E ctx c w =
     (case LookupUser (hb_users E) (app_Users ctx) (NewUserIdentityFromString (rq_userName c)) w of
        Inl err \<Rightarrow> Return (NotFoundResponse err)
      | Inr user \<Rightarrow>
          bind_outcome (GetContextUser E ctx c w) (\<lambda>ctxUser.
            case ctxUser of
              Inl err \<Rightarrow> nil_deref
            | Inr u \<Rightarrow>
                if \<not> CanViewMyProfile user (sau_Actor u)
                then Return (UnauthorizedResponse ''no permissions to view that user account'')
                else Return (OKResponse (ProfileData (us_Email (u_Spec user)) (us_Roles (u_Spec user))))))"

definition zero_GrantedAccess :: GrantedAccess where
  "zero_GrantedAccess = \<lparr>ga_CreatedAt = zero_time, ga_UpdatedAt = zero_time, ga_DeletedAt = None, ga_ID = '''',
     ga_ExpiresAt = zero_time, ga_Deactivated = False, ga_Description = '''', ga_RequesterIP = '''',
     ga_User = '''', ga_AccessKeyName = ''''\<rparr>"

text \<open>The error of the session lookup is ignored: the zero value is shown then.\<close>

definition whoamiRoute ::
    "http_lib \<Rightarrow> ('w, 'd) ApplicationContainer \<Rightarrow> request \<Rightarrow> 'w \<Rightarrow> http_response outcome" where
  "whoamiRoute E ctx c w =
     bind_outcome (GetContextUser E ctx c w) (\<lambda>ctxUser.
       let ga = (case GetGrantedAccessInformation (app_GrantedAccesses ctx) (rq_JWT_TOKEN c) w of
                   Inl err \<Rightarrow> zero_GrantedAccess | Inr ga \<Rightarrow> ga)
       in case ctxUser of
            Inl err \<Rightarrow> nil_deref
          | Inr u \<Rightarrow>
              bind_outcome (GetCurrentSessionId c) (\<lambda>sid.
                Return (OKResponse (WhoamiData (us_Email (u_Spec (sau_User u))) (us_Roles (u_Spec (sau_User u))) sid ga))))"

definition logoutRoute ::
    "http_lib \<Rightarrow> ('w, 'd) ApplicationContainer \<Rightarrow> request \<Rightarrow> 'w \<Rightarrow> http_response outcome \<times> 'w" where
  "logoutRoute E ctx c w =
     (let done = Return (OKResponse (RevokedData (HashJWT (rq_JWT_TOKEN c)))) in
      case GetContextUser E ctx c w of
        Panic m \<Rightarrow> (Panic m, w)
      | Return ctxUser \<Rightarrow>
          (case rq_Query c ''sessionId'' of
             Some tokenFromQuery \<Rightarrow>
               (case GetGrantedAccessInformationBySessionId (app_GrantedAccesses ctx) tokenFromQuery w of
                  Inl receiveErr \<Rightarrow> (Return (ServerErrorResponse receiveErr), w)
                | Inr gaFromQuery \<Rightarrow>
                    (case ctxUser of
                       Inl err \<Rightarrow> (nil_deref, w)
                     | Inr u \<Rightarrow>
                         if ga_User gaFromQuery \<noteq> om_Name (u_Metadata (sau_User u))
                            \<and> \<not> HasRole (User_GetRoles (sau_User u)) RoleSysAdmin
                         then (Return (UnauthorizedResponse ''you don't have permissions to revoke session of other user''), w)
                         else (case RevokeSessionBySessionId (app_GrantedAccesses ctx) tokenFromQuery w of
                                 (Some revokeErr, w1) \<Rightarrow> (Return (NotFoundResponse revokeErr), w1)
                               | (None, w1) \<Rightarrow> (done, w1))))
           | None \<Rightarrow>
               (case RevokeSessionByJWT (app_GrantedAccesses ctx) (rq_JWT_TOKEN c) w of
                  (Some revokeErr, w1) \<Rightarrow> (Return (ServerErrorResponse revokeErr), w1)
                | (None, w1) \<Rightarrow> (done, w1))))"

definition grantedAccessSearchRoute ::
    "http_lib \<Rightarrow> ('w, 'd) ApplicationContainer \<Rightarrow> request \<Rightarrow> 'w \<Rightarrow> http_response outcome" where
  "grantedAccessSearchRoute E ctx c w =
     bind_outcome (GetContextUser E ctx c w) (\<lambda>ctxUser.
       case ctxUser of
         Inl err \<Rightarrow> nil_deref
       | Inr u \<Rightarrow>
           (case rq_Query c ''userName'' of
              Some impersonateUser \<Rightarrow>
                if \<not> HasRole (User_GetRoles (sau_User u)) RoleSysAdmin
                then Return (UnauthorizedResponse ''no permissions to act as other user'')
                else Return (OKResponse (SessionsData
                  (GetAllGrantedAccessesForUserByUsername (app_GrantedAccesses ctx) impersonateUser w)))
            | None \<Rightarrow>
                Return (OKResponse (SessionsData
                  (GetAllGrantedAccessesForUserByUsername (app_GrantedAccesses ctx)
                    (om_Name (u_Metadata (sau_User u))) w)))))"

section \<open>Lemmas\<close>

abbreviation bearer :: "string \<Rightarrow> string \<Rightarrow> string \<Rightarrow> string" where
  "bearer h json sig \<equiv> ''Bearer '' @ token_text h json sig"

lemma toy_token: "same_alphabet ''{}''" "extractJsonFromJWT (bearer ''h'' ''{}'' sig) = Return (Inr ''{}'')"
proof -
  show s: "same_alphabet ''{}''" by code_simp
  show "extractJsonFromJWT (bearer ''h'' ''{}'' sig) = Return (Inr ''{}'')"
    using extractJson_token(1) [of "''h''" "''{}''" sig] s by simp
qed

lemma GetContextUser_header:
  assumes "extractJsonFromJWT (rq_Authorization c) = Return (Inr json)"
    and "ul_gjson (hb_users E) json ''operationsScope'' = Some (EncodeToString scopeJson)"
    and "hb_unmarshalScope E scopeJson = Inr scope"
  shows "GetContextUser E ctx c w = LookupSessionUser (hb_users E) (app_Users ctx)
     \<lparr>ui_Username = ui_Username (NewUserIdentityFromString (gjson_String (ul_gjson (hb_users E) json ''login''))),
      ui_AccessKeyName = gjson_String (ul_gjson (hb_users E) json ''accessKeyName'')\<rparr> scope w"
  using assms
  by (cases "NewUserIdentityFromString (gjson_String (ul_gjson (hb_users E) json ''login''))")
    (simp add: GetContextUser_def ExtractLoginFromJWT_def ExtractSessionLimitedOperationsScopeFromJWT_def
      json_or_empty_def ScopeClaimIndex_def ExtractScopeFromString_def Let_def)

lemma identity_parts:
  assumes "CHR ''$'' \<notin> set k"
  shows "NewUserIdentityFromString (u @ ''$'' @ k) = \<lparr>ui_Username = u, ui_AccessKeyName = k\<rparr>"
  using LastIndex_append [OF assms, of u] by (simp add: NewUserIdentityFromString_def)

lemma identity_plain:
  "CHR ''$'' \<notin> set u \<Longrightarrow> NewUserIdentityFromString u = \<lparr>ui_Username = u, ui_AccessKeyName = ''''\<rparr>"
  by (simp add: NewUserIdentityFromString_def)

lemma keyPasswordValid_key:
  "keyPasswordValid A keys password name = Return True \<Longrightarrow> \<exists>k \<in> set keys. ak_Name k = name"
  by (induction keys) (auto split: if_splits)

lemma Authenticator_success:
  assumes "Authenticator E di (Inr form) w = Return (Inr a)"
  obtains user where
    "LookupSessionUser (hb_users E) (app_Users di) (NewUserIdentityFromString (lf_Username form))
       (lf_OperationsScope form) w = Return (Inr user)"
    "IsPasswordValid (hb_argon2 E) user (lf_Password form)
       (ui_AccessKeyName (NewUserIdentityFromString (lf_Username form))) = Return True"
    "a = \<lparr>au_UserName = ui_Username (NewUserIdentityFromString (lf_Username form)),
       au_AccessKeyName = ui_AccessKeyName (NewUserIdentityFromString (lf_Username form)),
       au_OperationsScope = lf_OperationsScope form\<rparr>"
  using assms
  by (auto simp: Authenticator_def Let_def elim!: bind_outcomeE split: sum.split_asm if_split_asm)

section \<open>Properties\<close>

text \<open>
  C15. Who logs in. A login succeeds only for a user that exists and whose password check, for the
  access key named in the login or for the user's own password, accepts the given password; a
  login through an access key requires that the user has a key of that name; and the session is
  issued for exactly the parts of the login and the requested scope.
\<close>

theorem login_sound:
  assumes "Authenticator E di (Inr form) w = Return (Inr a)"
  shows "\<exists>user. LookupSessionUser (hb_users E) (app_Users di) (NewUserIdentityFromString (lf_Username form))
        (lf_OperationsScope form) w = Return (Inr user)
     \<and> IsPasswordValid (hb_argon2 E) user (lf_Password form) (au_AccessKeyName a) = Return True
     \<and> lf_Username form = au_UserName a @ (if au_AccessKeyName a = '''' \<and> CHR ''$'' \<notin> set (lf_Username form)
          then '''' else ''$'' @ au_AccessKeyName a)
     \<and> au_OperationsScope a = lf_OperationsScope form
     \<and> (au_AccessKeyName a \<noteq> '''' \<longrightarrow>
          (\<exists>k. Some k \<in> set (us_AccessKeys (u_Spec (sau_User user))) \<and> ak_Name k = au_AccessKeyName a))"
proof -
  from Authenticator_success [OF assms] obtain user where
    look: "LookupSessionUser (hb_users E) (app_Users di) (NewUserIdentityFromString (lf_Username form))
        (lf_OperationsScope form) w = Return (Inr user)"
    and pw: "IsPasswordValid (hb_argon2 E) user (lf_Password form)
       (ui_AccessKeyName (NewUserIdentityFromString (lf_Username form))) = Return True"
    and a: "a = \<lparr>au_UserName = ui_Username (NewUserIdentityFromString (lf_Username form)),
       au_AccessKeyName = ui_AccessKeyName (NewUserIdentityFromString (lf_Username form)),
       au_OperationsScope = lf_OperationsScope form\<rparr>" .
  have parts: "lf_Username form = au_UserName a @ (if au_AccessKeyName a = '''' \<and> CHR ''$'' \<notin> set (lf_Username form)
          then '''' else ''$'' @ au_AccessKeyName a)"
  proof (cases "CHR ''$'' \<in> set (lf_Username form)")
    case True
    then obtain p q where "lf_Username form = p @ ''$'' @ q" "CHR ''$'' \<notin> set q"
      using LastIndex_decomp by (metis append_Cons append_Nil)
    then show ?thesis using identity_parts a by simp
  next
    case False
    then show ?thesis using identity_plain a by simp
  qed
  have key: "\<exists>k. Some k \<in> set (us_AccessKeys (u_Spec (sau_User user))) \<and> ak_Name k = au_AccessKeyName a"
    if ne: "au_AccessKeyName a \<noteq> ''''"
  proof -
    from LookupSessionUser_result [OF look] obtain ks where ks:
      "us_AccessKeys (u_Spec (sau_User user)) = map Some ks" "list_all2 key_copy ks (sau_accessKeysFromSecret user)"
      by metis
    from pw ne a have "keyPasswordValid (hb_argon2 E) (sau_accessKeysFromSecret user) (lf_Password form)
        (au_AccessKeyName a) = Return True" by (simp add: IsPasswordValid_def)
    then obtain c where "c \<in> set (sau_accessKeysFromSecret user)" "ak_Name c = au_AccessKeyName a"
      using keyPasswordValid_key by blast
    with list_all2_right [OF ks(2)] key_copy_simps(1) ks(1) show ?thesis by fastforce
  qed
  show ?thesis using look pw a parts key by auto
qed

text \<open>The toy user behind a complete container, for concrete requests.\<close>

definition toy_http :: "User \<Rightarrow> string \<Rightarrow> http_lib" where
  "toy_http u login = \<lparr>
     hb_users = \<lparr>ul_gjson = (\<lambda>_ k. if k = ''login'' then Some login
        else if k = ''operationsScope'' then Some (EncodeToString ''null'') else None),
        ul_UnmarshalUser = (\<lambda>_. Inr u)\<rparr>,
     hb_collections = toy_clib, hb_unmarshalScope = (\<lambda>_. Inr None), hb_marshalScope = (\<lambda>_. Inr ''null''),
     hb_argon2 = toy_argon2, hb_health = toy_hlib\<rparr>"

definition toy_app :: "('w, unit) ApplicationContainer" where
  "toy_app = \<lparr>app_Db = (\<lambda>k w. (k, None)), app_Config = toy_provider, app_Users = NewUsersService toy_provider,
     app_GrantedAccesses = \<lparr>sql_ga_create = (\<lambda>_ w. (None, w)), sql_ga_first = (\<lambda>_ _. Inl ''''),
       sql_ga_exists = (\<lambda>_ _. Inr False), sql_ga_deactivate = (\<lambda>_ w. (None, w)),
       sql_ga_of_user = (\<lambda>_ _. []), sql_ga_find_one = (\<lambda>_ _. Inl '''')\<rparr>,
     app_Collections = toy_provider,
     app_Storage = \<lparr>st_storage = \<lparr>bk_NewWriter = (\<lambda>_ w. (None, w)), bk_CloseNil = Return (),
       bk_CloseWriter = (\<lambda>_ _ w. w), bk_Exists = (\<lambda>_ _. (False, None)), bk_Attributes = (\<lambda>_ _. None),
       bk_Delete = (\<lambda>_ w. (None, w)), bk_NewReader = (\<lambda>_ _. Inl ''''), bk_CloseNilReader = Return (),
       bk_WriteAll = (\<lambda>_ _ w. (None, w)), bk_ReadAll = (\<lambda>_ _. Inl '''')\<rparr>,
       st_repository = \<lparr>sql_ver_max = (\<lambda>_ _. Inl ''''), sql_ver_all = (\<lambda>_ _. Inl ''''),
       sql_ver_delete = (\<lambda>_ w. (None, w)), sql_ver_create = (\<lambda>_ w. (None, w)),
       sql_ver_by_num = (\<lambda>_ _ _. Inl ''''), sql_ver_active = (\<lambda>_ _. Inl '''')\<rparr>,
       st_HealthTimeout = 0, st_IOTimeout = 0\<rparr>,
     app_JwtSecretKey = '''', app_HealthCheckKey = '''',
     app_Locks = \<lparr>sql_count_unexpired = (\<lambda>_ _ _. 0), sql_insert_lock = (\<lambda>_ _ w. (None, w)),
       sql_delete_lock = (\<lambda>_ w. w), sql_delete_expired = (\<lambda>_ w. w)\<rparr>,
     app_UploadTimeout = 0, app_DownloadTimeout = 0,
     app_DefaultRPS = 5, app_AuthRPM = 10, app_CollectionHealthRPM = 10, app_ServerHealthRPM = 160\<rparr>"

definition toy_request :: request where
  "toy_request = \<lparr>rq_Authorization = '''', rq_JWT_TOKEN = '''', rq_collectionId = ''iwa'', rq_versionNum = ''latest'',
     rq_userName = ''admin'', rq_Query = Map.empty, rq_ContentType = '''', rq_ClientIP = ''127.0.0.1''\<rparr>"

lemma toy_lookup:
  "LookupSessionUser (hb_users (toy_http (toy_user [] h) login)) (app_Users toy_app) i scope w
    = Return (Inr (NewSessionAwareUser (toy_user [] h) scope))"
  by (simp add: lookup_defs toy_http_def toy_app_def toy_provider_def toy_user_def)

theorem login_sound_witness:
  "\<exists>h a. CreateHashFromPassword toy_argon2 (Inr ''salt'') ''riotkit'' = Return (Inr h)
     \<and> Authenticator (toy_http (toy_user [] h) ''admin'') toy_app
         (Inr \<lparr>lf_Username = ''admin'', lf_Password = ''riotkit'', lf_OperationsScope = None\<rparr>) () = Return (Inr a)
     \<and> (\<exists>user. IsPasswordValid toy_argon2 user ''riotkit'' (au_AccessKeyName a) = Return True)
     \<and> au_OperationsScope a = None"
proof -
  obtain h where h: "CreateHashFromPassword toy_argon2 (Inr ''salt'') ''riotkit'' = Return (Inr h)"
    "\<And>pw'. ComparePassword toy_argon2 pw' h =
          Return (Inr (IDKey toy_argon2 pw' ''salt'' 1 65536 4 32 = IDKey toy_argon2 ''riotkit'' ''salt'' 1 65536 4 32))"
    using created_hash_compare [OF toy_argon2_ok] by blast
  have i: "NewUserIdentityFromString ''admin'' = \<lparr>ui_Username = ''admin'', ui_AccessKeyName = ''''\<rparr>"
    by (simp add: NewUserIdentityFromString_def)
  let ?form = "\<lparr>lf_Username = ''admin'', lf_Password = ''riotkit'', lf_OperationsScope = None\<rparr>"
  have t: "hb_argon2 (toy_http (toy_user [] h) ''admin'') = toy_argon2" by (simp add: toy_http_def)
  have p: "IsPasswordValid toy_argon2 (NewSessionAwareUser (toy_user [] h) None) ''riotkit'' '''' = Return True"
    using h(2) by (simp add: IsPasswordValid_def isPasswordValid_def NewSessionAwareUser_def
        getPasswordHash_def toy_user_def)
  obtain a where a: "Authenticator (toy_http (toy_user [] h) ''admin'') toy_app (Inr ?form) () = Return (Inr a)"
    using p by (simp add: Authenticator_def i toy_lookup t Let_def)
  from login_sound [OF a] have "\<exists>user. IsPasswordValid toy_argon2 user ''riotkit'' (au_AccessKeyName a) = Return True"
    "au_OperationsScope a = None" unfolding t by auto
  with h(1) a show ?thesis by blast
qed

text \<open>
  What gin-jwt documents of the place where it finds the token it verifies. The middleware is
  configured with \<open>TokenLookup: "header: Authorization, query: token, cookie: jwt"\<close> and
  \<open>TokenHeadName: "Bearer"\<close>: the sources are tried in this order, and a header that does not begin
  with the head name holds no token. \<open>tok c\<close> is the token of the request \<open>c\<close>.
\<close>

definition jwt_lookup_ok :: "(request \<Rightarrow> string option) \<Rightarrow> bool" where
  "jwt_lookup_ok tok \<longleftrightarrow> (\<forall>c t. \<not> HasPrefix (rq_Authorization c) ''Bearer '' \<longrightarrow>
     rq_Query c ''token'' = Some t \<longrightarrow> t \<noteq> '''' \<longrightarrow> tok c = Some t)"

lemma claims_identify:
  assumes "hb_marshalScope E (au_OperationsScope a) = Inr txt"
    and "hb_unmarshalScope E txt = Inr (au_OperationsScope a)"
  shows "IdentityHandler E di now c (PayloadFunc E r (Some a)) w =
     Return (if IsTokenStillValid (app_GrantedAccesses di) now (rq_JWT_TOKEN c) w then Some a else None)"
  using assms
  by (simp add: IdentityHandler_def PayloadFunc_def claim_string_def ScopeClaimIndex_def ExtractScopeFromString_def
      Let_def)

text \<open>
  C36. The middleware verifies one token and the code believes another. Somebody with a valid
  session of his own (the user \<open>a\<close>) sends his token \<open>t\<close> in the query and, in the header and
  without the word \<open>Bearer\<close>, a text of his making: any header part, the claims he likes, no valid
  signature. The middleware takes the token of the query, verifies it and identifies \<open>a\<close>; but
  the acting user of the request is the one that the claims in the header name.
\<close>

theorem context_user_ignores_verified_token:
  assumes "jwt_lookup_ok tok" and "rq_Query c ''token'' = Some t" and "t \<noteq> ''''"
    and "hb_marshalScope E (au_OperationsScope a) = Inr txt" and "hb_unmarshalScope E txt = Inr (au_OperationsScope a)"
    and "IsTokenStillValid (app_GrantedAccesses ctx) now t w"
    and "rq_Authorization c = token_text h json sig" and "\<not> HasPrefix (rq_Authorization c) ''Bearer''"
    and "CHR ''.'' \<notin> set h" and "same_alphabet json"
    and "ul_gjson (hb_users E) json ''operationsScope'' = Some (EncodeToString scopeJson)"
    and "hb_unmarshalScope E scopeJson = Inr scope"
    and "ul_gjson (hb_users E) json ''login'' = Some u" and "CHR ''$'' \<notin> set u"
    and "ul_gjson (hb_users E) json ''accessKeyName'' = Some k"
  shows "tok c = Some t
    \<and> IdentityHandler E ctx now (c\<lparr>rq_JWT_TOKEN := t\<rparr>) (PayloadFunc E r (Some a)) w = Return (Some a)
    \<and> GetContextUser E ctx (c\<lparr>rq_JWT_TOKEN := t\<rparr>) w =
        LookupSessionUser (hb_users E) (app_Users ctx) \<lparr>ui_Username = u, ui_AccessKeyName = k\<rparr> scope w"
proof (intro conjI)
  have "\<not> HasPrefix (rq_Authorization c) ''Bearer ''"
    using assms(8) by (auto simp: HasPrefix_def dest: append_prefixD [of "''Bearer''" "'' ''", simplified])
  with assms(1-3) show "tok c = Some t" by (simp add: jwt_lookup_ok_def)
  show "IdentityHandler E ctx now (c\<lparr>rq_JWT_TOKEN := t\<rparr>) (PayloadFunc E r (Some a)) w = Return (Some a)"
    using claims_identify [OF assms(4,5), of ctx now "c\<lparr>rq_JWT_TOKEN := t\<rparr>" r w] assms(6) by simp
  have "extractJsonFromJWT (rq_Authorization c) = Return (Inr json)"
    using extractJson_token(2) [OF assms(9), of json sig] assms(7,8,10) by simp
  then show "GetContextUser E ctx (c\<lparr>rq_JWT_TOKEN := t\<rparr>) w =
        LookupSessionUser (hb_users E) (app_Users ctx) \<lparr>ui_Username = u, ui_AccessKeyName = k\<rparr> scope w"
    using GetContextUser_header [of "c\<lparr>rq_JWT_TOKEN := t\<rparr>" json E scopeJson scope ctx w] assms(11-15)
    by (simp add: gjson_String_def identity_plain)
qed

definition key_gjson :: gjson where
  "key_gjson = (\<lambda>_ k. if k = ''login'' then Some ''admin'' else if k = ''accessKeyName'' then Some ''''
     else if k = ''operationsScope'' then Some (EncodeToString ''null'') else None)"

text \<open>A server with one valid session, and a request that names the administrator in its header.\<close>

definition valid_app :: "(unit, unit) ApplicationContainer" where
  "valid_app = toy_app\<lparr>app_GrantedAccesses := (app_GrantedAccesses toy_app)\<lparr>
     sql_ga_first := (\<lambda>_ _. Inr (NewGrantedAccess ''t'' 100 False '''' '''' ''guest'' ''''))\<rparr>\<rparr>"

definition forged_request :: request where
  "forged_request = toy_request\<lparr>rq_Authorization := token_text ''h'' ''{}'' ''forged'', rq_Query := [''token'' \<mapsto> ''t'']\<rparr>"

theorem context_user_ignores_verified_token_witness:
  "\<exists>E saUser. IdentityHandler E valid_app 7 (forged_request\<lparr>rq_JWT_TOKEN := ''t''\<rparr>)
        (PayloadFunc E 0 (Some \<lparr>au_UserName = ''guest'', au_AccessKeyName = '''', au_OperationsScope = None\<rparr>)) ()
      = Return (Some \<lparr>au_UserName = ''guest'', au_AccessKeyName = '''', au_OperationsScope = None\<rparr>)
     \<and> GetContextUser E valid_app (forged_request\<lparr>rq_JWT_TOKEN := ''t''\<rparr>) () = Return (Inr saUser)
     \<and> om_Name (u_Metadata (sau_User saUser)) = ''admin''"
proof -
  let ?E = "(toy_http (toy_user [] ''m'') ''admin'')\<lparr>hb_users := \<lparr>ul_gjson = key_gjson, ul_UnmarshalUser = (\<lambda>_. Inr (toy_user [] ''m''))\<rparr>\<rparr>"
  have lookup: "jwt_lookup_ok (\<lambda>c. rq_Query c ''token'')" by (simp add: jwt_lookup_ok_def)
  have query: "rq_Query forged_request ''token'' = Some ''t''" by (simp add: forged_request_def)
  have header: "rq_Authorization forged_request = token_text ''h'' ''{}'' ''forged''" by (simp add: forged_request_def)
  have valid: "IsTokenStillValid (app_GrantedAccesses valid_app) 7 ''t'' ()"
    by (simp add: IsTokenStillValid_def getGrantedAccessByHashedToken_def valid_app_def ga_IsValid_def IsNotExpired_def
        NewGrantedAccess_def)
  have both: "IdentityHandler ?E valid_app 7 (forged_request\<lparr>rq_JWT_TOKEN := ''t''\<rparr>)
        (PayloadFunc ?E 0 (Some \<lparr>au_UserName = ''guest'', au_AccessKeyName = '''', au_OperationsScope = None\<rparr>)) ()
      = Return (Some \<lparr>au_UserName = ''guest'', au_AccessKeyName = '''', au_OperationsScope = None\<rparr>)
     \<and> GetContextUser ?E valid_app (forged_request\<lparr>rq_JWT_TOKEN := ''t''\<rparr>) () =
        LookupSessionUser (hb_users ?E) (app_Users valid_app) \<lparr>ui_Username = ''admin'', ui_AccessKeyName = ''''\<rparr> None ()"
    using context_user_ignores_verified_token [OF lookup query _ _ _ valid header, of ?E
        "\<lparr>au_UserName = ''guest'', au_AccessKeyName = '''', au_OperationsScope = None\<rparr>" "''null''" "''null''" None "''admin''" "''''" 0]
    by (simp add: header HasPrefix_def toy_token(1) key_gjson_def toy_http_def)
  obtain saUser where "LookupSessionUser (hb_users ?E) (app_Users valid_app) \<lparr>ui_Username = ''admin'', ui_AccessKeyName = ''''\<rparr> None ()
      = Return (Inr saUser)" "om_Name (u_Metadata (sau_User saUser)) = ''admin''"
    by (simp add: lookup_defs valid_app_def toy_app_def toy_provider_def toy_user_def)
  with both show ?thesis by (intro exI [of _ ?E] exI [of _ saUser]) simp
qed

text \<open>
  C37. A user name with a dollar sign becomes another user. After a login of \<open>p$q$k\<close> the session
  is issued for the user \<open>p$q\<close>, but the acting user of its requests, with any header from which
  the code reads the claims of that session, is the user \<open>p\<close>, because the user name of the token
  is cut again.
\<close>

theorem dollar_user_acts_as_another:
  assumes "Authenticator E di (Inr form) w0 = Return (Inr a)"
    and "lf_Username form = p @ ''$'' @ q @ ''$'' @ k" and "CHR ''$'' \<notin> set q" and "CHR ''$'' \<notin> set k"
    and "extractJsonFromJWT (rq_Authorization c) = Return (Inr json)"
    and "ul_gjson (hb_users E) json ''operationsScope'' = Some (EncodeToString scopeJson)"
    and "hb_unmarshalScope E scopeJson = Inr scope"
    and "ul_gjson (hb_users E) json ''login'' = Some (au_UserName a)"
    and "ul_gjson (hb_users E) json ''accessKeyName'' = Some (au_AccessKeyName a)"
  shows "au_UserName a = p @ ''$'' @ q \<and> au_AccessKeyName a = k
    \<and> GetContextUser E di c w =
        LookupSessionUser (hb_users E) (app_Users di) \<lparr>ui_Username = p, ui_AccessKeyName = k\<rparr> scope w"
proof -
  have "NewUserIdentityFromString (lf_Username form) = \<lparr>ui_Username = p @ ''$'' @ q, ui_AccessKeyName = k\<rparr>"
    using identity_parts [OF assms(4), of "p @ ''$'' @ q"] assms(2) by simp
  then have a: "au_UserName a = p @ ''$'' @ q" "au_AccessKeyName a = k"
    using Authenticator_success [OF assms(1)] by (metis AuthUser.select_convs(1,2) UserIdentity.select_convs(1,2))+
  with GetContextUser_header [OF assms(5-7), of di w] assms(8,9) identity_parts [OF assms(3), of p]
  show ?thesis by (simp add: gjson_String_def)
qed

definition dollar_gjson :: gjson where
  "dollar_gjson = (\<lambda>_ k. if k = ''login'' then Some ''admin$root'' else if k = ''accessKeyName'' then Some ''''
     else if k = ''operationsScope'' then Some (EncodeToString ''null'') else None)"

theorem dollar_user_acts_as_another_witness:
  "\<exists>h a. Authenticator (toy_http (toy_user [] h) ''admin$root'') toy_app
         (Inr \<lparr>lf_Username = ''admin$root$'', lf_Password = ''riotkit'', lf_OperationsScope = None\<rparr>) ()
       = Return (Inr a)
     \<and> au_UserName a = ''admin$root''
     \<and> GetContextUser (toy_http (toy_user [] h) ''admin$root''
           \<lparr>hb_users := \<lparr>ul_gjson = dollar_gjson, ul_UnmarshalUser = (\<lambda>_. Inr (toy_user [] h))\<rparr>\<rparr>)
         toy_app (toy_request\<lparr>rq_Authorization := bearer ''h'' ''{}'' ''s''\<rparr>) ()
       = LookupSessionUser \<lparr>ul_gjson = dollar_gjson, ul_UnmarshalUser = (\<lambda>_. Inr (toy_user [] h))\<rparr> (app_Users toy_app)
           \<lparr>ui_Username = ''admin'', ui_AccessKeyName = ''''\<rparr> None ()"
proof -
  obtain h where h: "\<And>pw'. ComparePassword toy_argon2 pw' h =
          Return (Inr (IDKey toy_argon2 pw' ''salt'' 1 65536 4 32 = IDKey toy_argon2 ''riotkit'' ''salt'' 1 65536 4 32))"
    using created_hash_compare [OF toy_argon2_ok] by blast
  let ?u = "\<lparr>ul_gjson = dollar_gjson, ul_UnmarshalUser = (\<lambda>_. Inr (toy_user [] h))\<rparr>"
  let ?E = "toy_http (toy_user [] h) ''admin$root''\<lparr>hb_users := ?u\<rparr>"
  let ?form = "\<lparr>lf_Username = ''admin$root$'', lf_Password = ''riotkit'', lf_OperationsScope = None\<rparr>"
  have i: "NewUserIdentityFromString ''admin$root$'' = \<lparr>ui_Username = ''admin$root'', ui_AccessKeyName = ''''\<rparr>"
    using identity_parts [of "''''" "''admin$root''"] by simp
  have l: "LookupSessionUser (hb_users (toy_http (toy_user [] h) ''admin$root'')) (app_Users toy_app) j None ()
      = Return (Inr (NewSessionAwareUser (toy_user [] h) None))"
    "LookupSessionUser ?u (app_Users toy_app) j None () = Return (Inr (NewSessionAwareUser (toy_user [] h) None))" for j
    by (rule toy_lookup) (simp add: lookup_defs toy_app_def toy_provider_def toy_user_def)
  have p: "IsPasswordValid toy_argon2 (NewSessionAwareUser (toy_user [] h) None) ''riotkit'' '''' = Return True"
    using h by (simp add: IsPasswordValid_def isPasswordValid_def NewSessionAwareUser_def getPasswordHash_def toy_user_def)
  have t: "hb_argon2 (toy_http (toy_user [] h) ''admin$root'') = toy_argon2"
    "hb_unmarshalScope (toy_http (toy_user [] h) ''admin$root'') = (\<lambda>_. Inr None)" by (simp_all add: toy_http_def)
  obtain a where a: "Authenticator (toy_http (toy_user [] h) ''admin$root'') toy_app (Inr ?form) () = Return (Inr a)"
      "Authenticator ?E toy_app (Inr ?form) () = Return (Inr a)"
    and n: "au_UserName a = ''admin$root''" "au_AccessKeyName a = ''''"
    using p by (simp add: Authenticator_def i l t Let_def)
  have "GetContextUser ?E toy_app (toy_request\<lparr>rq_Authorization := bearer ''h'' ''{}'' ''s''\<rparr>) ()
      = LookupSessionUser ?u (app_Users toy_app) \<lparr>ui_Username = ''admin'', ui_AccessKeyName = ''''\<rparr> None ()"
    using dollar_user_acts_as_another [OF a(2), of "''admin''" "''root''" "''''"
        "toy_request\<lparr>rq_Authorization := bearer ''h'' ''{}'' ''s''\<rparr>" "''{}''" "''null''" None "()"] toy_token(2) [of "''s''"]
    by (simp add: dollar_gjson_def n t)
  with a(1) n(1) show ?thesis by blast
qed

text \<open>
  C17. Claims and identities correspond. The claims that \<open>PayloadFunc\<close> writes for a user are read
  back by \<open>IdentityHandler\<close> as the same user, key and scope while the session of the token is
  valid, and as nobody once it is not, for every codec that decodes the scopes it encodes.
\<close>

theorem identity_of_issued_claims:
  assumes "hb_marshalScope E (au_OperationsScope a) = Inr txt"
    and "hb_unmarshalScope E txt = Inr (au_OperationsScope a)"
  shows "IdentityHandler E di now c (PayloadFunc E r (Some a)) w =
     Return (if IsTokenStillValid (app_GrantedAccesses di) now (rq_JWT_TOKEN c) w then Some a else None)"
  using assms by (rule claims_identify)

theorem identity_of_issued_claims_witness:
  "IdentityHandler (toy_http (toy_user [] ''m'') ''admin'') toy_app 0 toy_request
      (PayloadFunc (toy_http (toy_user [] ''m'') ''admin'') 7
        (Some \<lparr>au_UserName = ''admin'', au_AccessKeyName = '''', au_OperationsScope = None\<rparr>)) ()
    = Return None"
  by (subst identity_of_issued_claims [of _ _ "''null''"])
    (simp_all add: toy_http_def IsTokenStillValid_def getGrantedAccessByHashedToken_def toy_app_def)

text \<open>
  C16. Logging out. When a logout request succeeds, the session it names (the one of the verified
  token, or the one given in the query) is revoked and no other session has changed; and a
  session given in the query belongs to the acting user, or the acting user is a system
  administrator.
\<close>

theorem logout_authorised:
  assumes "sessions_ok (app_GrantedAccesses ctx) T" and "sessions_respond (app_GrantedAccesses ctx) T"
    and "logoutRoute E ctx c w = (Return resp, w')" and "rs_code resp = 200"
    and "target = (case rq_Query c ''sessionId'' of None \<Rightarrow> HashJWT (rq_JWT_TOKEN c) | Some sid \<Rightarrow> sid)"
  shows "revoked (T w') target \<and> (\<forall>i. i \<noteq> target \<longrightarrow> T w' i = T w i)
    \<and> (rq_Query c ''sessionId'' \<noteq> None \<longrightarrow>
        (\<exists>u ga. GetContextUser E ctx c w = Return (Inr u)
          \<and> sql_ga_find_one (app_GrantedAccesses ctx) target w = Inr ga
          \<and> (ga_User ga = om_Name (u_Metadata (sau_User u)) \<or> RoleSysAdmin \<in> set (us_Roles (u_Spec (sau_User u))))))"
proof (cases "rq_Query c ''sessionId''")
  case None
  then have "RevokeSessionBySessionId (app_GrantedAccesses ctx) target w = (None, w')"
    using assms(3-5)
    by (auto simp: logoutRoute_def RevokeSessionByJWT_def response_defs Let_def
        split: outcome.split_asm option.split_asm prod.split_asm)
  with revoke_effect [OF assms(1,2)] None show ?thesis by simp
next
  case (Some sid)
  obtain u ga where u: "GetContextUser E ctx c w = Return (Inr u)"
    "sql_ga_find_one (app_GrantedAccesses ctx) sid w = Inr ga"
    "ga_User ga = om_Name (u_Metadata (sau_User u)) \<or> HasRole (User_GetRoles (sau_User u)) RoleSysAdmin"
    and rev: "RevokeSessionBySessionId (app_GrantedAccesses ctx) sid w = (None, w')"
    using assms(3,4) Some
    by (auto simp: logoutRoute_def response_defs GetGrantedAccessInformationBySessionId_def findOneBySessionId_def
        Let_def split: outcome.split_asm option.split_asm prod.split_asm sum.split_asm if_split_asm)
  have "target = sid" using assms(5) Some by simp
  with revoke_effect [OF assms(1,2) rev] u show ?thesis by (auto simp: HasRole_def User_GetRoles_def)
qed

definition session_app :: "(string \<Rightarrow> GrantedAccess option, unit) ApplicationContainer" where
  "session_app = toy_app\<lparr>app_GrantedAccesses := mem_sessions\<rparr>"

theorem logout_authorised_witness:
  "\<exists>resp w'. logoutRoute (toy_http (toy_user [] ''m'') ''admin'') session_app
       (toy_request\<lparr>rq_Authorization := bearer ''h'' ''{}'' ''s'', rq_JWT_TOKEN := ''t''\<rparr>)
       [HashJWT ''t'' \<mapsto> NewGrantedAccess ''t'' 100 False '''' '''' ''admin'' ''''] = (Return resp, w')
     \<and> revoked w' (HashJWT ''t'')"
proof -
  let ?E = "toy_http (toy_user [] ''m'') ''admin''"
  let ?c = "toy_request\<lparr>rq_Authorization := bearer ''h'' ''{}'' ''s'', rq_JWT_TOKEN := ''t''\<rparr>"
  let ?w = "[HashJWT ''t'' \<mapsto> NewGrantedAccess ''t'' 100 False '''' '''' ''admin'' '''']"
  have ga: "app_GrantedAccesses session_app = mem_sessions" by (simp add: session_app_def)
  have "GetContextUser ?E session_app ?c ?w = LookupSessionUser (hb_users ?E) (app_Users session_app)
     \<lparr>ui_Username = ''admin'', ui_AccessKeyName = ''''\<rparr> None ?w"
    using toy_token(2) [of "''s''"]
    by (subst GetContextUser_header [of _ "''{}''" _ "''null''" None])
      (simp_all add: toy_http_def gjson_String_def identity_plain)
  then have u: "GetContextUser ?E session_app ?c ?w = Return (Inr (NewSessionAwareUser (toy_user [] ''m'') None))"
    by (simp add: session_app_def toy_lookup)
  have q: "rq_Query ?c ''sessionId'' = None" "rq_JWT_TOKEN ?c = ''t''" by (simp_all add: toy_request_def)
  obtain w' where r: "RevokeSessionByJWT mem_sessions ''t'' ?w = (None, w')"
    by (simp add: RevokeSessionByJWT_def RevokeSessionBySessionId_def checkSessionExistsById_def
        revokeById_def mem_sessions_def)
  obtain resp where l: "logoutRoute ?E session_app ?c ?w = (Return resp, w')" and code: "rs_code resp = 200"
    unfolding logoutRoute_def u Let_def q ga by (simp add: r OKResponse_def)
  have "revoked w' (HashJWT ''t'')"
    using logout_authorised [OF _ _ l code, of "\<lambda>m. m" "HashJWT ''t''"] mem_sessions_ok mem_sessions_respond q ga
    by simp
  with l show ?thesis by blast
qed

end
