(* ===== verification/Http_Collections.thy ===== *)
theory Http_Collections
  imports Http_Auth
begin

text \<open>
  The web layer, part two: the routes of a collection (\<open>pkg/http/collection.go\<close>) and of the
  server health (\<open>pkg/http/health.go\<close>).

  A handler that never returns because a read never returns is \<open>None\<close>. The deferred release of
  the lock runs on every other way out, a panic included. The wrapper that answers 408 after a
  timeout while the handler goes on, and the rate limits, belong to third parties.
\<close>

section \<open>Upload\<close>

text \<open>
  What happens around one upload: the clock reading of the window check, the readings of the
  lock, the generated identifier, what \<open>FormFile\<close> and \<open>Open\<close> of the file return (a nil stream is
  \<open>None\<close>), the events of the body, whether the client cancelled the request within two seconds
  after the body, and the instant that gorm writes into the created row.
\<close>

record upload_env =
  up_now :: time
  up_lock :: lock_env
  up_newId :: string
  up_FormFile :: "(read_event list option \<times> error option) result"
  up_Body :: "read_event list"
  up_cancelled :: bool
  up_created :: time

text \<open>
  The stream to read from, after the responses that were written before it was chosen: a file
  that cannot be opened is answered, but the handler goes on. Deferring \<open>Close\<close> on a nil stream
  panics at once.
\<close>

definition uploadStream ::
    "upload_env \<Rightarrow> request \<Rightarrow> (http_response + http_response list \<times> read_event list) outcome" where
  "uploadStream env c =
     (if rq_ContentType c = ''application/x-www-form-urlencoded'' \<or> rq_ContentType c = ''multipart/form-data''
      then (case up_FormFile env of
              Inl ffErr \<Rightarrow> Return (Inl (ServerErrorResponse
                (''cannot read file from multipart/urlencoded form: '' @ ffErr)))
            | Inr (None, openErr) \<Rightarrow> nil_deref
            | Inr (Some stream, None) \<Rightarrow> Return (Inr ([], stream))
            | Inr (Some stream, Some openErr) \<Rightarrow> Return (Inr ([ServerErrorResponse
                (''cannot open file from multipart/urlencoded form: '' @ openErr)], stream)))
      else Return (Inr ([], up_Body env)))"

text \<open>Appending the version to the registry; when that fails the version is deleted again.\<close>

definition registerUploaded :: "'w storage_Service \<Rightarrow> UploadedVersion \<Rightarrow> 'w \<Rightarrow> 'w" where
  "registerUploaded s version w =
     (case RegisterVersion s version w of
        (None, w1) \<Rightarrow> w1
      | (Some err, w1) \<Rightarrow> snd (Delete s version w1))"

text \<open>From the middlewares on: copy, register, rotate.\<close>

definition uploadVersion ::
    "http_lib \<Rightarrow> ('w, 'd) ApplicationContainer \<Rightarrow> upload_env \<Rightarrow> Collection \<Rightarrow> UploadedVersion \<Rightarrow>
     FifoRotationStrategy \<Rightarrow> read_event list \<Rightarrow> 'w \<Rightarrow> (http_response outcome \<times> 'w) option" where
  "uploadVersion E ctx env collection version strategy stream w =
     (case GetVersionsThatShouldBeDeletedIfThisVersionUploaded strategy version of
        Panic m \<Rightarrow> Some (Panic m, w)
      | Return (versionsToDelete, _) \<Rightarrow>
          (case CreateStandardMiddleWares (hb_collections E) (app_Storage ctx) versionsToDelete collection w of
             Inl err \<Rightarrow> Some (Return (ServerErrorResponse (''cannot construct validators '' @ err)), w)
           | Inr middlewares \<Rightarrow>
               (case UploadFile (app_Storage ctx) stream version middlewares w of
                  None \<Rightarrow> None
                | Some (Panic m, w1) \<Rightarrow> Some (Panic m, w1)
                | Some (Return (wroteLen, Some uploadError), w1) \<Rightarrow>
                    Some (Return (ServerErrorResponse (''cannot upload version. '' @ uploadError)),
                      snd (Delete (app_Storage ctx) version w1))
                | Some (Return (wroteLen, None), w1) \<Rightarrow>
                    (let uploaded = version\<lparr>uv_Filesize := wroteLen\<rparr> in
                     if up_cancelled env
                     then Some (Return (ServerErrorResponse ''upload cancelled by client after the body was written''),
                       snd (Delete (app_Storage ctx) uploaded w1))
                     else
                       (let w2 = registerUploaded (app_Storage ctx) uploaded w1;
                            w3 = snd (CleanUpOlderVersions (app_Storage ctx) versionsToDelete w2)
                        in Some (Return (OKResponse (VersionData
                             (uploaded\<lparr>uv_CreatedAt := up_created env, uv_UpdatedAt := up_created env\<rparr>))), w3))))))"

definition uploadLocked ::
    "http_lib \<Rightarrow> ('w, 'd) ApplicationContainer \<Rightarrow> upload_env \<Rightarrow> request \<Rightarrow> Collection \<Rightarrow> SessionAwareUser \<Rightarrow>
     'w \<Rightarrow> (http_response list outcome \<times> 'w) option" where
  "uploadLocked E ctx env c collection ctxUser w =
     (case GetCurrentSessionId c of
        Panic m \<Rightarrow> Some (Panic m, w)
      | Return sessionId \<Rightarrow>
          (case CreateNewVersionFromCollection (app_Storage ctx) (up_newId env) collection
               (om_Name (u_Metadata (sau_User ctxUser))) sessionId 0 w of
             Inl factoryError \<Rightarrow>
               Some (Return [ServerErrorResponse (''cannot increment version. '' @ factoryError)], w)
           | Inr version \<Rightarrow>
               (case CreateRotationStrategyCase (app_Storage ctx) collection w of
                  Inl strategyFactorialError \<Rightarrow> Some (Return [ServerErrorResponse
                    ''internal error while trying to create rotation strategy. Check server logs''], w)
                | Inr strategy \<Rightarrow>
                    (case CanUpload strategy version of
                       Some err \<Rightarrow> Some (Return [UnauthorizedResponse
                         (''backup collection strategy declined a possibility to upload, '' @ err)], w)
                     | None \<Rightarrow>
                         (case uploadStream env c of
                            Panic m \<Rightarrow> Some (Panic m, w)
                          | Return (Inl resp) \<Rightarrow> Some (Return [resp], w)
                          | Return (Inr (written, stream)) \<Rightarrow>
                              map_option (\<lambda>(r, w'). (bind_outcome r (\<lambda>resp. Return (written @ [resp])), w'))
                                (uploadVersion E ctx env collection version strategy stream w))))))"

text \<open>The handler returns the responses it wrote, in order.\<close>

definition uploadRoute ::
    "http_lib \<Rightarrow> ('w, 'd) ApplicationContainer \<Rightarrow> upload_env \<Rightarrow> request \<Rightarrow> 'w \<Rightarrow>
     (http_response list outcome \<times> 'w) option" where
  "uploadRoute E ctx env c w =
     (case GetContextUser E ctx c w of
        Panic m \<Rightarrow> Some (Panic m, w)
      | Return ctxUser \<Rightarrow>
          (case GetCollectionById (hb_collections E) (app_Collections ctx) (rq_collectionId c) w of
             Inl findError \<Rightarrow> Some (Return [NotFoundResponse ''cannot find specified collection''], w)
           | Inr collection \<Rightarrow>
               (case ctxUser of
                  Inl err \<Rightarrow> Some (nil_deref, w)
                | Inr user \<Rightarrow>
                    if \<not> CanUploadToMe collection (sau_Actor user)
                    then Some (Return [UnauthorizedResponse ''not authorized to upload versions to this collection''], w)
                    else if \<not> ValidateIsBackupWindowAllowingToUpload (hb_collections E) collection (up_now env)
                      \<and> \<not> DecideCanDo \<lparr>dr_Actor = sau_Actor user, dr_Subject = Some (collection_Subject collection),
                             dr_Action = ActionUploadAnytime\<rparr>
                    then Some (Return [UnauthorizedResponse (''backup window does not allow you to send a backup at this time. ''
                      @ ''You need a token that has a special permission '' @ quoted ''uploadsAnytime'')], w)
                    else
                      (case LockService_Lock (app_Locks ctx) (up_lock env) (GetGlobalIdentifier collection)
                          (app_UploadTimeout ctx) w of
                         (Inl lockErr, w1) \<Rightarrow>
                           Some (Return [ServerErrorResponse ''cannot upload to same collection in parallel''], w1)
                       | (Inr lock, w1) \<Rightarrow>
                           map_option (\<lambda>(r, w2). (r, Unlock lock w2))
                             (uploadLocked E ctx env c collection user w1)))))"

section \<open>Download and listing\<close>

text \<open>
  \<open>readEvents\<close> turns a stored object into the events of reading it and writing it to the client. The
  reader is closed by a deferred call, also when it is nil because it could not be opened.
\<close>

definition downloadRoute ::
    "http_lib \<Rightarrow> ('w, 'd) ApplicationContainer \<Rightarrow> (bytes \<Rightarrow> read_event list) \<Rightarrow> request \<Rightarrow> 'w \<Rightarrow>
     http_response outcome option" where
  "downloadRoute E ctx readEvents c w =
     (case GetContextUser E ctx c w of
        Panic m \<Rightarrow> Some (Panic m)
      | Return ctxUser \<Rightarrow>
          (case GetCollectionById (hb_collections E) (app_Collections ctx) (rq_collectionId c) w of
             Inl findError \<Rightarrow> Some (Return (NotFoundResponse ''cannot find specified collection''))
           | Inr collection \<Rightarrow>
               (case ctxUser of
                  Inl err \<Rightarrow> Some nil_deref
                | Inr user \<Rightarrow>
                    if \<not> CanDownloadFromMe collection (sau_Actor user)
                    then Some (Return (UnauthorizedResponse ''not authorized to download versions from this collection''))
                    else
                      (case GetVersionByNum (app_Storage ctx) (Collection_GetId collection) (rq_versionNum c) w of
                         Inl err \<Rightarrow> Some (Return (NotFoundResponse ''cannot find specified version''))
                       | Inr version \<Rightarrow>
                           (case ReadFile (app_Storage ctx) (GetTargetPath version) w of
                              Inl err \<Rightarrow> Some (bind_outcome (bk_CloseNilReader (st_storage (app_Storage ctx)))
                                (\<lambda>_. Return (ServerErrorResponse (''cannot read from storage: '' @ err))))
                            | Inr object \<Rightarrow>
                                (case CopyStream (readEvents object) io_buffer_len [] of
                                   None \<Rightarrow> None
                                 | Some ((_, Some err), st) \<Rightarrow> Some (Return ((ServerErrorResponse
                                     (''cannot copy stream to download a version: '' @ err))\<lparr>rs_stream := cp_written st\<rparr>))
                                 | Some ((_, None), st) \<Rightarrow> Some (Return ((OKResponse
                                     (FileData (uv_Filename version) (uv_Filesize version)))\<lparr>rs_stream := cp_written st\<rparr>))))))))"

definition listingRoute ::
    "http_lib \<Rightarrow> ('w, 'd) ApplicationContainer \<Rightarrow> request \<Rightarrow> 'w \<Rightarrow> http_response outcome" where
  "listingRoute E ctx c w =
     bind_outcome (GetContextUser E ctx c w) (\<lambda>ctxUser.
       case GetCollectionById (hb_collections E) (app_Collections ctx) (rq_collectionId c) w of
         Inl findError \<Rightarrow> Return (NotFoundResponse ''cannot find specified collection'')
       | Inr collection \<Rightarrow>
           (case ctxUser of
              Inl err \<Rightarrow> nil_deref
            | Inr user \<Rightarrow>
                if \<not> CanListMyVersions collection (sau_Actor user)
                then Return (UnauthorizedResponse ''not authorized to list versions'')
                else
                  (case FindAllActiveVersionsFor (app_Storage ctx) (Collection_GetId collection) w of
                     Inl err \<Rightarrow> Return (ServerErrorResponse ''cannot list versions, listing error. Check server logs'')
                   | Inr versions \<Rightarrow> Return (OKResponse (VersionsData versions)))))"

section \<open>Health endpoints\<close>

definition query_or_empty :: "request \<Rightarrow> string \<Rightarrow> string" where
  "query_or_empty c key = (case rq_Query c key of None \<Rightarrow> '''' | Some v \<Rightarrow> v)"

definition collectionHealthRoute ::
    "http_lib \<Rightarrow> ('w, 'd) ApplicationContainer \<Rightarrow> time \<Rightarrow> request \<Rightarrow> 'w \<Rightarrow> http_response \<times> 'w" where
  "collectionHealthRoute E ctx now c w =
     (case GetCollectionById (hb_collections E) (app_Collections ctx) (rq_collectionId c) w of
        Inl findError \<Rightarrow> (NotFoundResponse ''cannot find specified collection'', w)
      | Inr collection \<Rightarrow>
          (let authCode = (if query_or_empty c ''code'' \<noteq> '''' then query_or_empty c ''code'' else rq_Authorization c) in
           if \<not> IsHealthCheckSecretValid collection authCode
           then (UnauthorizedResponse (''not authorized - invalid value of '' @ quoted ''code'' @ '' parameter in query string''), w)
           else
             (let (healthStatuses, w1) = Validators_Validate
                    (collection_validators (hb_health E) (hb_collections E) (app_Storage ctx) collection now) w
              in if \<not> GetOverallStatus healthStatuses
                 then (ServerErrorResponseWithData ''one of checks failed'' (HealthData healthStatuses), w1)
                 else (OKResponse (HealthData healthStatuses), w1))))"

definition healthRoute :: http_response where
  "healthRoute = OKResponse (TextData (''The server is up and running. Dependent services are not shown there. ''
     @ ''Take a look at /ready endpoint''))"

text \<open>The random number of the database check and the clock readings of the storage probe are arguments.\<close>

definition readyRoute ::
    "('w, 'd) ApplicationContainer \<Rightarrow> goint \<Rightarrow> time \<Rightarrow> time \<Rightarrow> request \<Rightarrow> 'w \<Rightarrow> http_response \<times> 'w" where
  "readyRoute ctx key nowNano nowUnix c w =
     (let healthCode = (if rq_Authorization c = '''' then query_or_empty c ''code'' else rq_Authorization c) in
      if healthCode \<noteq> app_HealthCheckKey ctx
      then (UnauthorizedResponse (''health code invalid. Should be provided withing '' @ quoted ''Authorization''
        @ '' header or '' @ quoted ''code'' @ '' query string. Must match --health-check-code commandline switch value''), w)
      else
        (let (healthStatuses, w1) = Validators_Validate
               (server_validators (app_Db ctx) key (app_Storage ctx) nowNano nowUnix (app_Config ctx)) w
         in if \<not> GetOverallStatus healthStatuses
            then (ServerErrorResponseWithData ''one of checks failed'' (HealthData healthStatuses), w1)
            else (OKResponse (HealthData healthStatuses), w1)))"

section \<open>The ways through an upload\<close>

abbreviation may_upload :: "http_lib \<Rightarrow> upload_env \<Rightarrow> Collection \<Rightarrow> SessionAwareUser \<Rightarrow> bool" where
  "may_upload E env collection user \<equiv>
     CanUploadToMe collection (sau_Actor user)
   \<and> (ValidateIsBackupWindowAllowingToUpload (hb_collections E) collection (up_now env)
      \<or> DecideCanDo \<lparr>dr_Actor = sau_Actor user, dr_Subject = Some (collection_Subject collection),
           dr_Action = ActionUploadAnytime\<rparr>)"

lemma uploadRoute_cases:
  assumes "uploadRoute E ctx env c w = Some (r, w')"
  obtains (refused) "w' = w" "\<And>rs. r = Return rs \<Longrightarrow> \<forall>x \<in> set rs. rs_code x \<noteq> 200"
  | (busy) user collection e where "GetContextUser E ctx c w = Return (Inr user)"
      "GetCollectionById (hb_collections E) (app_Collections ctx) (rq_collectionId c) w = Inr collection"
      "may_upload E env collection user"
      "LockService_Lock (app_Locks ctx) (up_lock env) (GetGlobalIdentifier collection) (app_UploadTimeout ctx) w = (Inl e, w')"
      "r = Return [ServerErrorResponse ''cannot upload to same collection in parallel'']"
  | (ran) user collection lock w1 w2 where "GetContextUser E ctx c w = Return (Inr user)"
      "GetCollectionById (hb_collections E) (app_Collections ctx) (rq_collectionId c) w = Inr collection"
      "may_upload E env collection user"
      "LockService_Lock (app_Locks ctx) (up_lock env) (GetGlobalIdentifier collection) (app_UploadTimeout ctx) w = (Inr lock, w1)"
      "uploadLocked E ctx env c collection user w1 = Some (r, w2)" "w' = Unlock lock w2"
proof (cases "\<exists>user collection. GetContextUser E ctx c w = Return (Inr user)
    \<and> GetCollectionById (hb_collections E) (app_Collections ctx) (rq_collectionId c) w = Inr collection
    \<and> may_upload E env collection user")
  case False
  then have "w' = w" "\<And>rs. r = Return rs \<Longrightarrow> \<forall>x \<in> set rs. rs_code x \<noteq> 200"
    using assms
    by (auto simp: uploadRoute_def response_defs split: outcome.split_asm sum.split_asm if_split_asm)
  then show thesis by (rule refused)
next
  case True
  then obtain user collection where u: "GetContextUser E ctx c w = Return (Inr user)"
    "GetCollectionById (hb_collections E) (app_Collections ctx) (rq_collectionId c) w = Inr collection"
    "may_upload E env collection user" by blast
  obtain lr w1 where l: "LockService_Lock (app_Locks ctx) (up_lock env) (GetGlobalIdentifier collection)
    (app_UploadTimeout ctx) w = (lr, w1)" by fastforce
  show thesis
  proof (cases lr)
    case (Inl e)
    with assms u l busy [OF u, of e] show thesis by (auto simp: uploadRoute_def)
  next
    case (Inr lock)
    with assms u l ran [OF u] show thesis by (auto simp: uploadRoute_def)
  qed
qed

lemma uploadLocked_cases:
  assumes "uploadLocked E ctx env c collection user w = Some (r, w')"
  obtains (early) "w' = w" "\<And>rs. r = Return rs \<Longrightarrow> \<forall>x \<in> set rs. rs_code x \<noteq> 200"
  | (went_on) sid version strategy written es r0 where "GetCurrentSessionId c = Return sid"
      "CreateNewVersionFromCollection (app_Storage ctx) (up_newId env) collection
         (om_Name (u_Metadata (sau_User user))) sid 0 w = Inr version"
      "CreateRotationStrategyCase (app_Storage ctx) collection w = Inr strategy"
      "uploadStream env c = Return (Inr (written, es))"
      "uploadVersion E ctx env collection version strategy es w = Some (r0, w')"
      "r = bind_outcome r0 (\<lambda>resp. Return (written @ [resp]))"
proof -
  have st: "uploadStream env c = Return (Inl resp) \<Longrightarrow> rs_code resp \<noteq> 200" for resp
    by (auto simp: uploadStream_def response_defs split: if_split_asm sum.split_asm option.split_asm prod.split_asm)
  show thesis
    using assms early went_on st
    by (fastforce simp: uploadLocked_def CanUpload_def response_defs
        split: outcome.split_asm sum.split_asm prod.split_asm)
qed

lemma uploadVersion_cases:
  assumes "uploadVersion E ctx env collection version strategy es w = Some (r, w')"
  obtains (early) "w' = w" "\<And>x. r = Return x \<Longrightarrow> rs_code x \<noteq> 200"
  | (failed) mws r1 w1 v where "UploadFile (app_Storage ctx) es version mws w = Some (r1, w1)"
      "uv_Id v = uv_Id version" "GetTargetPath v = GetTargetPath version"
      "w' = w1 \<or> w' = snd (Delete (app_Storage ctx) v w1)" "\<And>x. r = Return x \<Longrightarrow> rs_code x \<noteq> 200"
  | (stored) ds frs' mws n w1 where
      "GetVersionsThatShouldBeDeletedIfThisVersionUploaded strategy version = Return (ds, frs')"
      "CreateStandardMiddleWares (hb_collections E) (app_Storage ctx) ds collection w = Inr mws"
      "UploadFile (app_Storage ctx) es version mws w = Some (Return (n, None), w1)"
      "w' = snd (CleanUpOlderVersions (app_Storage ctx) ds
        (registerUploaded (app_Storage ctx) (version\<lparr>uv_Filesize := n\<rparr>) w1))"
      "r = Return (OKResponse (VersionData (version\<lparr>uv_Filesize := n, uv_CreatedAt := up_created env,
         uv_UpdatedAt := up_created env\<rparr>)))"
proof (cases "\<exists>ds frs' mws. GetVersionsThatShouldBeDeletedIfThisVersionUploaded strategy version = Return (ds, frs')
    \<and> CreateStandardMiddleWares (hb_collections E) (app_Storage ctx) ds collection w = Inr mws")
  case False
  with assms have "w' = w" "\<And>x. r = Return x \<Longrightarrow> rs_code x \<noteq> 200"
    by (auto simp: uploadVersion_def response_defs split: outcome.split_asm sum.split_asm)
  then show thesis by (rule early)
next
  case True
  then obtain ds frs' mws where d: "GetVersionsThatShouldBeDeletedIfThisVersionUploaded strategy version = Return (ds, frs')"
    "CreateStandardMiddleWares (hb_collections E) (app_Storage ctx) ds collection w = Inr mws" by blast
  obtain r1 w1 where u: "UploadFile (app_Storage ctx) es version mws w = Some (r1, w1)"
    using assms d by (auto simp: uploadVersion_def split: option.split_asm)
  consider (ok) n where "r1 = Return (n, None)" "\<not> up_cancelled env"
    | (bad) "\<forall>n. r1 = Return (n, None) \<longrightarrow> up_cancelled env" by blast
  then show thesis
  proof cases
    case ok
    with assms d u stored [OF d, of n w1] show thesis by (simp add: uploadVersion_def Let_def)
  next
    case bad
    have tp: "GetTargetPath (version\<lparr>uv_Filesize := n\<rparr>) = GetTargetPath version" for n by (simp add: GetTargetPath_def)
    from bad assms d u have "w' = w1 \<or> w' = snd (Delete (app_Storage ctx) version w1)
        \<or> (\<exists>n. w' = snd (Delete (app_Storage ctx) (version\<lparr>uv_Filesize := n\<rparr>) w1))"
      and "\<And>x. r = Return x \<Longrightarrow> rs_code x \<noteq> 200"
      by (auto simp: uploadVersion_def response_defs Let_def
          split: outcome.split_asm prod.split_asm option.split_asm if_split_asm)
    with failed [OF u, of version] failed [OF u, of "version\<lparr>uv_Filesize := _\<rparr>"] tp show thesis by fastforce
  qed
qed

end
