(* ===== verification/Upload_Correctness.thy ===== *)
theory Upload_Correctness
  imports Http_Collections
begin

text \<open>
  What uploads, downloads and listings do to the table of versions and the stored objects, over
  any table, storage and locks that satisfy \<open>versions_ok\<close>, \<open>bucket_ok\<close> and \<open>app_frame\<close>: the quota
  of a collection over all histories of requests, the way of a backup from its upload to its
  download, who may cause changes, and what happens when the database refuses the new row.
\<close>

section \<open>What the requests rely on\<close>

text \<open>
  The table of versions, the object storage and the table of locks are separate: an operation on
  one leaves the others as they are.
\<close>

definition app_frame :: "('w, 'd) ApplicationContainer \<Rightarrow> ('w \<Rightarrow> UploadedVersion list) \<Rightarrow> ('w \<Rightarrow> (string \<rightharpoonup> bytes)) \<Rightarrow> bool" where
  "app_frame ctx V Ob \<longleftrightarrow>
     (let B = st_storage (app_Storage ctx); S = st_repository (app_Storage ctx); K = app_Locks ctx in
       (\<forall>p w. V (snd (bk_NewWriter B p w)) = V w) \<and> (\<forall>p d w. V (bk_CloseWriter B p d w) = V w)
     \<and> (\<forall>p w. V (snd (bk_Delete B p w)) = V w)
     \<and> (\<forall>i w. Ob (snd (sql_ver_delete S i w)) = Ob w) \<and> (\<forall>v w. Ob (snd (sql_ver_create S v w)) = Ob w)
     \<and> (\<forall>i e w. V (snd (sql_insert_lock K i e w)) = V w \<and> Ob (snd (sql_insert_lock K i e w)) = Ob w)
     \<and> (\<forall>i w. V (sql_delete_lock K i w) = V w \<and> Ob (sql_delete_lock K i w) = Ob w)
     \<and> (\<forall>t w. V (sql_delete_expired K t w) = V w \<and> Ob (sql_delete_expired K t w) = Ob w))"

lemma app_frameD:
  assumes "app_frame ctx V Ob"
  shows "V (snd (bk_NewWriter (st_storage (app_Storage ctx)) p w)) = V w"
    and "V (bk_CloseWriter (st_storage (app_Storage ctx)) p d w) = V w"
    and "V (snd (bk_Delete (st_storage (app_Storage ctx)) p w)) = V w"
    and "Ob (snd (sql_ver_delete (st_repository (app_Storage ctx)) i w)) = Ob w"
    and "Ob (snd (sql_ver_create (st_repository (app_Storage ctx)) v w)) = Ob w"
    and "V (snd (sql_insert_lock (app_Locks ctx) i e w)) = V w" "Ob (snd (sql_insert_lock (app_Locks ctx) i e w)) = Ob w"
    and "V (sql_delete_lock (app_Locks ctx) i w) = V w" "Ob (sql_delete_lock (app_Locks ctx) i w) = Ob w"
    and "V (sql_delete_expired (app_Locks ctx) t w) = V w" "Ob (sql_delete_expired (app_Locks ctx) t w) = Ob w"
  using assms unfolding app_frame_def Let_def by blast+

definition deletes_succeed :: "'w ver_sql \<Rightarrow> bool" where
  "deletes_succeed S \<longleftrightarrow> (\<forall>i w. fst (sql_ver_delete S i w) = None)"

section \<open>Rows and objects after each step\<close>

lemma lock_keeps:
  assumes "app_frame ctx V Ob" "LockService_Lock (app_Locks ctx) env i d w = (r, w')"
  shows "V w' = V w" "Ob w' = Ob w"
  using assms app_frameD(6-11) [OF assms(1)]
  by (auto simp: LockService_Lock_eq Let_def
      split: prod.split_asm bool.split_asm option.split_asm if_split_asm) (metis snd_conv)+

lemma unlock_keeps:
  assumes "app_frame ctx V Ob" "LockService_Lock (app_Locks ctx) env i d w = (Inr lock, w1)"
  shows "V (Unlock lock w') = V w'" "Ob (Unlock lock w') = Ob w'"
proof -
  have "Unlock lock w' = sql_delete_lock (app_Locks ctx) i w'"
    using assms(2) by (auto simp: LockService_Lock_eq Unlock_def unlock_def Let_def
        split: prod.split_asm bool.split_asm option.split_asm if_split_asm)
  with app_frameD(8,9) [OF assms(1)] show "V (Unlock lock w') = V w'" "Ob (Unlock lock w') = Ob w'" by simp_all
qed

lemma Delete_rows:
  assumes "versions_ok (st_repository (app_Storage ctx)) V" "app_frame ctx V Ob"
    "deletes_succeed (st_repository (app_Storage ctx))"
  shows "V (snd (Delete (app_Storage ctx) v w)) = filter (\<lambda>x. uv_Id x \<noteq> uv_Id v) (V w)"
proof -
  obtain w1 where w1: "sql_ver_delete (st_repository (app_Storage ctx)) (uv_Id v) w = (None, w1)"
    using assms(3) unfolding deletes_succeed_def by (metis prod.collapse)
  have "snd (Delete (app_Storage ctx) v w) = snd (bk_Delete (st_storage (app_Storage ctx)) (GetTargetPath v) w1)"
    by (simp add: Delete_def ver_delete_def w1 split: prod.split)
  with app_frameD(3) [OF assms(2)] versions_okD(3) [OF assms(1) w1] show ?thesis by simp
qed

lemma CleanUp_rows:
  assumes "versions_ok (st_repository (app_Storage ctx)) V" "app_frame ctx V Ob"
    "deletes_succeed (st_repository (app_Storage ctx))"
  shows "V (snd (CleanUpOlderVersions (app_Storage ctx) ds w)) = filter (\<lambda>x. uv_Id x \<notin> uv_Id ` set ds) (V w)"
proof (induction ds arbitrary: w)
  case (Cons v ds)
  have "snd (CleanUpOlderVersions (app_Storage ctx) (v # ds) w)
      = snd (CleanUpOlderVersions (app_Storage ctx) ds (snd (Delete (app_Storage ctx) v w)))"
    by (simp split: prod.split)
  with Cons [of "snd (Delete (app_Storage ctx) v w)"] Delete_rows [OF assms, of v w] show ?case
    by (auto intro: filter_cong)
qed simp

lemma UploadFile_rows:
  assumes "app_frame ctx V Ob" "UploadFile (app_Storage ctx) es v mws w = Some (r, w')"
  shows "V w' = V w"
proof -
  let ?B = "st_storage (app_Storage ctx)" and ?p = "GetTargetPath v"
  obtain w1 e where w1: "bk_NewWriter ?B ?p w = (e, w1)" by fastforce
  have "V w1 = V w" using app_frameD(1) [OF assms(1), of ?p w] w1 by simp
  moreover have "w' = w1 \<or> (\<exists>d. w' = bk_CloseWriter ?B ?p d w1)"
    using assms(2) w1 by (auto simp: UploadFile_def Let_def split: prod.split_asm option.split_asm if_split_asm)
  ultimately show ?thesis using app_frameD(2) [OF assms(1)] by auto
qed

lemma UploadFile_copied:
  assumes "UploadFile s es v mws w = Some (Return (n, None), w')"
  obtains st where "CopyStream es io_buffer_len mws = Some ((n, None), st)"
  using assms
  by (auto simp: UploadFile_def Let_def bind_outcome_Return split: prod.split_asm option.split_asm if_split_asm)

section \<open>The quota of a collection\<close>

text \<open>
  \<open>quota_kept c m M vs\<close>: no more versions than the collection may have, and together they use no
  more than the space that is left beside the regular sizes.
\<close>

definition quota_kept :: "Collection \<Rightarrow> int64 \<Rightarrow> int64 \<Rightarrow> UploadedVersion list \<Rightarrow> bool" where
  "quota_kept c m M vs \<longleftrightarrow>
     int (length vs) \<le> sint (cs_MaxBackupsCount (c_Spec c))
   \<and> overflows m vs \<le> sint M - sint (cs_MaxBackupsCount (c_Spec c)) * sint m"

lemma quota_kept_filter: "quota_kept c m M vs \<Longrightarrow> quota_kept c m M (filter P vs)"
  unfolding quota_kept_def using overflows_filter_le [of m P vs] length_filter_le [of P vs] by linarith

lemma quota_kept_mset:
  assumes "mset vs = mset us"
  shows "quota_kept c m M vs \<longleftrightarrow> quota_kept c m M us"
proof -
  have "length vs = length us" using assms by (rule mset_eq_length)
  moreover have "overflows m vs = overflows m us" using assms by (rule sum_list_map_mset_eq)
  ultimately show ?thesis by (simp add: quota_kept_def)
qed

lemma quota_kept_sizes:
  assumes "quota_kept c m M vs" "0 \<le> sint m"
  shows "sizes vs \<le> sint M"
proof -
  have "int (length vs) * sint m \<le> sint (cs_MaxBackupsCount (c_Spec c)) * sint m"
    using assms by (intro mult_right_mono) (auto simp: quota_kept_def)
  with sizes_le [of vs m] assms(1) show ?thesis by (simp add: quota_kept_def)
qed

lemma versions_of_filter: "versions_of cid (filter P vs) = filter P (versions_of cid vs)"
  by (simp add: versions_of_def conj_commute)

lemma versions_of_snoc:
  "versions_of cid (vs @ [v]) = versions_of cid vs @ (if uv_CollectionId v = cid then [v] else [])"
  by (simp add: versions_of_def)

lemma distinct_map_filter_mset:
  "mset xs = mset (filter P ys) \<Longrightarrow> distinct (map f ys) \<Longrightarrow> distinct (map f xs)"
  by (metis distinct_map_filter mset_eq_imp_distinct_iff mset_map)

text \<open>The rows after registering and rotating: the proposed versions are gone, the new one is there.\<close>

lemma registerUploaded_rows:
  assumes "versions_ok (st_repository (app_Storage ctx)) V" "app_frame ctx V Ob"
    "deletes_succeed (st_repository (app_Storage ctx))"
  obtains (added) c u where "uv_Id v \<notin> uv_Id ` set (V w)"
      "V (registerUploaded (app_Storage ctx) v w) = V w @ [v\<lparr>uv_CreatedAt := c, uv_UpdatedAt := u\<rparr>]"
      "Ob (registerUploaded (app_Storage ctx) v w) = Ob w"
  | (dropped) e w1 where "sql_ver_create (st_repository (app_Storage ctx)) v w = (Some e, w1)"
      "V (registerUploaded (app_Storage ctx) v w) = filter (\<lambda>x. uv_Id x \<noteq> uv_Id v) (V w)"
proof -
  obtain err w1 where r: "sql_ver_create (st_repository (app_Storage ctx)) v w = (err, w1)" by fastforce
  have reg: "registerUploaded (app_Storage ctx) v w
      = (case err of None \<Rightarrow> w1 | Some e \<Rightarrow> snd (Delete (app_Storage ctx) v w1))"
    by (simp add: registerUploaded_def RegisterVersion_def ver_create_def r split: option.split)
  have ob: "Ob w1 = Ob w" using app_frameD(5) [OF assms(2), of v w] r by simp
  show thesis
  proof (cases err)
    case None
    with versions_okD(5) [OF assms(1), of v w w1] r reg ob added show thesis by auto
  next
    case (Some e)
    with versions_okD(6) [OF assms(1), of v w e w1] Delete_rows [OF assms, of v w1] r reg dropped show thesis by auto
  qed
qed

lemma selected_versions:
  assumes "CreateRotationStrategyCase s c w = Inr strategy"
  obtains sl where "sql_ver_all (st_repository s) (Collection_GetId c) w = Inr sl"
    "strategy = NewFifoRotationStrategy c sl"
  using assms
  by (auto simp: CreateRotationStrategyCase_def findAllVersionsForCollectionId_def Collection_GetId_def
      split: sum.split_asm if_split_asm)

lemma standard_quota:
  assumes "CreateStandardMiddleWares L s ds c w = Inr mws"
  obtains limit where "CalculateMaximumAllowedUploadFilesize L s c ds w = Inr limit" "QuotaMaxFileSize limit \<in> set mws"
  using assms
  by (auto simp: CreateStandardMiddleWares_def createQuotaMaxFileSizeMiddleware_def split: sum.split_asm)

text \<open>A stream that was copied is no longer than the limit that was computed for it.\<close>

lemma accepted_size:
  assumes conf: "sizes_fit L c m M" "1 \<le> sint (cs_MaxBackupsCount (c_Spec c))"
      "sint (cs_MaxBackupsCount (c_Spec c)) * sint m \<le> sint M" "sint M + int io_buffer_len < 2 ^ 63"
    and sl: "sql_ver_all (st_repository s) (Collection_GetId c) w = Inr sl"
    and inv: "overflows m (sl_elems sl) \<le> sint M - sint (cs_MaxBackupsCount (c_Spec c)) * sint m"
    and mws: "CreateStandardMiddleWares L s ds c w = Inr mws" and reads: "reads_ok io_buffer_len es"
    and up: "UploadFile s es version mws w = Some (Return (n, None), w1)"
  obtains limit where "CalculateMaximumAllowedUploadFilesize L s c ds w = Inr limit" "sint n \<le> sint limit"
proof -
  let ?n = "sint (cs_MaxBackupsCount (c_Spec c))" and ?kept = "\<lambda>x. uv_Id x \<notin> uv_Id ` set ds"
  obtain limit where lim: "CalculateMaximumAllowedUploadFilesize L s c ds w = Inr limit"
    and mem: "QuotaMaxFileSize limit \<in> set mws" using standard_quota [OF mws] .
  have "overflows m (filter ?kept (sl_elems sl)) \<le> sint M - ?n * sint m"
    using overflows_filter_le [of m ?kept "sl_elems sl"] inv by linarith
  then have sl_lim: "0 \<le> sint limit" "sint limit \<le> sint M"
    using upload_limit [OF conf(1,2) refl _ sl refl, of ds] conf lim overflows_nonneg [of m "filter ?kept (sl_elems sl)"]
      mult_right_mono [of 1 ?n "sint m"] by (auto simp: sizes_fit_def)
  obtain cst where cp: "CopyStream es io_buffer_len mws = Some ((n, None), cst)" using UploadFile_copied [OF up] .
  have "sint n \<le> sint limit" using CopyStream_quota [OF cp mem reads] sl_lim conf(4) by simp
  with lim show thesis by (rule that)
qed

lemma proposed_held:
  assumes "GetVersionsThatShouldBeDeletedIfThisVersionUploaded (NewFifoRotationStrategy c sl) v = Return (ds, frs')"
    and "1 \<le> sint (cs_MaxBackupsCount (c_Spec c))" "length (sl_elems sl) < 2 ^ 63"
  shows "set ds \<subseteq> set (sl_elems sl)"
  using set_mset_mono [OF fifo.held [OF _ assms(1)]] assms(2,3)
  by (auto simp: fifo_ok_def NewFifoRotationStrategy_def)

lemma stored_quota:
  assumes laws: "versions_ok (st_repository (app_Storage ctx)) V" "app_frame ctx V Ob"
      "deletes_succeed (st_repository (app_Storage ctx))"
    and conf: "sizes_fit (hb_collections E) c m M" "1 \<le> sint (cs_MaxBackupsCount (c_Spec c))"
      "sint (cs_MaxBackupsCount (c_Spec c)) * sint m \<le> sint M" "sint M + int io_buffer_len < 2 ^ 63"
    and rows: "distinct (map uv_Id (V w))"
    and quota: "quota_kept c m M (versions_of (Collection_GetId c) (V w))"
    and ver: "CreateNewVersionFromCollection (app_Storage ctx) newId c uploader sid 0 w = Inr version"
    and strat: "CreateRotationStrategyCase (app_Storage ctx) c w = Inr strategy" and reads: "reads_ok io_buffer_len es"
    and del: "GetVersionsThatShouldBeDeletedIfThisVersionUploaded strategy version = Return (ds, frs')"
    and mws: "CreateStandardMiddleWares (hb_collections E) (app_Storage ctx) ds c w = Inr mws"
    and up: "UploadFile (app_Storage ctx) es version mws w = Some (Return (n, None), w1)"
    and w': "w' = snd (CleanUpOlderVersions (app_Storage ctx) ds
        (registerUploaded (app_Storage ctx) (version\<lparr>uv_Filesize := n\<rparr>) w1))"
  shows "quota_kept c m M (versions_of (Collection_GetId c) (V w')) \<and> distinct (map uv_Id (V w'))"
proof -
  let ?cid = "Collection_GetId c" and ?n = "sint (cs_MaxBackupsCount (c_Spec c))"
  let ?kept = "\<lambda>x. uv_Id x \<notin> uv_Id ` set ds"
  obtain sl where sl: "sql_ver_all (st_repository (app_Storage ctx)) ?cid w = Inr sl"
    and st: "strategy = NewFifoRotationStrategy c sl" using selected_versions [OF strat] .
  have ms: "mset (sl_elems sl) = mset (versions_of ?cid (V w))" by (rule versions_okD(1) [OF laws(1) sl])
  have dist: "distinct (map uv_Id (sl_elems sl))"
    using ms rows unfolding versions_of_def by (rule distinct_map_filter_mset)
  have "int (length (sl_elems sl)) \<le> ?n" using mset_eq_length [OF ms] quota by (simp add: quota_kept_def)
  then have "int (length (sl_elems sl)) < 2 ^ 63" using sint_range [of "cs_MaxBackupsCount (c_Spec c)"] by linarith
  then have len: "length (sl_elems sl) < 2 ^ 63" by simp
  have inv: "overflows m (sl_elems sl) \<le> sint M - ?n * sint m"
    using quota quota_kept_mset [OF ms, of c m M] by (simp add: quota_kept_def)
  have vw1: "V w1 = V w" by (rule UploadFile_rows [OF laws(2) up])
  have rows': "V w' = filter ?kept (V (registerUploaded (app_Storage ctx) (version\<lparr>uv_Filesize := n\<rparr>) w1))"
    unfolding w' by (rule CleanUp_rows [OF laws])
  have fifo: "GetVersionsThatShouldBeDeletedIfThisVersionUploaded (NewFifoRotationStrategy c sl) version = Return (ds, frs')"
    using del st by simp
  obtain limit where lim: "CalculateMaximumAllowedUploadFilesize (hb_collections E) (app_Storage ctx) c ds w = Inr limit"
    and small: "sint n \<le> sint limit" using accepted_size [OF conf sl inv mws reads up] .
  from laws show ?thesis
  proof (cases rule: registerUploaded_rows [where v = "version\<lparr>uv_Filesize := n\<rparr>" and w = w1])
    case (added cr upd)
    let ?new = "version\<lparr>uv_Filesize := n, uv_CreatedAt := cr, uv_UpdatedAt := upd\<rparr>"
    have fresh: "uv_Id version \<notin> uv_Id ` set (V w)" using added(1) vw1 by simp
    have "set ds \<subseteq> set (V w)"
      using proposed_held [OF fifo conf(2) len] mset_eq_setD [OF ms] by (auto simp: versions_of_def)
    then have new: "?kept ?new" using fresh by auto
    have cid: "uv_CollectionId version = ?cid" by (rule new_version_fields(2) [OF ver])
    have v': "V w' = filter ?kept (V w) @ [?new]" using rows' added(2) vw1 new by simp
    then have "versions_of ?cid (V w') = filter ?kept (versions_of ?cid (V w)) @ [?new]"
      using cid by (simp add: versions_of_snoc versions_of_filter)
    then have "mset (versions_of ?cid (V w')) = mset (filter ?kept (sl_elems sl) @ [?new])"
      using ms by simp
    moreover have "quota_kept c m M (filter ?kept (sl_elems sl) @ [?new])"
      using quota_step [OF conf(1-3) sl len dist inv fifo lim, of ?new] small by (simp add: quota_kept_def)
    ultimately have "quota_kept c m M (versions_of ?cid (V w'))" using quota_kept_mset by blast
    moreover have "distinct (map uv_Id (V w'))" using v' rows fresh by (auto simp: distinct_map_filter)
    ultimately show ?thesis by blast
  next
    case dropped
    then have "V w' = filter (\<lambda>x. uv_Id x \<noteq> uv_Id version \<and> ?kept x) (V w)" using rows' vw1 by simp
    with quota rows show ?thesis
      by (simp only: versions_of_filter quota_kept_filter distinct_map_filter)
  qed
qed

text \<open>What one upload request does to the table: it removes rows, or it also stores a version.\<close>

definition upload_reads_ok :: "upload_env \<Rightarrow> bool" where
  "upload_reads_ok env \<longleftrightarrow> reads_ok io_buffer_len (up_Body env)
     \<and> (case up_FormFile env of Inr (Some es, _) \<Rightarrow> reads_ok io_buffer_len es | _ \<Rightarrow> True)"

lemma uploadStream_reads:
  "upload_reads_ok env \<Longrightarrow> uploadStream env c = Return (Inr (written, es)) \<Longrightarrow> reads_ok io_buffer_len es"
  by (auto simp: upload_reads_ok_def uploadStream_def
      split: if_split_asm sum.split_asm option.split_asm prod.split_asm)

lemma uploadStream_written:
  "uploadStream env c = Return (Inr (written, es)) \<Longrightarrow> \<forall>x \<in> set written. rs_code x \<noteq> 200"
  by (auto simp: uploadStream_def response_defs split: if_split_asm sum.split_asm option.split_asm prod.split_asm)

lemma upload_effect:
  assumes laws: "versions_ok (st_repository (app_Storage ctx)) V" "app_frame ctx V Ob"
      "deletes_succeed (st_repository (app_Storage ctx))"
    and run: "uploadRoute E ctx env q w = Some (r, w')"
  obtains (quiet) "V w' = V w" "Ob w' = Ob w" "\<And>rs. r = Return rs \<Longrightarrow> \<forall>x \<in> set rs. rs_code x \<noteq> 200"
  | (failed) c w1 uploader sid version es mws r1 w2 v where
      "GetCollectionById (hb_collections E) (app_Collections ctx) (rq_collectionId q) w = Inr c"
      "V w1 = V w" "Ob w1 = Ob w"
      "CreateNewVersionFromCollection (app_Storage ctx) (up_newId env) c uploader sid 0 w1 = Inr version"
      "UploadFile (app_Storage ctx) es version mws w1 = Some (r1, w2)"
      "uv_Id v = uv_Id version" "GetTargetPath v = GetTargetPath version"
      "V w' = V w2 \<and> Ob w' = Ob w2 \<or> V w' = V (snd (Delete (app_Storage ctx) v w2)) \<and> Ob w' = Ob (snd (Delete (app_Storage ctx) v w2))"
      "\<And>rs. r = Return rs \<Longrightarrow> \<forall>x \<in> set rs. rs_code x \<noteq> 200"
  | (stored) user c lock w1 sid version strategy written es ds frs' mws n w2 w3 where
      "GetContextUser E ctx q w = Return (Inr user)"
      "GetCollectionById (hb_collections E) (app_Collections ctx) (rq_collectionId q) w = Inr c"
      "LockService_Lock (app_Locks ctx) (up_lock env) (GetGlobalIdentifier c) (app_UploadTimeout ctx) w = (Inr lock, w1)"
      "V w1 = V w" "Ob w1 = Ob w"
      "CreateNewVersionFromCollection (app_Storage ctx) (up_newId env) c (om_Name (u_Metadata (sau_User user))) sid 0 w1 = Inr version"
      "CreateRotationStrategyCase (app_Storage ctx) c w1 = Inr strategy"
      "uploadStream env q = Return (Inr (written, es))"
      "GetVersionsThatShouldBeDeletedIfThisVersionUploaded strategy version = Return (ds, frs')"
      "CreateStandardMiddleWares (hb_collections E) (app_Storage ctx) ds c w1 = Inr mws"
      "UploadFile (app_Storage ctx) es version mws w1 = Some (Return (n, None), w2)"
      "w3 = snd (CleanUpOlderVersions (app_Storage ctx) ds
        (registerUploaded (app_Storage ctx) (version\<lparr>uv_Filesize := n\<rparr>) w2))" "V w' = V w3" "Ob w' = Ob w3"
      "r = Return (written @ [OKResponse (VersionData (version\<lparr>uv_Filesize := n, uv_CreatedAt := up_created env,
         uv_UpdatedAt := up_created env\<rparr>))])"
  using run
proof (cases rule: uploadRoute_cases)
  case refused
  show thesis by (rule quiet) (use refused in simp_all)
next
  case busy
  show thesis using lock_keeps [OF laws(2) busy(4)]
    by (rule quiet) (use busy(5) in \<open>simp add: response_defs\<close>)
next
  case (ran user c lock w1 w2)
  note keep = lock_keeps [OF laws(2) ran(4)] unlock_keeps [OF laws(2) ran(4), of w2]
  from ran(5) show thesis
  proof (cases rule: uploadLocked_cases)
    case early
    have "V w' = V w" "Ob w' = Ob w" using early(1) keep ran(6) by simp_all
    then show thesis using early(2) by (rule quiet)
  next
    case (went_on sid version strategy written es r0)
    note no200 = uploadStream_written [OF went_on(4)]
    from went_on(5) show thesis
    proof (cases rule: uploadVersion_cases)
      case early
      have "V w' = V w" "Ob w' = Ob w" using early(1) keep ran(6) by simp_all
      then show thesis by (rule quiet) (use early(2) went_on(6) no200 in \<open>cases r0; auto\<close>)
    next
      case (failed mws r1 wu v)
      have "V w' = V wu \<and> Ob w' = Ob wu \<or> V w' = V (snd (Delete (app_Storage ctx) v wu)) \<and> Ob w' = Ob (snd (Delete (app_Storage ctx) v wu))"
        using failed(4) keep ran(6) by auto
      moreover have "\<And>rs. r = Return rs \<Longrightarrow> \<forall>x \<in> set rs. rs_code x \<noteq> 200"
        using failed(5) went_on(6) no200 by (cases r0) auto
      ultimately show thesis by (rule that(2) [OF ran(2) keep(1,2) went_on(2) failed(1-3)])
    next
      case (stored ds frs' mws n wu)
      have r: "r = Return (written @ [OKResponse (VersionData (version\<lparr>uv_Filesize := n, uv_CreatedAt := up_created env,
         uv_UpdatedAt := up_created env\<rparr>))])" using stored(5) went_on(6) by simp
      have "V w' = V w2" "Ob w' = Ob w2" using keep ran(6) by simp_all
      from that(3) [OF ran(1,2,4) keep(1,2) went_on(2,3,4) stored(1-4) this r] show thesis .
    qed
  qed
qed

section \<open>Histories of uploads\<close>

text \<open>
  Any number of upload requests, to the collection \<open>c\<close> and to others, with any users, streams and
  outcomes; the configuration of \<open>c\<close> does not change meanwhile.
\<close>

inductive uploads :: "http_lib \<Rightarrow> ('w, 'd) ApplicationContainer \<Rightarrow> Collection \<Rightarrow> 'w \<Rightarrow> 'w \<Rightarrow> bool"
  for E ctx c where
  start: "uploads E ctx c w w"
| request: "uploads E ctx c w w1 \<Longrightarrow> upload_reads_ok env \<Longrightarrow>
    (\<forall>c'. GetCollectionById (hb_collections E) (app_Collections ctx) (rq_collectionId q) w1 = Inr c' \<longrightarrow>
       Collection_GetId c' = Collection_GetId c \<longrightarrow> c' = c) \<Longrightarrow>
    uploadRoute E ctx env q w1 = Some (r, w') \<Longrightarrow> uploads E ctx c w w'"

lemma quota_one_request:
  assumes laws: "versions_ok (st_repository (app_Storage ctx)) V" "app_frame ctx V Ob"
      "deletes_succeed (st_repository (app_Storage ctx))"
    and conf: "sizes_fit (hb_collections E) c m M" "1 \<le> sint (cs_MaxBackupsCount (c_Spec c))"
      "sint (cs_MaxBackupsCount (c_Spec c)) * sint m \<le> sint M" "sint M + int io_buffer_len < 2 ^ 63"
    and same: "\<forall>c'. GetCollectionById (hb_collections E) (app_Collections ctx) (rq_collectionId q) w = Inr c' \<longrightarrow>
       Collection_GetId c' = Collection_GetId c \<longrightarrow> c' = c"
    and reads: "upload_reads_ok env" and run: "uploadRoute E ctx env q w = Some (r, w')"
    and pre: "quota_kept c m M (versions_of (Collection_GetId c) (V w)) \<and> distinct (map uv_Id (V w))"
  shows "quota_kept c m M (versions_of (Collection_GetId c) (V w')) \<and> distinct (map uv_Id (V w'))"
  using laws run
proof (cases rule: upload_effect)
  case quiet
  with pre show ?thesis by simp
next
  case (failed c' w1 uploader sid version es mws r1 w2 v)
  have "V w2 = V w" using UploadFile_rows [OF laws(2) failed(5)] failed(2) by simp
  with failed(8) Delete_rows [OF laws, of v w2] pre show ?thesis
    by (auto simp: versions_of_filter quota_kept_filter distinct_map_filter)
next
  case (stored user c' lock w1 sid version strategy written es ds frs' mws n w2 w3)
  note rd = uploadStream_reads [OF reads stored(8)]
  show ?thesis
  proof (cases "Collection_GetId c' = Collection_GetId c")
    case True
    with same stored(2) have "c' = c" by blast
    with stored_quota [OF laws conf _ _ stored(6,7) [unfolded \<open>c' = c\<close>] rd stored(9) _ stored(11,12)]
      stored(10,4,13) pre show ?thesis by simp
  next
    case False
    have w3: "V w' = filter (\<lambda>x. uv_Id x \<notin> uv_Id ` set ds)
        (V (registerUploaded (app_Storage ctx) (version\<lparr>uv_Filesize := n\<rparr>) w2))"
      unfolding stored(12,13) by (rule CleanUp_rows [OF laws])
    have w2: "V w2 = V w" using UploadFile_rows [OF laws(2) stored(11)] stored(4) by simp
    have cid: "uv_CollectionId version \<noteq> Collection_GetId c" using new_version_fields(2) [OF stored(6)] False by simp
    from laws show ?thesis
    proof (cases rule: registerUploaded_rows [where v = "version\<lparr>uv_Filesize := n\<rparr>" and w = w2])
      case (added cr upd)
      with w3 w2 pre cid show ?thesis
        by (auto simp: versions_of_filter versions_of_snoc quota_kept_filter distinct_map_filter)
    next
      case dropped
      with w3 w2 pre show ?thesis by (simp add: versions_of_filter quota_kept_filter distinct_map_filter)
    qed
  qed
qed

section \<open>From the upload to the download\<close>

lemma Delete_objects:
  assumes "bucket_ok (st_storage (app_Storage ctx)) Ob" "app_frame ctx V Ob" "p \<noteq> GetTargetPath v"
  shows "Ob (snd (Delete (app_Storage ctx) v w)) p = Ob w p"
proof -
  let ?B = "st_storage (app_Storage ctx)"
  define w1 where "w1 = snd (ver_delete (st_repository (app_Storage ctx)) v w)"
  have "Ob w1 = Ob w" using app_frameD(4) [OF assms(2)] by (simp add: w1_def ver_delete_def)
  moreover have "snd (Delete (app_Storage ctx) v w) = snd (bk_Delete ?B (GetTargetPath v) w1)"
    by (simp add: Delete_def w1_def split: prod.split)
  moreover obtain e w2 where "bk_Delete ?B (GetTargetPath v) w1 = (e, w2)" by fastforce
  ultimately show ?thesis
    using bucket_okD(5,6) [OF assms(1), of "GetTargetPath v" w1] assms(3) by (cases e) auto
qed

lemma CleanUp_objects:
  assumes "bucket_ok (st_storage (app_Storage ctx)) Ob" "app_frame ctx V Ob" "p \<notin> GetTargetPath ` set ds"
  shows "Ob (snd (CleanUpOlderVersions (app_Storage ctx) ds w)) p = Ob w p"
  using assms(3)
proof (induction ds arbitrary: w)
  case (Cons v ds)
  have "snd (CleanUpOlderVersions (app_Storage ctx) (v # ds) w)
      = snd (CleanUpOlderVersions (app_Storage ctx) ds (snd (Delete (app_Storage ctx) v w)))"
    by (simp split: prod.split)
  with Cons Delete_objects [OF assms(1,2), of p v w] show ?case by simp
qed simp

text \<open>Reading an object: every chunk arrives, is written to the client, and the last one ends the stream.\<close>

definition delivers :: "(bytes \<Rightarrow> read_event list) \<Rightarrow> bool" where
  "delivers f \<longleftrightarrow> (\<forall>d. \<exists>pre e. f d = pre @ [e] \<and> concat (map ev_data (f d)) = d
     \<and> (\<forall>x \<in> set pre. ev_status x = ReadOk) \<and> ev_status e = ReadEOF
     \<and> (\<forall>x \<in> set (f d). \<not> ev_done x \<and> ev_writeErr x = None))"

lemma copyLoop_plain:
  assumes "\<forall>x \<in> set (pre @ [e]). \<not> ev_done x \<and> ev_writeErr x = None"
    and "\<forall>x \<in> set pre. ev_status x = ReadOk" and "ev_status e = ReadEOF" and "cp_middlewares s = []"
  shows "\<exists>n t. copyLoop (pre @ [e]) s = Some ((n, None), t)
    \<and> cp_written t = cp_written s @ concat (map ev_data (pre @ [e]))"
  using assms
proof (induction pre arbitrary: s)
  case Nil
  then have "accepts e s" by (simp add: accepts_def)
  from copyLoop_eof [OF this Nil(3), of "[]"] show ?case by auto
next
  case (Cons x pre)
  have mw: "cp_middlewares (after_round x s) = []" using Cons.prems(4) by (simp add: after_round_def)
  then have "copyLoop (x # pre @ [e]) s = copyLoop (pre @ [e]) (after_round x s)"
    using Cons.prems by (intro copyLoop_more) (simp_all add: accepts_def)
  moreover have "\<exists>n t. copyLoop (pre @ [e]) (after_round x s) = Some ((n, None), t)
      \<and> cp_written t = cp_written (after_round x s) @ concat (map ev_data (pre @ [e]))"
    using Cons.prems by (intro Cons.IH [OF _ _ _ mw]) simp_all
  ultimately show ?case by simp
qed

lemma delivered:
  assumes "delivers f"
  shows "\<exists>n st. CopyStream (f d) io_buffer_len [] = Some ((n, None), st) \<and> cp_written st = d"
proof -
  obtain pre e where f: "f d = pre @ [e]" "concat (map ev_data (f d)) = d" "\<forall>x \<in> set pre. ev_status x = ReadOk"
    "ev_status e = ReadEOF" "\<forall>x \<in> set (f d). \<not> ev_done x \<and> ev_writeErr x = None"
    using assms unfolding delivers_def by blast
  from copyLoop_plain [OF f(5) [unfolded f(1)] f(3,4), of "copy_start io_buffer_len []"] f(2) show ?thesis
    unfolding CopyStream_def f(1) by (simp add: copy_start_def)
qed

text \<open>
  The reading operations answer: the highest number of a collection, a row with a number when
  there is one, and the content of an object that exists.
\<close>

definition reads_answer ::
    "'w storage_Service \<Rightarrow> ('w \<Rightarrow> UploadedVersion list) \<Rightarrow> ('w \<Rightarrow> (string \<rightharpoonup> bytes)) \<Rightarrow> 'w \<Rightarrow> bool" where
  "reads_answer s V Ob w \<longleftrightarrow>
     (\<forall>cid. \<exists>k. sql_ver_max (st_repository s) cid w = Inr k)
   \<and> (\<forall>cid x. x \<in> set (versions_of cid (V w)) \<longrightarrow>
        (\<exists>y \<in> set (versions_of cid (V w)). sql_ver_by_num (st_repository s) cid (itoa (version_key x)) w = Inr y
           \<and> version_key y = version_key x))
   \<and> (\<forall>p d. Ob w p = Some d \<longrightarrow> bk_NewReader (st_storage s) p w = Inr d)"

text \<open>The latest version is the one with the highest number.\<close>

lemma latest_version:
  assumes "versions_ok (st_repository s) V" "reads_answer s V Ob w"
    and x: "x \<in> set (versions_of cid (V w))"
    and top: "\<And>y. y \<in> set (versions_of cid (V w)) \<Longrightarrow> y \<noteq> x \<Longrightarrow> version_key y < version_key x"
  shows "GetVersionByNum s cid ''latest'' w = Inr x"
proof -
  obtain k where k: "sql_ver_max (st_repository s) cid w = Inr k" using assms(2) unfolding reads_answer_def by blast
  have "highest (versions_of cid (V w)) = version_key x"
    using x top by (auto simp: highest_def intro!: Max_eqI) (metis order.order_iff_strict)
  then have "sint k = version_key x" using versions_okD(2) [OF assms(1) k] by simp
  moreover obtain y where y: "y \<in> set (versions_of cid (V w))"
    "sql_ver_by_num (st_repository s) cid (itoa (version_key x)) w = Inr y" "version_key y = version_key x"
    using assms(2) x unfolding reads_answer_def by blast
  moreover have "y = x" using top [OF y(1)] y(3) by auto
  ultimately show ?thesis
    using k by (simp add: GetVersionByNum_def findLastHighestVersionNumber_def getByVersionNum_def TrimPrefix_itoa)
qed

text \<open>What a stored version leaves behind: its row is the newest one, its object is the stream.\<close>

lemma older_paths:
  assumes "versions_ok (st_repository s) V" "CreateNewVersionFromCollection s newId c uploader sid 0 w = Inr version"
    and "strContains (cs_FilenameTemplate (c_Spec c)) ''${version}''" "highest (versions_of (Collection_GetId c) (V w)) < 2 ^ 63 - 1"
    and old: "old \<in> set (versions_of (Collection_GetId c) (V w))"
    and name: "uv_Filename old = GenerateNextVersionFilename c (uv_VersionNumber old)"
  shows "version_key old < version_key version" "GetTargetPath version \<noteq> GetTargetPath old"
proof -
  show num: "version_key old < version_key version"
    using next_version [OF assms(1) new_version_fields(5) [OF assms(2)] assms(4)] highest_bound [OF old] by simp
  have "uv_Filename version \<noteq> uv_Filename old"
    using num name new_version_fields(4) [OF assms(2)]
      GenerateNextVersionFilename_inj [OF assms(3), of "uv_VersionNumber version" "uv_VersionNumber old"] by auto
  moreover have "uv_CollectionId version = uv_CollectionId old"
    using new_version_fields(2) [OF assms(2)] old by (simp add: versions_of_def)
  ultimately show "GetTargetPath version \<noteq> GetTargetPath old" by (simp add: GetTargetPath_inj)
qed

lemma stored_backup:
  assumes laws: "versions_ok (st_repository (app_Storage ctx)) V" "app_frame ctx V Ob"
      "deletes_succeed (st_repository (app_Storage ctx))" and bucket: "bucket_ok (st_storage (app_Storage ctx)) Ob"
    and ver: "CreateNewVersionFromCollection (app_Storage ctx) newId c uploader sid 0 w = Inr version"
    and ds: "set ds \<subseteq> set (versions_of (Collection_GetId c) (V w))"
    and vw2: "V w2 = V w" and ob2: "Ob w2 = (Ob w)(GetTargetPath version \<mapsto> content)"
    and w3: "w3 = snd (CleanUpOlderVersions (app_Storage ctx) ds
        (registerUploaded (app_Storage ctx) (version\<lparr>uv_Filesize := n\<rparr>) w2))"
    and reg: "uv_Id version \<in> uv_Id ` set (V w3)"
  obtains row where "V w3 = filter (\<lambda>x. uv_Id x \<notin> uv_Id ` set ds) (V w) @ [row]"
    "uv_CollectionId row = Collection_GetId c" "uv_VersionNumber row = uv_VersionNumber version"
    "uv_Filename row = uv_Filename version" "uv_Id row = uv_Id version" "uv_Id row \<notin> uv_Id ` set (V w)"
    "GetTargetPath row = GetTargetPath version"
    "\<forall>p. p \<notin> GetTargetPath ` set ds \<longrightarrow> Ob w3 p = (if p = GetTargetPath version then Some content else Ob w p)"
proof -
  let ?kept = "\<lambda>x. uv_Id x \<notin> uv_Id ` set ds" and ?u = "version\<lparr>uv_Filesize := n\<rparr>" and ?cid = "Collection_GetId c"
  have rows: "V w3 = filter ?kept (V (registerUploaded (app_Storage ctx) ?u w2))"
    unfolding w3 by (rule CleanUp_rows [OF laws])
  from laws show thesis
  proof (cases rule: registerUploaded_rows [where v = ?u and w = w2])
    case (added cr upd)
    let ?row = "?u\<lparr>uv_CreatedAt := cr, uv_UpdatedAt := upd\<rparr>"
    have "?kept ?row" using added(1) ds vw2 by (auto simp: versions_of_def)
    then have vs: "V w3 = filter ?kept (V w) @ [?row]" using rows added(2) vw2 by simp
    have other: "Ob w3 p = (if p = GetTargetPath version then Some content else Ob w p)" if "p \<notin> GetTargetPath ` set ds" for p
      unfolding w3 using CleanUp_objects [OF bucket laws(2) that] added(3) ob2 by simp
    show thesis
      by (rule that [OF vs])
        (use new_version_fields(2) [OF ver] added(1) vw2 other in \<open>simp_all add: GetTargetPath_def\<close>)
  next
    case dropped
    then have "uv_Id version \<notin> uv_Id ` set (V w3)" using rows by auto
    with reg show thesis by blast
  qed
qed

lemma proposed_of_collection:
  assumes "versions_ok (st_repository s) V" "CreateRotationStrategyCase s c w = Inr strategy"
    and "GetVersionsThatShouldBeDeletedIfThisVersionUploaded strategy version = Return (ds, frs')"
    and "1 \<le> sint (cs_MaxBackupsCount (c_Spec c))" "length (V w) < 2 ^ 63"
  shows "set ds \<subseteq> set (versions_of (Collection_GetId c) (V w))"
proof -
  obtain sl where sl: "sql_ver_all (st_repository s) (Collection_GetId c) w = Inr sl"
    "strategy = NewFifoRotationStrategy c sl" using selected_versions [OF assms(2)] .
  have ms: "mset (sl_elems sl) = mset (versions_of (Collection_GetId c) (V w))"
    by (rule versions_okD(1) [OF assms(1) sl(1)])
  have "length (sl_elems sl) \<le> length (V w)" unfolding mset_eq_length [OF ms] versions_of_def by simp
  then have "length (sl_elems sl) < 2 ^ 63" using assms(5) by (rule le_less_trans)
  from proposed_held [OF assms(3) [unfolded sl(2)] assms(4) this] show ?thesis using mset_eq_setD [OF ms] by simp
qed

section \<open>A concrete server\<close>

text \<open>
  The in-memory table and storage behind a container whose one user is a collection manager, a
  library that decodes one collection, and a request that uploads a small encrypted message.
\<close>

definition toy_web :: "Collection \<Rightarrow> http_lib" where
  "toy_web c = (toy_http (toy_user [] ''m'') ''admin'')\<lparr>hb_collections := toy_clib\<lparr>cl_UnmarshalCollection := (\<lambda>_. Inr c)\<rparr>\<rparr>"

definition mem_app :: "(mem_store, unit) ApplicationContainer" where
  "mem_app = toy_app\<lparr>app_Storage := mem_service\<rparr>"

definition toy_bearer :: request where
  "toy_bearer = toy_request\<lparr>rq_Authorization := bearer ''h'' ''{}'' ''s''\<rparr>"

definition toy_upload_env :: upload_env where
  "toy_upload_env = \<lparr>up_now = 0, up_lock = \<lparr>readings = (\<lambda>_. 0), draw = 0\<rparr>, up_newId = ''n'',
     up_FormFile = Inl ''no form'', up_Body = toy_stream, up_cancelled = False, up_created = 7\<rparr>"

lemma mem_app_simps [simp]: "app_Storage mem_app = mem_service" by (simp add: mem_app_def)

lemma mem_frame: "app_frame mem_app mem_versions mem_objects"
  by (auto simp: app_frame_def mem_bucket_def mem_ver_sql_def mem_app_def toy_app_def)

lemma mem_deletes: "deletes_succeed mem_ver_sql"
  by (simp add: deletes_succeed_def mem_ver_sql_def)

abbreviation toy_manager :: SessionAwareUser where
  "toy_manager \<equiv> NewSessionAwareUser (toy_user [] ''m'') None"

lemma toy_context: "GetContextUser (toy_web c) mem_app toy_bearer w = Return (Inr toy_manager)"
proof -
  have token: "extractJsonFromJWT (rq_Authorization toy_bearer) = Return (Inr ''{}'')"
    using toy_token(2) [of "''s''"] by (simp add: toy_bearer_def)
  have "GetContextUser (toy_web c) mem_app toy_bearer w = LookupSessionUser (hb_users (toy_web c)) (app_Users mem_app)
      \<lparr>ui_Username = ''admin'', ui_AccessKeyName = ''''\<rparr> None w"
    using GetContextUser_header [of toy_bearer "''{}''" "toy_web c" "''null''" None mem_app w] token
    by (simp add: toy_web_def toy_http_def gjson_String_def identity_plain)
  then show ?thesis by (simp add: toy_web_def mem_app_def toy_lookup)
qed

lemma toy_found:
  "GetCollectionById (hb_collections (toy_web (toy_collection n one all t))) (app_Collections mem_app) i w
     = Inr (toy_collection n one all t)"
  by (simp add: GetCollectionById_def getById_def toy_web_def mem_app_def toy_app_def toy_provider_def
      FillPasswordFromKindSecret_def toy_collection_def)

lemma toy_allowed:
  "CanUploadToMe (toy_collection n one all t) (sau_Actor toy_manager)"
  "CanDownloadFromMe (toy_collection n one all t) (sau_Actor toy_manager)"
  "ValidateIsBackupWindowAllowingToUpload L (toy_collection n one all t) now"
proof -
  have "CanThoseRolesPerformAction [RoleCollectionManager] ActionUpload"
    "CanThoseRolesPerformAction [RoleCollectionManager] ActionDownload"
    by (auto simp: CanThoseRolesPerformAction_iff GetRolesActions_iff inherits_enum)
  then show "CanUploadToMe (toy_collection n one all t) (sau_Actor toy_manager)"
    "CanDownloadFromMe (toy_collection n one all t) (sau_Actor toy_manager)"
    by (simp_all add: CanUploadToMe_def CanDownloadFromMe_def decision_simps sau_Actor_def NewSessionAwareUser_def
        toy_user_def User_GetRoles_def IsInAccessKeyContext_def)
  show "ValidateIsBackupWindowAllowingToUpload L (toy_collection n one all t) now"
    by (simp add: ValidateIsBackupWindowAllowingToUpload_def toy_collection_def)
qed

lemma toy_session_id: "\<exists>sid. GetCurrentSessionId toy_bearer = Return sid"
  by (simp add: GetCurrentSessionId_def toy_bearer_def Trim_def)

abbreviation toy_backups :: Collection where
  "toy_backups \<equiv> toy_collection 2 ''1K'' ''3K'' ''v${version}''"

definition first_version :: "string \<Rightarrow> int64 \<Rightarrow> UploadedVersion" where
  "first_version sid n = \<lparr>uv_Id = ''n'', uv_CollectionId = ''iwa'', uv_VersionNumber = 1,
     uv_Filename = GenerateNextVersionFilename toy_backups 1, uv_Filesize = n, uv_UploadedBySessionId = sid,
     uv_Uploader = ''admin'', uv_CreatedAt = zero_time, uv_UpdatedAt = zero_time, uv_DeletedAt = None\<rparr>"

lemma toy_lock:
  "\<exists>lock. LockService_Lock (app_Locks mem_app) (up_lock toy_upload_env) i d w = (Inr lock, w) \<and> Unlock lock = (\<lambda>w. w)"
  by (simp add: LockService_Lock_eq mem_app_def toy_app_def toy_upload_env_def Unlock_def unlock_def Let_def fun_eq_iff)

lemma toy_first:
  "CreateNewVersionFromCollection mem_service ''n'' toy_backups ''admin'' sid 0 toy_store = Inr (first_version sid 0)"
  "CreateRotationStrategyCase mem_service toy_backups toy_store
     = Inr (NewFifoRotationStrategy toy_backups \<lparr>sl_elems = [], sl_spare = []\<rparr>)"
  by (simp_all add: CreateNewVersionFromCollection_def FindNextVersionForCollectionId_def
      findLastHighestVersionNumber_def mem_ver_sql_def toy_store_def versions_of_def highest_def first_version_def
      CreateRotationStrategyCase_def findAllVersionsForCollectionId_def)

lemma toy_middlewares:
  "\<exists>m. 42 \<le> sint m \<and> CreateStandardMiddleWares (hb_collections (toy_web toy_backups)) mem_service [] toy_backups toy_store
     = Inr [createRequestCancelledMiddleware, createQuotaMaxFileSizeMiddleware m, createNonEmptyMiddleware,
         createGPGStreamMiddleware]"
proof -
  have "sizes_fit (hb_collections (toy_web toy_backups)) toy_backups 1000 3000"
    using toy_sizes_fit [of 2 "''v${version}''"] by (simp add: sizes_fit_def toy_web_def)
  moreover have "sql_ver_all (st_repository mem_service) (Collection_GetId toy_backups) toy_store = Inr \<lparr>sl_elems = [], sl_spare = []\<rparr>"
    by (simp add: mem_ver_sql_def toy_store_def versions_of_def)
  ultimately show ?thesis
    using upload_limit [of "hb_collections (toy_web toy_backups)" toy_backups 1000 3000 1000 mem_service toy_store
        "\<lparr>sl_elems = [], sl_spare = []\<rparr>" "[]" "[]"]
    by (auto simp: CreateStandardMiddleWares_def createQuotaMaxFileSizeMiddleware_def)
qed

lemma toy_upload_request:
  "\<exists>sid. uploadRoute (toy_web toy_backups) mem_app toy_upload_env toy_bearer toy_store
     = Some (Return [OKResponse (VersionData (first_version sid 42\<lparr>uv_CreatedAt := 7, uv_UpdatedAt := 7\<rparr>))],
         \<lparr>mem_versions = [first_version sid 42],
          mem_objects = [GetTargetPath (first_version sid 0) \<mapsto> gpg_header @ gpg_footer]\<rparr>)"
proof -
  obtain sid where sid: "GetCurrentSessionId toy_bearer = Return sid" using toy_session_id by blast
  obtain m where m: "42 \<le> sint m" and mws: "CreateStandardMiddleWares (hb_collections (toy_web toy_backups)) mem_service []
      toy_backups toy_store = Inr [createRequestCancelledMiddleware, createQuotaMaxFileSizeMiddleware m,
        createNonEmptyMiddleware, createGPGStreamMiddleware]" using toy_middlewares by blast
  obtain lock where lock: "LockService_Lock (app_Locks mem_app) (up_lock toy_upload_env)
      (GetGlobalIdentifier toy_backups) (app_UploadTimeout mem_app) toy_store = (Inr lock, toy_store)"
      "Unlock lock = (\<lambda>w. w)" using toy_lock by blast
  have name: "om_Name (u_Metadata (sau_User toy_manager)) = ''admin''" by (simp add: NewSessionAwareUser_def toy_user_def)
  have del: "GetVersionsThatShouldBeDeletedIfThisVersionUploaded
      (NewFifoRotationStrategy toy_backups \<lparr>sl_elems = [], sl_spare = []\<rparr>) v
      = Return ([], NewFifoRotationStrategy toy_backups \<lparr>sl_elems = [], sl_spare = []\<rparr>)" for v
    by (simp add: GetVersionsThatShouldBeDeletedIfThisVersionUploaded_def NewFifoRotationStrategy_def)
  have st: "uploadStream toy_upload_env toy_bearer = Return (Inr ([], toy_stream))"
    by (simp add: uploadStream_def toy_upload_env_def toy_bearer_def toy_request_def)
  have env: "up_newId toy_upload_env = ''n''" "\<not> up_cancelled toy_upload_env" "up_created toy_upload_env = 7"
    by (simp_all add: toy_upload_env_def)
  have reg: "registerUploaded mem_service (first_version sid 42) (toy_store\<lparr>mem_objects := ob\<rparr>)
      = \<lparr>mem_versions = [first_version sid 42], mem_objects = ob\<rparr>" for ob
    by (simp add: registerUploaded_def RegisterVersion_def ver_create_def mem_ver_sql_def toy_store_def)
  have size: "first_version sid 0\<lparr>uv_Filesize := 42\<rparr> = first_version sid 42" by (simp add: first_version_def)
  have "uploadVersion (toy_web toy_backups) mem_app toy_upload_env toy_backups (first_version sid 0)
      (NewFifoRotationStrategy toy_backups \<lparr>sl_elems = [], sl_spare = []\<rparr>) toy_stream toy_store
    = Some (Return (OKResponse (VersionData (first_version sid 42\<lparr>uv_CreatedAt := 7, uv_UpdatedAt := 7\<rparr>))),
         \<lparr>mem_versions = [first_version sid 42],
          mem_objects = [GetTargetPath (first_version sid 0) \<mapsto> gpg_header @ gpg_footer]\<rparr>)"
    by (simp add: uploadVersion_def del mws toy_upload [OF m] env size reg Let_def) (simp add: toy_store_def)
  then show ?thesis
    by (intro exI [of _ sid]) (simp add: uploadRoute_def toy_context toy_found toy_allowed lock uploadLocked_def sid
        name env toy_first CanUpload_def st)
qed

lemma mem_reads_answer: "reads_answer mem_service mem_versions mem_objects w"
  unfolding reads_answer_def
proof (intro conjI allI impI)
  fix cid x
  assume x: "x \<in> set (versions_of cid (mem_versions w))"
  let ?hits = "filter (\<lambda>v. Some (version_key x) = Some (version_key v)) (versions_of cid (mem_versions w))"
  have "x \<in> set ?hits" using x by simp
  then obtain y ys where y: "?hits = y # ys" by (metis list.exhaust list.set(1) empty_iff)
  then have "y \<in> set ?hits" by simp
  then have "y \<in> set (versions_of cid (mem_versions w))" "version_key y = version_key x" by simp_all
  with y show "\<exists>y \<in> set (versions_of cid (mem_versions w)).
      sql_ver_by_num (st_repository mem_service) cid (itoa (version_key x)) w = Inr y \<and> version_key y = version_key x"
    by (intro bexI [of _ y]) (simp_all add: mem_ver_sql_def)
qed (auto simp: mem_ver_sql_def mem_bucket_def)

lemma toy_reads: "upload_reads_ok toy_upload_env"
  using toy_stream_ok by (simp add: upload_reads_ok_def toy_upload_env_def)

definition one_chunk :: "bytes \<Rightarrow> read_event list" where
  "one_chunk d = [chunk d, stream_end]"

lemma one_chunk_delivers: "delivers one_chunk"
  unfolding delivers_def one_chunk_def
proof
  fix d
  show "\<exists>pre e. [chunk d, stream_end] = pre @ [e] \<and> concat (map ev_data [chunk d, stream_end]) = d
     \<and> (\<forall>x \<in> set pre. ev_status x = ReadOk) \<and> ev_status e = ReadEOF
     \<and> (\<forall>x \<in> set [chunk d, stream_end]. \<not> ev_done x \<and> ev_writeErr x = None)"
    by (intro exI [of _ "[chunk d]"] exI [of _ stream_end]) (simp add: chunk_def stream_end_def)
qed

section \<open>Properties\<close>

text \<open>
  C1. The quota of a collection holds in every history. Take a collection with a positive limit
  and consistent sizes, deletes of rows that succeed, and any sequence of upload requests to
  this and other collections, by any users, with any streams and outcomes, errors and panics
  included. If the collection respects its limits at the start, then at the end it has no more
  versions than it may have, and together they are no larger than the collection may be.
\<close>

theorem quota_invariant:
  assumes "versions_ok (st_repository (app_Storage ctx)) V" and "app_frame ctx V Ob"
    and "deletes_succeed (st_repository (app_Storage ctx))"
    and "sizes_fit (hb_collections E) c m M" and "1 \<le> sint (cs_MaxBackupsCount (c_Spec c))"
    and "sint (cs_MaxBackupsCount (c_Spec c)) * sint m \<le> sint M" and "sint M + int io_buffer_len < 2 ^ 63"
    and "quota_kept c m M (versions_of (Collection_GetId c) (V w))" and "distinct (map uv_Id (V w))"
    and "uploads E ctx c w w'"
  shows "int (length (versions_of (Collection_GetId c) (V w'))) \<le> sint (cs_MaxBackupsCount (c_Spec c))
    \<and> sizes (versions_of (Collection_GetId c) (V w')) \<le> sint M
    \<and> quota_kept c m M (versions_of (Collection_GetId c) (V w'))"
proof -
  from assms(10,8,9)
  have "quota_kept c m M (versions_of (Collection_GetId c) (V w')) \<and> distinct (map uv_Id (V w'))"
  proof (induction rule: uploads.induct)
    case (request w w1 env q r w')
    then show ?case using quota_one_request [OF assms(1-7) request.hyps(3,2,4)] by blast
  qed simp
  moreover have "0 \<le> sint m" using assms(4) by (simp add: sizes_fit_def)
  ultimately show ?thesis using quota_kept_sizes [of c m M "versions_of (Collection_GetId c) (V w')"]
    by (auto simp: quota_kept_def)
qed

theorem quota_invariant_witness:
  "\<exists>w'. uploads (toy_web toy_backups) mem_app toy_backups toy_store w' \<and> length (mem_versions w') = 1
     \<and> sizes (versions_of ''iwa'' (mem_versions w')) \<le> 3000"
proof -
  obtain sid where run: "uploadRoute (toy_web toy_backups) mem_app toy_upload_env toy_bearer toy_store
     = Some (Return [OKResponse (VersionData (first_version sid 42\<lparr>uv_CreatedAt := 7, uv_UpdatedAt := 7\<rparr>))],
         \<lparr>mem_versions = [first_version sid 42],
          mem_objects = [GetTargetPath (first_version sid 0) \<mapsto> gpg_header @ gpg_footer]\<rparr>)" (is "_ = Some (_, ?w')")
    using toy_upload_request by blast
  have hist: "uploads (toy_web toy_backups) mem_app toy_backups toy_store ?w'"
    by (rule uploads.request [OF uploads.start toy_reads _ run]) (simp add: toy_found)
  have conf: "sizes_fit (hb_collections (toy_web toy_backups)) toy_backups 1000 3000"
    using toy_sizes_fit [of 2 "''v${version}''"] by (simp add: sizes_fit_def toy_web_def)
  have laws: "versions_ok (st_repository (app_Storage mem_app)) mem_versions"
    "deletes_succeed (st_repository (app_Storage mem_app))" using mem_versions_ok mem_deletes by simp_all
  have quota: "quota_kept toy_backups 1000 3000 (versions_of (Collection_GetId toy_backups) (mem_versions toy_store))"
    by (simp add: quota_kept_def toy_store_def versions_of_def)
  have "sizes (versions_of (Collection_GetId toy_backups) (mem_versions ?w')) \<le> sint (3000 :: int64)"
    using quota_invariant [OF laws(1) mem_frame laws(2) conf _ _ _ quota _ hist]
    by (simp add: io_buffer_len_def toy_store_def)
  with hist show ?thesis by (auto simp: Collection_GetId_def)
qed

text \<open>
  C3. A backup that was uploaded can be downloaded. If the file name template has the version
  placeholder and an upload request is answered with a version that is registered, then a
  download of the latest version by a user who may download returns, with status 200, exactly
  the bytes that were read from the uploaded stream; no rotation that the upload causes and no
  other object interferes.
\<close>

theorem backup_roundtrip:
  assumes "versions_ok (st_repository (app_Storage ctx)) V" and "app_frame ctx V Ob"
    and "deletes_succeed (st_repository (app_Storage ctx))" and "bucket_ok (st_storage (app_Storage ctx)) Ob"
    and "GetCollectionById (hb_collections E) (app_Collections ctx) (rq_collectionId q) w = Inr c"
    and "1 \<le> sint (cs_MaxBackupsCount (c_Spec c))" and "length (V w) < 2 ^ 63"
    and "strContains (cs_FilenameTemplate (c_Spec c)) ''${version}''"
    and "\<forall>old \<in> set (versions_of (Collection_GetId c) (V w)).
      uv_Filename old = GenerateNextVersionFilename c (uv_VersionNumber old)"
    and "highest (versions_of (Collection_GetId c) (V w)) < 2 ^ 63 - 1"
    and "uploadRoute E ctx env q w = Some (Return rs, w')" and "OKResponse (VersionData v) \<in> set rs"
    and "uv_Id v \<in> uv_Id ` set (V w')" and "Ob w (GetTargetPath v) = None"
    and "uploadStream env q = Return (Inr (written, es))"
    and "reads_answer (app_Storage ctx) V Ob w'" and "delivers f"
    and "GetContextUser E ctx q' w' = Return (Inr u)" and "CanDownloadFromMe c (sau_Actor u)"
    and "GetCollectionById (hb_collections E) (app_Collections ctx) (rq_collectionId q') w' = Inr c"
    and "rq_versionNum q' = ''latest''"
  shows "\<exists>pre e post resp. es = pre @ e # post \<and> (\<forall>x \<in> set pre. ev_status x = ReadOk) \<and> ev_status e = ReadEOF
    \<and> downloadRoute E ctx f q' w' = Some (Return resp) \<and> rs_code resp = 200
    \<and> rs_stream resp = concat (map ev_data (pre @ [e]))"
  using assms(1-3,11)
proof (cases rule: upload_effect)
  case quiet
  then show ?thesis using assms(12) by (auto simp: OKResponse_def)
next
  case failed
  then show ?thesis using assms(12) by (auto simp: OKResponse_def)
next
  case (stored user c0 lock w1 sid version strategy written0 es0 ds frs' mws n w2 w3)
  have c: "c0 = c" "es0 = es" using stored(2,8) assms(5,15) by auto
  have path: "GetTargetPath v = GetTargetPath version" "uv_Id v = uv_Id version"
    using assms(12) stored(15) uploadStream_written [OF stored(8)] by (auto simp: OKResponse_def GetTargetPath_def)
  have ds: "set ds \<subseteq> set (versions_of (Collection_GetId c) (V w1))"
    using proposed_of_collection [OF assms(1) stored(7,9)] stored(4) assms(6,7) c by simp
  have older: "version_key old < version_key version \<and> GetTargetPath version \<noteq> GetTargetPath old"
    if "old \<in> set (versions_of (Collection_GetId c) (V w1))" for old
    using older_paths [OF assms(1) stored(6) [unfolded c] assms(8), of old] that stored(4) assms(9,10) by simp
  have free: "Ob w1 (GetTargetPath version) = None" using assms(14) path stored(5) by simp
  obtain st where st1: "CopyStream es io_buffer_len mws = Some ((n, None), st)"
    and ob2: "Ob w2 = (Ob w1)(GetTargetPath version \<mapsto> cp_written st)"
    using UploadFile_success [OF assms(4) free stored(11) [unfolded c]] .
  have reg: "uv_Id version \<in> uv_Id ` set (V w3)" using assms(13) path stored(13) by simp
  obtain row where v3: "V w3 = filter (\<lambda>x. uv_Id x \<notin> uv_Id ` set ds) (V w1) @ [row]"
    and rowf: "uv_CollectionId row = Collection_GetId c" "uv_VersionNumber row = uv_VersionNumber version"
      "uv_Filename row = uv_Filename version" "uv_Id row = uv_Id version" "uv_Id row \<notin> uv_Id ` set (V w1)"
      "GetTargetPath row = GetTargetPath version"
    and ob3: "\<forall>p. p \<notin> GetTargetPath ` set ds \<longrightarrow>
      Ob w3 p = (if p = GetTargetPath version then Some (cp_written st) else Ob w1 p)"
    using stored_backup [OF assms(1-4) stored(6) [unfolded c] ds UploadFile_rows [OF assms(2) stored(11)] ob2
        stored(12) reg] .
  have "GetTargetPath version \<notin> GetTargetPath ` set ds" using older ds by blast
  then have st: "CopyStream es io_buffer_len mws = Some ((n, None), st)" "Ob w3 (GetTargetPath version) = Some (cp_written st)"
    using st1 ob3 by simp_all
  have "versions_of (Collection_GetId c) (V w3)
      = filter (\<lambda>x. uv_Id x \<notin> uv_Id ` set ds) (versions_of (Collection_GetId c) (V w1)) @ [row]"
    using v3 rowf by (simp add: versions_of_snoc versions_of_filter)
  then have row: "row \<in> set (versions_of (Collection_GetId c) (V w3))"
    "\<And>y. y \<in> set (versions_of (Collection_GetId c) (V w3)) \<Longrightarrow> y \<noteq> row \<Longrightarrow> version_key y < version_key row"
    "GetTargetPath row = GetTargetPath version" using older rowf by auto
  have latest: "GetVersionByNum (app_Storage ctx) (Collection_GetId c) ''latest'' w' = Inr row"
    using latest_version [OF assms(1,16), of row "Collection_GetId c"] row stored(13) by simp
  have "ReadFile (app_Storage ctx) (GetTargetPath row) w' = Inr (cp_written st)"
    using assms(16) st(2) row(3) stored(14) by (simp add: reads_answer_def ReadFile_def)
  moreover obtain k cs where "CopyStream (f (cp_written st)) io_buffer_len [] = Some ((k, None), cs)" "cp_written cs = cp_written st"
    using delivered [OF assms(17)] by blast
  ultimately have "\<exists>resp. downloadRoute E ctx f q' w' = Some (Return resp) \<and> rs_code resp = 200 \<and> rs_stream resp = cp_written st"
    using assms(18-21) latest by (simp add: downloadRoute_def OKResponse_def)
  with CopyStream_content [OF st(1)] show ?thesis by metis
qed

theorem backup_roundtrip_witness:
  "\<exists>rs w' resp. uploadRoute (toy_web toy_backups) mem_app toy_upload_env toy_bearer toy_store = Some (Return rs, w')
     \<and> downloadRoute (toy_web toy_backups) mem_app one_chunk toy_bearer w' = Some (Return resp) \<and> rs_code resp = 200
     \<and> (\<exists>pre e post. toy_stream = pre @ e # post \<and> rs_stream resp = concat (map ev_data (pre @ [e])))"
proof -
  obtain sid where run: "uploadRoute (toy_web toy_backups) mem_app toy_upload_env toy_bearer toy_store
     = Some (Return [OKResponse (VersionData (first_version sid 42\<lparr>uv_CreatedAt := 7, uv_UpdatedAt := 7\<rparr>))],
         \<lparr>mem_versions = [first_version sid 42],
          mem_objects = [GetTargetPath (first_version sid 0) \<mapsto> gpg_header @ gpg_footer]\<rparr>)"
      (is "_ = Some (Return [OKResponse (VersionData ?v)], ?w')")
    using toy_upload_request by blast
  have laws: "versions_ok (st_repository (app_Storage mem_app)) mem_versions"
    "deletes_succeed (st_repository (app_Storage mem_app))" "bucket_ok (st_storage (app_Storage mem_app)) mem_objects"
    "reads_answer (app_Storage mem_app) mem_versions mem_objects ?w'"
    using mem_versions_ok mem_deletes mem_bucket_ok mem_reads_answer by simp_all
  have st: "uploadStream toy_upload_env toy_bearer = Return (Inr ([], toy_stream))"
    by (simp add: uploadStream_def toy_upload_env_def toy_bearer_def toy_request_def)
  have "strContains ''v${version}'' ''${version}''"
    unfolding strContains_def sublist_def by (rule exI [of _ "''v''"], rule exI [of _ "''''"]) simp
  moreover have "uv_Id ?v = ''n''" "uv_Id (first_version sid 42) = ''n''" by (simp_all add: first_version_def)
  ultimately have "\<exists>pre e post resp. toy_stream = pre @ e # post \<and> (\<forall>x \<in> set pre. ev_status x = ReadOk) \<and> ev_status e = ReadEOF
    \<and> downloadRoute (toy_web toy_backups) mem_app one_chunk toy_bearer ?w' = Some (Return resp) \<and> rs_code resp = 200
    \<and> rs_stream resp = concat (map ev_data (pre @ [e]))"
    by (intro backup_roundtrip [where v = ?v, OF laws(1) mem_frame laws(2,3) toy_found _ _ _ _ _ run _ _ _ st laws(4)
        one_chunk_delivers toy_context toy_allowed(2) toy_found])
      (simp_all add: toy_store_def versions_of_def highest_def toy_bearer_def toy_request_def)
  with run show ?thesis by metis
qed

text \<open>
  C4. Uploads are guarded. If an upload request changes anything or is answered with success,
  then its user may upload to the collection, and either a backup window is open or the user may
  upload at any time; and either it worked between taking and releasing the lock of the
  collection, or the lock was refused and it is answered with an error.
\<close>

theorem upload_guarded:
  assumes "uploadRoute E ctx env q w = Some (r, w')"
    and "w' \<noteq> w \<or> (\<exists>rs x. r = Return rs \<and> x \<in> set rs \<and> rs_code x = 200)"
  shows "\<exists>user c. GetContextUser E ctx q w = Return (Inr user)
    \<and> GetCollectionById (hb_collections E) (app_Collections ctx) (rq_collectionId q) w = Inr c
    \<and> CanUploadToMe c (sau_Actor user)
    \<and> (ValidateIsBackupWindowAllowingToUpload (hb_collections E) c (up_now env)
       \<or> DecideCanDo \<lparr>dr_Actor = sau_Actor user, dr_Subject = Some (collection_Subject c), dr_Action = ActionUploadAnytime\<rparr>)
    \<and> ((\<exists>lock w1 w2. LockService_Lock (app_Locks ctx) (up_lock env) (GetGlobalIdentifier c) (app_UploadTimeout ctx) w = (Inr lock, w1)
          \<and> uploadLocked E ctx env q c user w1 = Some (r, w2) \<and> w' = Unlock lock w2)
       \<or> (\<exists>e. LockService_Lock (app_Locks ctx) (up_lock env) (GetGlobalIdentifier c) (app_UploadTimeout ctx) w = (Inl e, w')
          \<and> r = Return [ServerErrorResponse ''cannot upload to same collection in parallel'']))"
  using assms(1)
proof (cases rule: uploadRoute_cases)
  case refused
  then show ?thesis using assms(2) by blast
next
  case (busy user c e)
  then show ?thesis by (intro exI [of _ user] exI [of _ c]) blast
next
  case (ran user c lock w1 w2)
  then show ?thesis by (intro exI [of _ user] exI [of _ c]) blast
qed

theorem upload_guarded_witness:
  "\<exists>user c. GetContextUser (toy_web toy_backups) mem_app toy_bearer toy_store = Return (Inr user)
     \<and> GetCollectionById (hb_collections (toy_web toy_backups)) (app_Collections mem_app) ''iwa'' toy_store = Inr c
     \<and> CanUploadToMe c (sau_Actor user)"
proof -
  obtain sid w' where run: "uploadRoute (toy_web toy_backups) mem_app toy_upload_env toy_bearer toy_store
     = Some (Return [OKResponse (VersionData (first_version sid 42\<lparr>uv_CreatedAt := 7, uv_UpdatedAt := 7\<rparr>))], w')"
    using toy_upload_request by blast
  have "rq_collectionId toy_bearer = ''iwa''" by (simp add: toy_bearer_def toy_request_def)
  with upload_guarded [OF run] show ?thesis by (simp add: OKResponse_def) blast
qed

text \<open>
  C5. Reading is guarded. A download that delivers bytes or succeeds is made by a user who may
  download from the collection. What it reads is the stored object of a version of that very
  collection with the number that the request asks for (the highest one for \<open>latest\<close>), and a
  success delivers it whole. The one exception is a number that no version has: the lookup then
  gives the zero value of the struct, and the request reads an object with the path \<open>/\<close>, if the
  storage has one. A listing that succeeds is made by a user who may upload or download, and shows
  exactly the rows of that collection.
\<close>

theorem reading_guarded:
  assumes "versions_ok (st_repository (app_Storage ctx)) V" and "lookups_ok (st_repository (app_Storage ctx)) V"
    and "bucket_ok (st_storage (app_Storage ctx)) Ob"
  shows "(downloadRoute E ctx f q w = Some (Return resp) \<and> (rs_code resp = 200 \<or> rs_stream resp \<noteq> '''') \<longrightarrow>
      (\<exists>user c v object. GetContextUser E ctx q w = Return (Inr user)
        \<and> GetCollectionById (hb_collections E) (app_Collections ctx) (rq_collectionId q) w = Inr c
        \<and> CanDownloadFromMe c (sau_Actor user)
        \<and> (v \<in> set (versions_of (Collection_GetId c) (V w))
             \<and> asked_number (rq_versionNum q) (versions_of (Collection_GetId c) (V w)) = Some (version_key v)
           \<or> GetTargetPath v = ''/''
             \<and> (\<forall>x \<in> set (versions_of (Collection_GetId c) (V w)).
                  asked_number (rq_versionNum q) (versions_of (Collection_GetId c) (V w)) \<noteq> Some (version_key x)))
        \<and> Ob w (GetTargetPath v) = Some object
        \<and> (rs_code resp = 200 \<and> delivers f \<longrightarrow> rs_stream resp = object)))
   \<and> (listingRoute E ctx q w = Return resp \<and> rs_code resp = 200 \<longrightarrow>
      (\<exists>user c vs. GetContextUser E ctx q w = Return (Inr user)
        \<and> GetCollectionById (hb_collections E) (app_Collections ctx) (rq_collectionId q) w = Inr c
        \<and> (CanUploadToMe c (sau_Actor user) \<or> CanDownloadFromMe c (sau_Actor user))
        \<and> rs_data resp = VersionsData vs \<and> mset vs = mset (versions_of (Collection_GetId c) (V w))))"
proof (intro conjI impI; elim conjE)
  assume d: "downloadRoute E ctx f q w = Some (Return resp)" "rs_code resp = 200 \<or> rs_stream resp \<noteq> ''''"
  then obtain user c v object where u: "GetContextUser E ctx q w = Return (Inr user)"
    "GetCollectionById (hb_collections E) (app_Collections ctx) (rq_collectionId q) w = Inr c"
    "CanDownloadFromMe c (sau_Actor user)"
    "GetVersionByNum (app_Storage ctx) (Collection_GetId c) (rq_versionNum q) w = Inr v"
    "ReadFile (app_Storage ctx) (GetTargetPath v) w = Inr object"
    by (auto simp: downloadRoute_def response_defs bind_outcome_Return
        split: outcome.split_asm sum.split_asm if_split_asm)
  have whole: "rs_code resp = 200 \<and> delivers f \<longrightarrow> rs_stream resp = object"
    using d(1) u delivered [of f object] by (auto simp: downloadRoute_def)
  have stored: "Ob w (GetTargetPath v) = Some object"
    using bucket_okD(7) [OF assms(3)] u(5) by (simp add: ReadFile_def)
  show "\<exists>user c v object. GetContextUser E ctx q w = Return (Inr user)
        \<and> GetCollectionById (hb_collections E) (app_Collections ctx) (rq_collectionId q) w = Inr c
        \<and> CanDownloadFromMe c (sau_Actor user)
        \<and> (v \<in> set (versions_of (Collection_GetId c) (V w))
             \<and> asked_number (rq_versionNum q) (versions_of (Collection_GetId c) (V w)) = Some (version_key v)
           \<or> GetTargetPath v = ''/''
             \<and> (\<forall>x \<in> set (versions_of (Collection_GetId c) (V w)).
                  asked_number (rq_versionNum q) (versions_of (Collection_GetId c) (V w)) \<noteq> Some (version_key x)))
        \<and> Ob w (GetTargetPath v) = Some object
        \<and> (rs_code resp = 200 \<and> delivers f \<longrightarrow> rs_stream resp = object)"
    using GetVersionByNum_row [OF assms(1,2) u(4)] zero_UploadedVersion_path u(1-3) stored whole
    by (intro exI [of _ user] exI [of _ c] exI [of _ v] exI [of _ object]) auto
next
  assume "listingRoute E ctx q w = Return resp" "rs_code resp = 200"
  then obtain user c vs where "GetContextUser E ctx q w = Return (Inr user)"
    "GetCollectionById (hb_collections E) (app_Collections ctx) (rq_collectionId q) w = Inr c"
    "CanUploadToMe c (sau_Actor user) \<or> CanDownloadFromMe c (sau_Actor user)"
    "FindAllActiveVersionsFor (app_Storage ctx) (Collection_GetId c) w = Inr vs" "rs_data resp = VersionsData vs"
    by (auto simp: listingRoute_def response_defs CanListMyVersions_def
        elim!: bind_outcomeE split: sum.split_asm if_split_asm)
  then show "\<exists>user c vs. GetContextUser E ctx q w = Return (Inr user)
        \<and> GetCollectionById (hb_collections E) (app_Collections ctx) (rq_collectionId q) w = Inr c
        \<and> (CanUploadToMe c (sau_Actor user) \<or> CanDownloadFromMe c (sau_Actor user))
        \<and> rs_data resp = VersionsData vs \<and> mset vs = mset (versions_of (Collection_GetId c) (V w))"
    using assms(2) by (auto simp: lookups_ok_def FindAllActiveVersionsFor_def findAllActiveVersions_def)
qed

theorem reading_guarded_witness:
  "\<exists>resp. downloadRoute (toy_web toy_backups) mem_app one_chunk toy_bearer
       \<lparr>mem_versions = [toy_version ''a'' 1 5], mem_objects = [GetTargetPath (toy_version ''a'' 1 5) \<mapsto> ''hello'']\<rparr>
     = Some (Return resp) \<and> rs_code resp = 200 \<and> rs_stream resp = ''hello''"
proof -
  let ?w = "\<lparr>mem_versions = [toy_version ''a'' 1 5], mem_objects = [GetTargetPath (toy_version ''a'' 1 5) \<mapsto> ''hello'']\<rparr>"
  have v: "GetVersionByNum mem_service (Collection_GetId toy_backups) (rq_versionNum toy_bearer) ?w = Inr (toy_version ''a'' 1 5)"
    using latest_version [of mem_service mem_versions mem_objects ?w "toy_version ''a'' 1 5" "''iwa''"]
      mem_versions_ok mem_reads_answer
    by (simp add: versions_of_def Collection_GetId_def toy_bearer_def toy_request_def)
  have o: "ReadFile mem_service (GetTargetPath (toy_version ''a'' 1 5)) ?w = Inr ''hello''"
    by (simp add: ReadFile_def mem_bucket_def)
  obtain n st where "CopyStream (one_chunk ''hello'') io_buffer_len [] = Some ((n, None), st)"
    using delivered [OF one_chunk_delivers] by blast
  then obtain resp where d: "downloadRoute (toy_web toy_backups) mem_app one_chunk toy_bearer ?w = Some (Return resp)"
    "rs_code resp = 200"
    by (simp add: downloadRoute_def toy_context toy_found toy_allowed v o OKResponse_def)
  have laws: "versions_ok (st_repository (app_Storage mem_app)) mem_versions"
    "lookups_ok (st_repository (app_Storage mem_app)) mem_versions" "bucket_ok (st_storage (app_Storage mem_app)) mem_objects"
    using mem_versions_ok mem_lookups_ok mem_bucket_ok by simp_all
  have "\<exists>p. mem_objects ?w p = Some (rs_stream resp)"
    using reading_guarded [OF laws, of "toy_web toy_backups" one_chunk toy_bearer ?w resp] d one_chunk_delivers by blast
  then have "rs_stream resp = ''hello''" by (auto split: if_splits)
  with d show ?thesis by blast
qed

lemma collection_checks_observe: "snd (Validators_Validate (collection_validators H L svc c now) w) = w"
  by (simp only: collection_validators_def window_check.world_kept size_check.world_kept sum_check.world_kept) simp

text \<open>
  C25. The health endpoints. A collection is reported healthy (status 200) exactly when it exists,
  the given code matches its secret or it has none, its backup windows were kept, and the sizes
  of its versions and their sum are within its limits; asking changes nothing. The server is
  reported ready exactly when the code equals the configured key and all three checks pass, and
  with a wrong code nothing is touched. The liveness endpoint always answers 200.
\<close>

theorem health_endpoints:
  "(rs_code (fst (collectionHealthRoute E ctx now q w)) = 200 \<longleftrightarrow>
      (\<exists>c. GetCollectionById (hb_collections E) (app_Collections ctx) (rq_collectionId q) w = Inr c
        \<and> (c_SecretFromSecret c = ''''
           \<or> CompareFastCryptoHash (if query_or_empty q ''code'' = '''' then rq_Authorization q else query_or_empty q ''code'')
               (c_SecretFromSecret c))
        \<and> windows_kept (hb_collections E) (app_Storage ctx) c now w
        \<and> versions_within (hb_collections E) (app_Storage ctx) c w \<and> sum_within (hb_collections E) (app_Storage ctx) c w))
   \<and> snd (collectionHealthRoute E ctx now q w) = w
   \<and> (rs_code (fst (readyRoute ctx key nowNano nowUnix q w)) = 200 \<longleftrightarrow>
      (if rq_Authorization q = '''' then query_or_empty q ''code'' else rq_Authorization q) = app_HealthCheckKey ctx
      \<and> GetOverallStatus (fst (Validators_Validate
          (server_validators (app_Db ctx) key (app_Storage ctx) nowNano nowUnix (app_Config ctx)) w)))
   \<and> (rs_code (fst (readyRoute ctx key nowNano nowUnix q w)) = 403 \<longleftrightarrow>
      (if rq_Authorization q = '''' then query_or_empty q ''code'' else rq_Authorization q) \<noteq> app_HealthCheckKey ctx)
   \<and> (snd (readyRoute ctx key nowNano nowUnix q w) = w
      \<or> (if rq_Authorization q = '''' then query_or_empty q ''code'' else rq_Authorization q) = app_HealthCheckKey ctx)
   \<and> rs_code healthRoute = 200"
proof (intro conjI)
  show "rs_code (fst (collectionHealthRoute E ctx now q w)) = 200 \<longleftrightarrow>
      (\<exists>c. GetCollectionById (hb_collections E) (app_Collections ctx) (rq_collectionId q) w = Inr c
        \<and> (c_SecretFromSecret c = ''''
           \<or> CompareFastCryptoHash (if query_or_empty q ''code'' = '''' then rq_Authorization q else query_or_empty q ''code'')
               (c_SecretFromSecret c))
        \<and> windows_kept (hb_collections E) (app_Storage ctx) c now w
        \<and> versions_within (hb_collections E) (app_Storage ctx) c w \<and> sum_within (hb_collections E) (app_Storage ctx) c w)"
    by (auto simp: collectionHealthRoute_def response_defs IsHealthCheckSecretValid_def Let_def
        simp flip: collection_status [of "hb_health E"] split: sum.split prod.split)
  show "snd (collectionHealthRoute E ctx now q w) = w"
    by (simp add: collectionHealthRoute_def Let_def split_def collection_checks_observe split: sum.split)
  show "snd (readyRoute ctx key nowNano nowUnix q w) = w
      \<or> (if rq_Authorization q = '''' then query_or_empty q ''code'' else rq_Authorization q) = app_HealthCheckKey ctx"
    by (simp add: readyRoute_def Let_def)
  show "rs_code (fst (readyRoute ctx key nowNano nowUnix q w)) = 200 \<longleftrightarrow>
      (if rq_Authorization q = '''' then query_or_empty q ''code'' else rq_Authorization q) = app_HealthCheckKey ctx
      \<and> GetOverallStatus (fst (Validators_Validate
          (server_validators (app_Db ctx) key (app_Storage ctx) nowNano nowUnix (app_Config ctx)) w))"
    "rs_code (fst (readyRoute ctx key nowNano nowUnix q w)) = 403 \<longleftrightarrow>
      (if rq_Authorization q = '''' then query_or_empty q ''code'' else rq_Authorization q) \<noteq> app_HealthCheckKey ctx"
    by (auto simp: readyRoute_def response_defs Let_def split: prod.split)
qed (simp add: healthRoute_def OKResponse_def)

text \<open>
  C33. A refused row costs older backups. When the database refuses the row of an uploaded
  version, the request still succeeds with status 200 and the data of the version, although the
  version is not registered, and the versions that rotation had proposed are deleted all the
  same: the collection ends with fewer backups than before.
\<close>

theorem failed_registration_loses_backups:
  assumes "versions_ok (st_repository (app_Storage ctx)) V" and "app_frame ctx V Ob"
    and "deletes_succeed (st_repository (app_Storage ctx))"
    and "GetVersionsThatShouldBeDeletedIfThisVersionUploaded strategy version = Return (ds, frs')"
    and "CreateStandardMiddleWares (hb_collections E) (app_Storage ctx) ds c w = Inr mws"
    and "UploadFile (app_Storage ctx) es version mws w = Some (Return (n, None), w1)" and "\<not> up_cancelled env"
    and "sql_ver_create (st_repository (app_Storage ctx)) (version\<lparr>uv_Filesize := n\<rparr>) w1 = (Some err, w2)"
  shows "\<exists>v w'. uploadVersion E ctx env c version strategy es w = Some (Return (OKResponse (VersionData v)), w')
    \<and> uv_Id v = uv_Id version
    \<and> V w' = filter (\<lambda>x. uv_Id x \<noteq> uv_Id version \<and> uv_Id x \<notin> uv_Id ` set ds) (V w)"
proof -
  let ?u = "version\<lparr>uv_Filesize := n\<rparr>"
  have "V (registerUploaded (app_Storage ctx) ?u w1) = filter (\<lambda>x. uv_Id x \<noteq> uv_Id version) (V w)"
    using assms(8) Delete_rows [OF assms(1-3), of ?u w2] versions_okD(6) [OF assms(1,8)] UploadFile_rows [OF assms(2,6)]
    by (simp add: registerUploaded_def RegisterVersion_def ver_create_def)
  then have "V (snd (CleanUpOlderVersions (app_Storage ctx) ds (registerUploaded (app_Storage ctx) ?u w1)))
      = filter (\<lambda>x. uv_Id x \<noteq> uv_Id version \<and> uv_Id x \<notin> uv_Id ` set ds) (V w)"
    using CleanUp_rows [OF assms(1-3)] by simp
  with assms(4-7) show ?thesis by (simp add: uploadVersion_def OKResponse_def Let_def)
qed

text \<open>A database that refuses every new row.\<close>

definition full_app :: "(mem_store, unit) ApplicationContainer" where
  "full_app = mem_app\<lparr>app_Storage := mem_service\<lparr>st_repository :=
     mem_ver_sql\<lparr>sql_ver_create := (\<lambda>v w. (Some ''disk full'', w))\<rparr>\<rparr>\<rparr>"

lemma full_versions_ok: "versions_ok (st_repository (app_Storage full_app)) mem_versions"
  using mem_versions_ok by (simp add: versions_ok_def full_app_def)

lemma full_frame: "app_frame full_app mem_versions mem_objects"
  using mem_frame by (simp add: app_frame_def full_app_def Let_def)

lemma UploadFile_storage: "st_storage s = st_storage t \<Longrightarrow> UploadFile s = UploadFile t"
  by (simp add: UploadFile_def fun_eq_iff)

theorem failed_registration_loses_backups_witness:
  "\<exists>v w'. uploadVersion (toy_web (toy_collection 1 ''1K'' ''3K'' ''x'')) full_app toy_upload_env
       (toy_collection 1 ''1K'' ''3K'' ''x'') (toy_version ''n'' 2 0)
       (NewFifoRotationStrategy (toy_collection 1 ''1K'' ''3K'' ''x'') \<lparr>sl_elems = [toy_version ''a'' 1 5], sl_spare = []\<rparr>)
       toy_stream \<lparr>mem_versions = [toy_version ''a'' 1 5], mem_objects = Map.empty\<rparr>
     = Some (Return (OKResponse (VersionData v)), w') \<and> mem_versions w' = []"
proof -
  let ?c = "toy_collection 1 ''1K'' ''3K'' ''x''" and ?old = "toy_version ''a'' 1 5" and ?new = "toy_version ''n'' 2 0"
  let ?sl = "\<lparr>sl_elems = [?old], sl_spare = []\<rparr>" and ?w = "\<lparr>mem_versions = [?old], mem_objects = Map.empty\<rparr>"
  have del: "GetVersionsThatShouldBeDeletedIfThisVersionUploaded (NewFifoRotationStrategy ?c ?sl) ?new
      = Return ([?old], NewFifoRotationStrategy ?c ?sl)"
    by (simp add: GetVersionsThatShouldBeDeletedIfThisVersionUploaded_def NewFifoRotationStrategy_def reslice_def Let_def)
  have st: "st_storage (app_Storage full_app) = mem_bucket" by (simp add: full_app_def)
  have fit: "sizes_fit (hb_collections (toy_web ?c)) ?c 1000 3000"
    using toy_sizes_fit [of 1 "''x''"] by (simp add: sizes_fit_def toy_web_def)
  have all: "sql_ver_all (st_repository (app_Storage full_app)) (Collection_GetId ?c) ?w = Inr ?sl"
    by (simp add: full_app_def mem_ver_sql_def versions_of_def Collection_GetId_def)
  obtain m where lim: "CalculateMaximumAllowedUploadFilesize (hb_collections (toy_web ?c)) (app_Storage full_app) ?c [?old] ?w = Inr m"
    and m: "42 \<le> sint m" using upload_limit [OF fit _ refl _ all refl, of "[?old]"] by force
  then have mws: "CreateStandardMiddleWares (hb_collections (toy_web ?c)) (app_Storage full_app) [?old] ?c ?w
      = Inr [createRequestCancelledMiddleware, createQuotaMaxFileSizeMiddleware m, createNonEmptyMiddleware, createGPGStreamMiddleware]"
    by (simp add: CreateStandardMiddleWares_def)
  have up: "UploadFile (app_Storage full_app) toy_stream ?new [createRequestCancelledMiddleware,
      createQuotaMaxFileSizeMiddleware m, createNonEmptyMiddleware, createGPGStreamMiddleware] ?w
    = Some (Return (42, None), ?w\<lparr>mem_objects := (mem_objects ?w)(GetTargetPath ?new \<mapsto> gpg_header @ gpg_footer)\<rparr>)"
    using toy_upload [OF m, of ?new ?w] UploadFile_storage [of "app_Storage full_app" mem_service] st by simp
  have dels: "deletes_succeed (st_repository (app_Storage full_app))"
    using mem_deletes by (simp add: deletes_succeed_def full_app_def)
  show ?thesis
    using failed_registration_loses_backups [OF full_versions_ok full_frame dels del mws up, of toy_upload_env "''disk full''"]
    by (simp add: full_app_def toy_upload_env_def) blast
qed

end
