(* ===== verification/Backup_Queue.thy ===== *)
theory Backup_Queue
  imports Upload_Correctness
begin

text \<open>
  A collection is a bounded queue of backups. The abstract collection is the list of the stored
  contents, oldest first; an accepted upload appends its body and drops the oldest contents
  beyond the limit. The function \<open>backups\<close> reads this list off the table of versions and the
  object storage, and every history of upload requests is simulated by pushes: one push for each
  request that is answered with success, nothing for the others.
\<close>

section \<open>Sorting by version numbers\<close>

lemma sort_key_unique:
  assumes "mset xs = mset ys" "distinct (map k ys)"
  shows "sort_key k xs = sort_key k ys"
proof (rule map_sorted_distinct_set_unique [where f = k])
  have d: "distinct (map k xs)" using assms by (metis mset_eq_imp_distinct_iff mset_map)
  have s: "distinct (map k (sort_key k zs)) = distinct (map k zs)" for zs
    by (metis mset_eq_imp_distinct_iff mset_map mset_sort)
  show "distinct (map k (sort_key k xs))" "distinct (map k (sort_key k ys))" using d assms(2) s by simp_all
  show "set (sort_key k xs) = set (sort_key k ys)" using mset_eq_setD [OF assms(1)] by simp
  then show "inj_on k (set (sort_key k xs) \<union> set (sort_key k ys))"
    using assms(2) by (simp add: distinct_map)
qed simp_all

lemma sort_key_snoc_max:
  fixes k :: "'a \<Rightarrow> 'b :: linorder"
  assumes "\<And>x. x \<in> set xs \<Longrightarrow> k x < k y" "distinct (map k xs)"
  shows "sort_key k (xs @ [y]) = sort_key k xs @ [y]"
proof -
  have "distinct (map k (xs @ [y]))" using assms by force
  then have "sort_key k (xs @ [y]) = sort_key k (sort_key k xs @ [y])" by (intro sort_key_unique [symmetric]) simp_all
  also have "\<dots> = sort_key k xs @ [y]"
    using assms(1) by (intro sort_key_id_if_sorted) (simp add: sorted_append less_imp_le)
  finally show ?thesis .
qed

lemma filter_not_taken:
  "distinct (map g zs) \<Longrightarrow> filter (\<lambda>x. g x \<notin> g ` set (take m zs)) zs = drop m zs"
proof (induction zs arbitrary: m)
  case (Cons z zs)
  show ?case
  proof (cases m)
    case (Suc j)
    have "filter (\<lambda>x. g x \<notin> g ` set (take (Suc j) (z # zs))) zs = filter (\<lambda>x. g x \<notin> g ` set (take j zs)) zs"
      using Cons.prems by (intro filter_cong) (auto, metis imageI)
    with Cons Suc show ?thesis by simp
  qed simp
qed simp

section \<open>The abstract collection\<close>

definition queue_push :: "nat \<Rightarrow> 'a \<Rightarrow> 'a list \<Rightarrow> 'a list" where
  "queue_push n d q = drop (length q + 1 - n) (q @ [d])"

lemma queue_push_alt: "1 \<le> n \<Longrightarrow> queue_push n d q = drop (length q + 1 - n) q @ [d]"
  by (simp add: queue_push_def)

definition backups ::
    "('w \<Rightarrow> UploadedVersion list) \<Rightarrow> ('w \<Rightarrow> (string \<rightharpoonup> bytes)) \<Rightarrow> Collection \<Rightarrow> 'w \<Rightarrow> bytes option list" where
  "backups V Ob c w =
     map (\<lambda>v. Ob w (GetTargetPath v)) (sort_key version_key (versions_of (Collection_GetId c) (V w)))"

text \<open>The versions have different numbers, and the file names that the template gives to these.\<close>

definition well_named :: "Collection \<Rightarrow> UploadedVersion list \<Rightarrow> bool" where
  "well_named c vs \<longleftrightarrow> distinct (map version_key vs)
     \<and> (\<forall>v \<in> set vs. uv_Filename v = GenerateNextVersionFilename c (uv_VersionNumber v))"

lemma well_named_filter: "well_named c vs \<Longrightarrow> well_named c (filter P vs)"
  by (simp add: well_named_def distinct_map_filter)

lemma well_named_snoc:
  "well_named c vs \<Longrightarrow> uv_Filename v = GenerateNextVersionFilename c (uv_VersionNumber v) \<Longrightarrow>
   (\<And>u. u \<in> set vs \<Longrightarrow> version_key u < version_key v) \<Longrightarrow> well_named c (vs @ [v])"
  by (force simp: well_named_def)

lemma well_named_paths:
  assumes "well_named c (versions_of cid vs)" "strContains (cs_FilenameTemplate (c_Spec c)) ''${version}''"
    and u: "u \<in> set (versions_of cid vs)" and v: "v \<in> set (versions_of cid vs)" and eq: "GetTargetPath u = GetTargetPath v"
  shows "u = v"
proof -
  have "uv_CollectionId u = uv_CollectionId v" using u v by (simp add: versions_of_def)
  then have "uv_Filename u = uv_Filename v" using eq by (simp add: GetTargetPath_inj)
  then have "uv_VersionNumber u = uv_VersionNumber v"
    using assms(1) u v GenerateNextVersionFilename_inj [OF assms(2), of "uv_VersionNumber u" "uv_VersionNumber v"]
    by (auto simp: well_named_def)
  with assms(1) u v show ?thesis by (simp add: well_named_def distinct_map inj_on_def)
qed

text \<open>Collections whose names have no slash keep their objects in different directories.\<close>

lemma path_directory:
  "CHR ''/'' \<notin> set (uv_CollectionId u) \<Longrightarrow> takeWhile (\<lambda>x. x \<noteq> CHR ''/'') (GetTargetPath u) = uv_CollectionId u"
  unfolding GetTargetPath_def by (subst takeWhile_append2) auto

lemma other_directory:
  assumes "CHR ''/'' \<notin> set (uv_CollectionId u)" "CHR ''/'' \<notin> set (uv_CollectionId v)"
    and "uv_CollectionId u \<noteq> uv_CollectionId v"
  shows "GetTargetPath u \<noteq> GetTargetPath v"
  using path_directory [OF assms(1)] path_directory [OF assms(2)] assms(3) by metis

text \<open>The bytes of a stream up to its end.\<close>

fun body_of :: "read_event list \<Rightarrow> bytes" where
  "body_of [] = []"
| "body_of (e # es) = ev_data e @ (if ev_status e = ReadOk then body_of es else [])"

lemma body_of_split:
  "\<forall>x \<in> set pre. ev_status x = ReadOk \<Longrightarrow> ev_status e = ReadEOF \<Longrightarrow>
   body_of (pre @ e # post) = concat (map ev_data (pre @ [e]))"
  by (induction pre) auto

lemma CopyStream_body: "CopyStream es bufferLen mws = Some ((n, None), t) \<Longrightarrow> cp_written t = body_of es"
  by (drule CopyStream_content) (metis body_of_split)

section \<open>One request\<close>

text \<open>
  Database and storage work: a row with an unused id is stored, deleting a row succeeds, closing a
  writer commits what was written.
\<close>

definition reliable ::
    "('w, 'd) ApplicationContainer \<Rightarrow> ('w \<Rightarrow> UploadedVersion list) \<Rightarrow> ('w \<Rightarrow> (string \<rightharpoonup> bytes)) \<Rightarrow> bool" where
  "reliable ctx V Ob \<longleftrightarrow> deletes_succeed (st_repository (app_Storage ctx))
     \<and> (\<forall>v w. uv_Id v \<notin> uv_Id ` set (V w) \<longrightarrow> fst (sql_ver_create (st_repository (app_Storage ctx)) v w) = None)
     \<and> (\<forall>p d w. Ob (bk_CloseWriter (st_storage (app_Storage ctx)) p d w) = (Ob w)(p \<mapsto> d))"

text \<open>
  A request is orderly for the collection \<open>c\<close>: its new id is unused, the numbers stay within the Go
  \<open>int\<close>, and the collection that it names has a positive limit, a name without a slash, and is \<open>c\<close>
  itself when it has the name of \<open>c\<close>.
\<close>

definition orderly ::
    "http_lib \<Rightarrow> ('w, 'd) ApplicationContainer \<Rightarrow> ('w \<Rightarrow> UploadedVersion list) \<Rightarrow> Collection \<Rightarrow> upload_env \<Rightarrow> request \<Rightarrow> 'w \<Rightarrow> bool" where
  "orderly E ctx V c env q w \<longleftrightarrow> up_newId env \<notin> uv_Id ` set (V w) \<and> length (V w) < 2 ^ 63
     \<and> highest (versions_of (Collection_GetId c) (V w)) < 2 ^ 63 - 1
     \<and> (case GetCollectionById (hb_collections E) (app_Collections ctx) (rq_collectionId q) w of
          Inl _ \<Rightarrow> True
        | Inr c' \<Rightarrow> (Collection_GetId c' = Collection_GetId c \<longrightarrow> c' = c)
            \<and> 1 \<le> sint (cs_MaxBackupsCount (c_Spec c')) \<and> CHR ''/'' \<notin> set (Collection_GetId c'))"

definition answered_ok :: "http_response list outcome \<Rightarrow> bool" where
  "answered_ok r \<longleftrightarrow> (case r of Panic _ \<Rightarrow> False | Return rs \<Rightarrow> \<exists>x \<in> set rs. rs_code x = 200)"

text \<open>What a request adds to the abstract collection: its body, if it is for \<open>c\<close> and is answered with success.\<close>

definition accepted ::
    "http_lib \<Rightarrow> ('w, 'd) ApplicationContainer \<Rightarrow> Collection \<Rightarrow> upload_env \<Rightarrow> request \<Rightarrow> http_response list outcome \<Rightarrow> 'w \<Rightarrow> bytes list" where
  "accepted E ctx c env q r w =
     (case (GetCollectionById (hb_collections E) (app_Collections ctx) (rq_collectionId q) w, uploadStream env q) of
        (Inr c', Return (Inr (_, es))) \<Rightarrow>
          if answered_ok r \<and> Collection_GetId c' = Collection_GetId c then [body_of es] else []
      | _ \<Rightarrow> [])"

lemma accepted_refused: "\<not> answered_ok r \<Longrightarrow> accepted E ctx c env q r w = []"
  by (simp add: accepted_def split: sum.split outcome.split)

lemma not_answered: "(\<And>rs. r = Return rs \<Longrightarrow> \<forall>x \<in> set rs. rs_code x \<noteq> 200) \<Longrightarrow> \<not> answered_ok r"
  by (auto simp: answered_ok_def split: outcome.split)

lemma UploadFile_committed:
  assumes bucket: "bucket_ok (st_storage (app_Storage ctx)) Ob" and rel: "reliable ctx V Ob"
    and up: "UploadFile (app_Storage ctx) es v mws w = Some (Return (n, None), w')"
  shows "Ob w' = (Ob w)(GetTargetPath v \<mapsto> body_of es)"
proof -
  let ?B = "st_storage (app_Storage ctx)" and ?p = "GetTargetPath v"
  obtain w1 where w1: "bk_NewWriter ?B ?p w = (None, w1)"
    using up by (auto simp: UploadFile_def Let_def bind_outcome_Return split: prod.split_asm option.split_asm)
  then have "Ob w1 = Ob w" using bucket_okD(1) [OF bucket, of ?p w] by simp
  moreover obtain st where "CopyStream es io_buffer_len mws = Some ((n, None), st)"
    "w' = bk_CloseWriter ?B ?p (cp_written st) w1"
    using up w1 by (auto simp: UploadFile_def Let_def split: prod.split_asm option.split_asm if_split_asm)
  ultimately show ?thesis using rel CopyStream_body by (simp add: reliable_def)
qed

lemma registered:
  assumes laws: "versions_ok (st_repository (app_Storage ctx)) V" "app_frame ctx V Ob" and rel: "reliable ctx V Ob"
    and new: "uv_Id v \<notin> uv_Id ` set (V w)" and ds: "set ds \<subseteq> set (V w)"
  shows "uv_Id v \<in> uv_Id ` set (V (snd (CleanUpOlderVersions (app_Storage ctx) ds (registerUploaded (app_Storage ctx) v w))))"
proof -
  have del: "deletes_succeed (st_repository (app_Storage ctx))" using rel by (simp add: reliable_def)
  have "fst (sql_ver_create (st_repository (app_Storage ctx)) v w) = None" using rel new by (simp add: reliable_def)
  then show ?thesis
    by (cases rule: registerUploaded_rows [OF laws del, of v w]) (use new ds in \<open>auto simp: CleanUp_rows [OF laws del]\<close>)
qed

text \<open>The objects of the versions of \<open>c\<close> stay when a version of any collection is written or older ones are deleted.\<close>

lemma new_path:
  assumes laws: "versions_ok (st_repository s) V"
    and ver: "CreateNewVersionFromCollection s newId c' uploader sid 0 w = Inr version"
    and names: "well_named c (versions_of (Collection_GetId c) (V w))" "strContains (cs_FilenameTemplate (c_Spec c)) ''${version}''"
    and slash: "CHR ''/'' \<notin> set (Collection_GetId c)" "CHR ''/'' \<notin> set (Collection_GetId c')"
    and same: "Collection_GetId c' = Collection_GetId c \<Longrightarrow> c' = c"
    and num: "highest (versions_of (Collection_GetId c) (V w)) < 2 ^ 63 - 1"
    and old: "old \<in> set (versions_of (Collection_GetId c) (V w))"
  shows "GetTargetPath old \<noteq> GetTargetPath version"
proof (cases "Collection_GetId c' = Collection_GetId c")
  case True
  then have "c' = c" by (rule same)
  moreover have "uv_Filename old = GenerateNextVersionFilename c (uv_VersionNumber old)"
    using names(1) old by (simp add: well_named_def)
  ultimately show ?thesis using older_paths(2) [OF laws ver [unfolded \<open>c' = c\<close>] names(2) num old] by simp
next
  case False
  have "uv_CollectionId old = Collection_GetId c" using old by (simp add: versions_of_def)
  with False slash new_version_fields(2) [OF ver] show ?thesis by (intro other_directory) auto
qed

lemma kept_path:
  assumes names: "well_named c (versions_of (Collection_GetId c) vs)" "strContains (cs_FilenameTemplate (c_Spec c)) ''${version}''"
    and slash: "CHR ''/'' \<notin> set (Collection_GetId c)" "CHR ''/'' \<notin> set cid'"
    and ds: "set ds \<subseteq> set (versions_of cid' vs)"
    and old: "old \<in> set (versions_of (Collection_GetId c) vs)" "uv_Id old \<notin> uv_Id ` set ds"
  shows "GetTargetPath old \<notin> GetTargetPath ` set ds"
proof
  assume "GetTargetPath old \<in> GetTargetPath ` set ds"
  then obtain d where d: "d \<in> set ds" "GetTargetPath old = GetTargetPath d" by blast
  have ids: "uv_CollectionId old = Collection_GetId c" "uv_CollectionId d = cid'"
    using old(1) ds d(1) by (auto simp: versions_of_def)
  have "cid' = Collection_GetId c" using other_directory [of old d] d(2) ids slash by metis
  then have "old = d" using well_named_paths [OF names old(1) _ d(2)] ds d(1) by auto
  with old(2) d(1) show False by blast
qed

lemma proposed_take:
  assumes laws: "versions_ok (st_repository s) V" and strat: "CreateRotationStrategyCase s c w = Inr strategy"
    and del: "GetVersionsThatShouldBeDeletedIfThisVersionUploaded strategy version = Return (ds, frs')"
    and pos: "1 \<le> sint (cs_MaxBackupsCount (c_Spec c))" and len: "length (V w) < 2 ^ 63"
  obtains vs where "mset vs = mset (versions_of (Collection_GetId c) (V w))"
    "ds = take (length (versions_of (Collection_GetId c) (V w)) + 1 - nat (sint (cs_MaxBackupsCount (c_Spec c)))) (sort_key version_key vs)"
proof -
  obtain sl where sl: "sql_ver_all (st_repository s) (Collection_GetId c) w = Inr sl"
    "strategy = NewFifoRotationStrategy c sl" using selected_versions [OF strat] .
  have ms: "mset (sl_elems sl) = mset (versions_of (Collection_GetId c) (V w))"
    by (rule versions_okD(1) [OF laws sl(1)])
  have ln: "length (sl_elems sl) = length (versions_of (Collection_GetId c) (V w))" by (rule mset_eq_length [OF ms])
  also have "\<dots> \<le> length (V w)" by (simp add: versions_of_def)
  finally have ok: "fifo_ok strategy" using sl(2) pos len by (simp add: fifo_ok_def NewFifoRotationStrategy_def)
  have "ds = take (length (sl_elems sl) + 1 - nat (sint (cs_MaxBackupsCount (c_Spec c)))) (sort_key version_key (sl_elems sl))"
    using fifo_deletes [OF ok, of version] del sl(2) by (auto simp: NewFifoRotationStrategy_def fifo_limit_def)
  then show thesis using that [OF ms] ln by simp
qed

lemma proposed_prefix:
  assumes "versions_ok (st_repository s) V" "CreateRotationStrategyCase s c w = Inr strategy"
    and "GetVersionsThatShouldBeDeletedIfThisVersionUploaded strategy version = Return (ds, frs')"
    and "1 \<le> sint (cs_MaxBackupsCount (c_Spec c))" "length (V w) < 2 ^ 63"
    and dist: "distinct (map version_key (versions_of (Collection_GetId c) (V w)))"
  shows "ds = take (length (versions_of (Collection_GetId c) (V w)) + 1 - nat (sint (cs_MaxBackupsCount (c_Spec c))))
    (sort_key version_key (versions_of (Collection_GetId c) (V w)))"
  using proposed_take [OF assms(1-5)] sort_key_unique [OF _ dist] by metis

text \<open>The state of the collection that the simulation maintains.\<close>

definition in_order :: "('w \<Rightarrow> UploadedVersion list) \<Rightarrow> Collection \<Rightarrow> 'w \<Rightarrow> bool" where
  "in_order V c w \<longleftrightarrow> distinct (map uv_Id (V w)) \<and> well_named c (versions_of (Collection_GetId c) (V w))"

lemma backups_cong:
  assumes "versions_of (Collection_GetId c) (V w') = versions_of (Collection_GetId c) (V w)"
    and "\<And>v. v \<in> set (versions_of (Collection_GetId c) (V w)) \<Longrightarrow> Ob w' (GetTargetPath v) = Ob w (GetTargetPath v)"
  shows "backups V Ob c w' = backups V Ob c w"
  using assms by (simp add: backups_def)

text \<open>A stored version of \<open>c\<close> is one push.\<close>

lemma stored_push:
  assumes laws: "versions_ok (st_repository s) V" and order: "in_order V c w"
    and conf: "1 \<le> sint (cs_MaxBackupsCount (c_Spec c))" "strContains (cs_FilenameTemplate (c_Spec c)) ''${version}''"
      "CHR ''/'' \<notin> set (Collection_GetId c)"
    and bounds: "length (V w) < 2 ^ 63"
    and strat: "CreateRotationStrategyCase s c w = Inr strategy"
    and del: "GetVersionsThatShouldBeDeletedIfThisVersionUploaded strategy version = Return (ds, frs')"
    and rows: "V w3 = filter (\<lambda>x. uv_Id x \<notin> uv_Id ` set ds) (V w) @ [row]"
      "uv_CollectionId row = Collection_GetId c" "uv_Filename row = GenerateNextVersionFilename c (uv_VersionNumber row)"
      "uv_Id row \<notin> uv_Id ` set (V w)"
    and newest: "\<And>old. old \<in> set (versions_of (Collection_GetId c) (V w)) \<Longrightarrow>
      version_key old < version_key row \<and> GetTargetPath old \<noteq> GetTargetPath row"
    and content: "Ob w3 (GetTargetPath row) = Some d"
    and others: "\<And>p. p \<noteq> GetTargetPath row \<Longrightarrow> p \<notin> GetTargetPath ` set ds \<Longrightarrow> Ob w3 p = Ob w p"
  shows "in_order V c w3"
    and "backups V Ob c w3 = queue_push (nat (sint (cs_MaxBackupsCount (c_Spec c)))) (Some d) (backups V Ob c w)"
proof -
  let ?vs = "versions_of (Collection_GetId c) (V w)" and ?kept = "\<lambda>x. uv_Id x \<notin> uv_Id ` set ds"
  let ?n = "nat (sint (cs_MaxBackupsCount (c_Spec c)))" and ?S = "sort_key version_key"
  have names: "well_named c ?vs" and ids: "distinct (map uv_Id (V w))" using order by (simp_all add: in_order_def)
  then have keys: "distinct (map version_key ?vs)" by (simp add: well_named_def)
  have vs: "versions_of (Collection_GetId c) (V w3) = filter ?kept ?vs @ [row]"
    using rows by (simp add: versions_of_snoc versions_of_filter)
  have "well_named c (filter ?kept ?vs @ [row])"
    using rows(3) newest by (intro well_named_snoc well_named_filter names) auto
  then show "in_order V c w3" unfolding in_order_def vs using ids rows(1,4) by (auto simp: distinct_map_filter)
  have ds: "ds = take (length ?vs + 1 - ?n) (?S ?vs)" by (rule proposed_prefix [OF laws strat del conf(1) bounds keys])
  have "distinct (map uv_Id (?S ?vs))"
    using distinct_map_filter_mset [of "?S ?vs" _ "V w" uv_Id] ids by (simp add: versions_of_def)
  then have drop: "filter ?kept (?S ?vs) = drop (length ?vs + 1 - ?n) (?S ?vs)"
    unfolding ds by (rule filter_not_taken)
  have "?S (filter ?kept ?vs @ [row]) = ?S (filter ?kept ?vs) @ [row]"
    using newest keys by (intro sort_key_snoc_max) (auto simp: distinct_map_filter)
  then have sorted: "?S (versions_of (Collection_GetId c) (V w3)) = drop (length ?vs + 1 - ?n) (?S ?vs) @ [row]"
    unfolding vs by (simp add: drop flip: filter_sort)
  have sub: "set ds \<subseteq> set ?vs" unfolding ds using set_take_subset [of _ "?S ?vs"] by simp
  have "Ob w3 (GetTargetPath v) = Ob w (GetTargetPath v)" if "v \<in> set (filter ?kept (?S ?vs))" for v
    using that newest others kept_path [OF names conf(2,3,3) sub, of v] by simp
  then have "map (\<lambda>v. Ob w3 (GetTargetPath v)) (filter ?kept (?S ?vs)) = map (\<lambda>v. Ob w (GetTargetPath v)) (filter ?kept (?S ?vs))"
    by simp
  then have "map (\<lambda>v. Ob w3 (GetTargetPath v)) (drop (length ?vs + 1 - ?n) (?S ?vs))
      = drop (length ?vs + 1 - ?n) (backups V Ob c w)" unfolding drop by (simp add: backups_def drop_map)
  moreover have "1 \<le> ?n" using conf(1) by linarith
  ultimately show "backups V Ob c w3 = queue_push ?n (Some d) (backups V Ob c w)"
    using content sorted by (simp add: queue_push_alt) (simp add: backups_def)
qed

text \<open>A version of another collection and a failed upload leave \<open>c\<close> as it is.\<close>

lemma elsewhere:
  assumes order: "in_order V c w" and conf: "strContains (cs_FilenameTemplate (c_Spec c)) ''${version}''"
      "CHR ''/'' \<notin> set (Collection_GetId c)" "CHR ''/'' \<notin> set cid'" "cid' \<noteq> Collection_GetId c"
    and ds: "set ds \<subseteq> set (versions_of cid' (V w))"
    and rows: "V w3 = filter (\<lambda>x. uv_Id x \<notin> uv_Id ` set ds) (V w) @ [row]" "uv_CollectionId row = cid'"
      "uv_Id row \<notin> uv_Id ` set (V w)"
    and others: "\<And>p. p \<noteq> GetTargetPath row \<Longrightarrow> p \<notin> GetTargetPath ` set ds \<Longrightarrow> Ob w3 p = Ob w p"
  shows "in_order V c w3" "backups V Ob c w3 = backups V Ob c w"
proof -
  let ?vs = "versions_of (Collection_GetId c) (V w)"
  have names: "well_named c ?vs" and ids: "distinct (map uv_Id (V w))" using order by (simp_all add: in_order_def)
  have kept: "uv_Id v \<notin> uv_Id ` set ds" if "v \<in> set ?vs" for v
  proof
    assume "uv_Id v \<in> uv_Id ` set ds"
    then obtain d where d: "d \<in> set ds" "uv_Id v = uv_Id d" by blast
    then have "d = v" using ds that ids by (auto simp: versions_of_def distinct_map dest: inj_onD)
    with ds d(1) that conf(4) show False by (auto simp: versions_of_def)
  qed
  then have vs: "versions_of (Collection_GetId c) (V w3) = ?vs"
    using rows conf(4) by (simp add: versions_of_snoc versions_of_filter)
  show "in_order V c w3" using names ids rows vs by (auto simp: in_order_def distinct_map_filter)
  show "backups V Ob c w3 = backups V Ob c w"
  proof (rule backups_cong [where V = V, OF vs])
    fix v assume v: "v \<in> set ?vs"
    then have "GetTargetPath v \<noteq> GetTargetPath row"
      using rows(2) conf(2-4) by (intro other_directory) (auto simp: versions_of_def)
    then show "Ob w3 (GetTargetPath v) = Ob w (GetTargetPath v)"
      using others kept_path [OF names conf(1,2,3) ds v kept [OF v]] by blast
  qed
qed

lemma orderlyD:
  assumes "orderly E ctx V c env q w"
  shows "up_newId env \<notin> uv_Id ` set (V w)" "length (V w) < 2 ^ 63" "highest (versions_of (Collection_GetId c) (V w)) < 2 ^ 63 - 1"
    and "GetCollectionById (hb_collections E) (app_Collections ctx) (rq_collectionId q) w = Inr c' \<Longrightarrow>
      (Collection_GetId c' = Collection_GetId c \<longrightarrow> c' = c) \<and> 1 \<le> sint (cs_MaxBackupsCount (c_Spec c'))
      \<and> CHR ''/'' \<notin> set (Collection_GetId c')"
  using assms by (auto simp: orderly_def)

lemma failed_keeps:
  assumes laws: "versions_ok (st_repository (app_Storage ctx)) V" "app_frame ctx V Ob"
      "deletes_succeed (st_repository (app_Storage ctx))" and bucket: "bucket_ok (st_storage (app_Storage ctx)) Ob"
    and order: "in_order V c w1" and new: "uv_Id v \<notin> uv_Id ` set (V w1)"
    and path: "\<And>old. old \<in> set (versions_of (Collection_GetId c) (V w1)) \<Longrightarrow> GetTargetPath old \<noteq> GetTargetPath version"
    and up: "UploadFile (app_Storage ctx) es version mws w1 = Some (r1, w2)" and v: "GetTargetPath v = GetTargetPath version"
    and w': "V w' = V w2 \<and> Ob w' = Ob w2
      \<or> V w' = V (snd (Delete (app_Storage ctx) v w2)) \<and> Ob w' = Ob (snd (Delete (app_Storage ctx) v w2))"
  shows "in_order V c w'" "backups V Ob c w' = backups V Ob c w1"
proof -
  have w2: "V w2 = V w1" by (rule UploadFile_rows [OF laws(2) up])
  have "filter (\<lambda>x. uv_Id x \<noteq> uv_Id v) (V w1) = V w1" using new by (intro filter_True ballI) (metis imageI)
  then have rows: "V w' = V w1" using w' w2 Delete_rows [OF laws, of v w2] by auto
  show "in_order V c w'" using order rows by (simp add: in_order_def)
  have "Ob w' p = Ob w1 p" if "p \<noteq> GetTargetPath version" for p
    using w' UploadFile_frame [OF bucket up that] Delete_objects [OF bucket laws(2), of p v w2] that v by auto
  then show "backups V Ob c w' = backups V Ob c w1" by (intro backups_cong) (simp_all add: rows path)
qed

text \<open>The rows and objects after a stored upload, when database and storage work.\<close>

lemma stored_new_row:
  assumes laws: "versions_ok (st_repository (app_Storage ctx)) V" "app_frame ctx V Ob" and rel: "reliable ctx V Ob"
    and bucket: "bucket_ok (st_storage (app_Storage ctx)) Ob" and new: "uv_Id version \<notin> uv_Id ` set (V w1)"
    and ver: "CreateNewVersionFromCollection (app_Storage ctx) newId c uploader sid 0 w1 = Inr version"
    and sub: "set ds \<subseteq> set (versions_of (Collection_GetId c) (V w1))"
    and up: "UploadFile (app_Storage ctx) es version mws w1 = Some (Return (n, None), w2)"
    and w3: "w3 = snd (CleanUpOlderVersions (app_Storage ctx) ds
        (registerUploaded (app_Storage ctx) (version\<lparr>uv_Filesize := n\<rparr>) w2))"
  obtains row where "V w3 = filter (\<lambda>x. uv_Id x \<notin> uv_Id ` set ds) (V w1) @ [row]"
    "uv_CollectionId row = Collection_GetId c" "uv_VersionNumber row = uv_VersionNumber version"
    "uv_Filename row = uv_Filename version" "uv_Id row = uv_Id version" "uv_Id row \<notin> uv_Id ` set (V w1)"
    "GetTargetPath row = GetTargetPath version"
    "\<forall>p. p \<notin> GetTargetPath ` set ds \<longrightarrow> Ob w3 p = (if p = GetTargetPath version then Some (body_of es) else Ob w1 p)"
proof -
  have dels: "deletes_succeed (st_repository (app_Storage ctx))" using rel by (simp add: reliable_def)
  note w2 = UploadFile_rows [OF laws(2) up] UploadFile_committed [OF bucket rel up]
  have reg: "uv_Id version \<in> uv_Id ` set (V w3)"
    unfolding w3 using registered [OF laws rel, of "version\<lparr>uv_Filesize := n\<rparr>" w2 ds] new sub w2(1)
    by (auto simp: versions_of_def)
  show thesis using stored_backup [OF laws dels bucket ver sub w2 w3 reg] that .
qed

lemma stored_simulated:
  assumes laws: "versions_ok (st_repository (app_Storage ctx)) V" "app_frame ctx V Ob" and rel: "reliable ctx V Ob"
    and bucket: "bucket_ok (st_storage (app_Storage ctx)) Ob"
    and conf: "1 \<le> sint (cs_MaxBackupsCount (c_Spec c))" "strContains (cs_FilenameTemplate (c_Spec c)) ''${version}''"
      "CHR ''/'' \<notin> set (Collection_GetId c)"
    and order: "in_order V c w1" and new: "uv_Id version \<notin> uv_Id ` set (V w1)" and len: "length (V w1) < 2 ^ 63"
    and high: "highest (versions_of (Collection_GetId c) (V w1)) < 2 ^ 63 - 1"
    and c': "(Collection_GetId c' = Collection_GetId c \<longrightarrow> c' = c) \<and> 1 \<le> sint (cs_MaxBackupsCount (c_Spec c'))
      \<and> CHR ''/'' \<notin> set (Collection_GetId c')"
    and ver: "CreateNewVersionFromCollection (app_Storage ctx) newId c' uploader sid 0 w1 = Inr version"
    and strat: "CreateRotationStrategyCase (app_Storage ctx) c' w1 = Inr strategy"
    and del: "GetVersionsThatShouldBeDeletedIfThisVersionUploaded strategy version = Return (ds, frs')"
    and up: "UploadFile (app_Storage ctx) es version mws w1 = Some (Return (n, None), w2)"
    and w3: "w3 = snd (CleanUpOlderVersions (app_Storage ctx) ds
        (registerUploaded (app_Storage ctx) (version\<lparr>uv_Filesize := n\<rparr>) w2))"
  shows "in_order V c w3 \<and> backups V Ob c w3 = (if Collection_GetId c' = Collection_GetId c
    then queue_push (nat (sint (cs_MaxBackupsCount (c_Spec c)))) (Some (body_of es)) (backups V Ob c w1) else backups V Ob c w1)"
proof -
  have names: "well_named c (versions_of (Collection_GetId c) (V w1))" using order by (simp add: in_order_def)
  have sub: "set ds \<subseteq> set (versions_of (Collection_GetId c') (V w1))"
    using proposed_of_collection [OF laws(1) strat del _ len] c' by simp
  obtain row where rows: "V w3 = filter (\<lambda>x. uv_Id x \<notin> uv_Id ` set ds) (V w1) @ [row]"
      "uv_CollectionId row = Collection_GetId c'" "uv_VersionNumber row = uv_VersionNumber version"
      "uv_Filename row = uv_Filename version" "uv_Id row = uv_Id version"
    and fresh: "uv_Id row \<notin> uv_Id ` set (V w1)" and path: "GetTargetPath row = GetTargetPath version"
    and ob: "\<forall>p. p \<notin> GetTargetPath ` set ds \<longrightarrow>
      Ob w3 p = (if p = GetTargetPath version then Some (body_of es) else Ob w1 p)"
    using stored_new_row [OF laws rel bucket new ver sub up w3] .
  show ?thesis
  proof (cases "Collection_GetId c' = Collection_GetId c")
    case True
    then have eq: "c' = c" using c' by blast
    have newest: "version_key old < version_key row \<and> GetTargetPath old \<noteq> GetTargetPath row"
      if "old \<in> set (versions_of (Collection_GetId c) (V w1))" for old
      using older_paths [OF laws(1) ver [unfolded eq] conf(2) high that] names that rows(3) path by (auto simp: well_named_def)
    have "GetTargetPath row \<notin> GetTargetPath ` set ds" using newest sub eq by force
    then have "Ob w3 (GetTargetPath row) = Some (body_of es)" using ob path by simp
    from stored_push [where Ob = Ob, OF laws(1) order conf len strat [unfolded eq] del rows(1) rows(2) [unfolded eq] _ fresh newest this]
      True show ?thesis using ob rows path new_version_fields(4) [OF ver] eq by simp
  next
    case False
    from elsewhere [where Ob = Ob, OF order conf(2,3) _ False sub rows(1,2) fresh] c' False show ?thesis using ob path by simp
  qed
qed

lemma request_simulated:
  assumes laws: "versions_ok (st_repository (app_Storage ctx)) V" "app_frame ctx V Ob" and rel: "reliable ctx V Ob"
    and bucket: "bucket_ok (st_storage (app_Storage ctx)) Ob"
    and conf: "1 \<le> sint (cs_MaxBackupsCount (c_Spec c))" "strContains (cs_FilenameTemplate (c_Spec c)) ''${version}''"
      "CHR ''/'' \<notin> set (Collection_GetId c)"
    and order: "in_order V c w" and req: "orderly E ctx V c env q w" and run: "uploadRoute E ctx env q w = Some (r, w')"
  shows "in_order V c w' \<and> backups V Ob c w' =
    fold (\<lambda>d. queue_push (nat (sint (cs_MaxBackupsCount (c_Spec c)))) (Some d)) (accepted E ctx c env q r w) (backups V Ob c w)"
proof -
  have del: "deletes_succeed (st_repository (app_Storage ctx))" using rel by (simp add: reliable_def)
  note bounds = orderlyD(1-3) [OF req]
  from laws del run show ?thesis
  proof (cases rule: upload_effect)
    case quiet
    have "accepted E ctx c env q r w = []" using quiet(3) by (intro accepted_refused not_answered)
    with quiet(1,2) order show ?thesis by (simp add: in_order_def backups_def)
  next
    case (failed c' w1 uploader sid version es mws r1 w2 v)
    have same: "in_order V c w1" "backups V Ob c w1 = backups V Ob c w"
      using order failed(2,3) by (simp_all add: in_order_def backups_def)
    have path: "GetTargetPath old \<noteq> GetTargetPath version" if "old \<in> set (versions_of (Collection_GetId c) (V w1))" for old
      by (rule new_path [OF laws(1) failed(4) _ conf(2,3) _ _ _ that])
        (use same(1) orderlyD(4) [OF req failed(1)] bounds failed(2) in \<open>auto simp: in_order_def\<close>)
    have new: "uv_Id v \<notin> uv_Id ` set (V w1)" using bounds(1) new_version_fields(1) [OF failed(4)] failed(2,6) by simp
    have "accepted E ctx c env q r w = []" using failed(9) by (intro accepted_refused not_answered)
    with failed_keeps [OF laws del bucket same(1) new path failed(5,7,8)] same(2) show ?thesis by simp
  next
    case (stored user c' lock w1 sid version strategy written es ds frs' mws n w2 w3)
    note c' = orderlyD(4) [OF req stored(2)]
    have same: "in_order V c w1" "backups V Ob c w1 = backups V Ob c w"
      using order stored(4,5) by (simp_all add: in_order_def backups_def)
    have "answered_ok r" by (simp add: stored(15) answered_ok_def OKResponse_def)
    then have acc: "accepted E ctx c env q r w = (if Collection_GetId c' = Collection_GetId c then [body_of es] else [])"
      by (simp add: accepted_def stored(2,8))
    have w': "in_order V c w' = in_order V c w3" "backups V Ob c w' = backups V Ob c w3"
      using stored(13,14) by (simp_all add: in_order_def backups_def)
    have new: "uv_Id version \<notin> uv_Id ` set (V w1)" "length (V w1) < 2 ^ 63"
      "highest (versions_of (Collection_GetId c) (V w1)) < 2 ^ 63 - 1"
      using bounds new_version_fields(1) [OF stored(6)] stored(4) by simp_all
    from stored_simulated [OF laws rel bucket conf same(1) new c' stored(6,7,9,11,12)] acc same(2) w'
    show ?thesis by simp
  qed
qed

section \<open>Histories\<close>

text \<open>
  \<open>history E ctx V c w ds w'\<close>: orderly requests, to \<open>c\<close> and to other collections and with any
  outcomes, lead from \<open>w\<close> to \<open>w'\<close>, and \<open>ds\<close> are the bodies that were accepted for \<open>c\<close>, in order.
\<close>

inductive history ::
    "http_lib \<Rightarrow> ('w, 'd) ApplicationContainer \<Rightarrow> ('w \<Rightarrow> UploadedVersion list) \<Rightarrow> Collection \<Rightarrow> 'w \<Rightarrow> bytes list \<Rightarrow> 'w \<Rightarrow> bool"
  for E ctx V c where
  start: "history E ctx V c w [] w"
| request: "history E ctx V c w ds w1 \<Longrightarrow> orderly E ctx V c env q w1 \<Longrightarrow> uploadRoute E ctx env q w1 = Some (r, w') \<Longrightarrow>
    history E ctx V c w (ds @ accepted E ctx c env q r w1) w'"

text \<open>After pushes to a queue of at most \<open>n\<close> elements, it holds the last \<open>n\<close> of all elements.\<close>

lemma queue_push_length: "1 \<le> n \<Longrightarrow> length q \<le> n \<Longrightarrow> length (queue_push n d q) \<le> n"
  by (simp add: queue_push_def)

lemma pushes_last:
  assumes "1 \<le> n"
  shows "length q \<le> n \<Longrightarrow> fold (queue_push n) ds q = drop (length q + length ds - n) (q @ ds)"
proof (induction ds arbitrary: q)
  case (Cons d ds)
  have "fold (queue_push n) ds (queue_push n d q)
      = drop (length (queue_push n d q) + length ds - n) (queue_push n d q @ ds)"
    by (rule Cons.IH [OF queue_push_length [OF assms Cons.prems]])
  also have "\<dots> = drop (length q + length (d # ds) - n) (q @ d # ds)"
    using assms Cons.prems by (cases "length q = n") (simp_all add: queue_push_def)
  finally show ?case by simp
qed simp

section \<open>Properties\<close>

text \<open>
  C2. A collection is a bounded queue of backups. Take a collection with a positive limit \<open>n\<close>,
  the version placeholder in its file name template and no slash in its name, a database and a
  storage that work, and any history of upload requests to this and to other collections, with
  any users, streams and outcomes. The contents of the collection, oldest first, are at the end
  what pushing the bodies of the requests that were answered with success, in that order, makes
  of the contents at the start: each push appends one body and drops the oldest contents beyond
  the limit. So, starting with at most \<open>n\<close> backups, the collection holds exactly the last \<open>n\<close> of
  the old and the accepted backups, each byte for byte, and refused or failed requests and
  requests to other collections change nothing of it.
\<close>

theorem collection_is_bounded_queue:
  assumes "versions_ok (st_repository (app_Storage ctx)) V" and "app_frame ctx V Ob" and "reliable ctx V Ob"
    and "bucket_ok (st_storage (app_Storage ctx)) Ob" and "n = nat (sint (cs_MaxBackupsCount (c_Spec c)))"
    and "1 \<le> n" and "strContains (cs_FilenameTemplate (c_Spec c)) ''${version}''"
    and "CHR ''/'' \<notin> set (Collection_GetId c)" and "in_order V c w" and "history E ctx V c w ds w'"
  shows "in_order V c w' \<and> backups V Ob c w' = fold (queue_push n) (map Some ds) (backups V Ob c w)
    \<and> (length (backups V Ob c w) \<le> n \<longrightarrow> backups V Ob c w' =
        drop (length (backups V Ob c w) + length ds - n) (backups V Ob c w @ map Some ds))"
proof -
  have pos: "1 \<le> sint (cs_MaxBackupsCount (c_Spec c))" using assms(5,6) by linarith
  from assms(10,9) have "in_order V c w' \<and> backups V Ob c w' = fold (queue_push n) (map Some ds) (backups V Ob c w)"
  proof (induction rule: history.induct)
    case (request w ds w1 env q r w')
    then show ?case
      using request_simulated [OF assms(1-4) pos assms(7,8) _ request.hyps(2,3)] assms(5)
      by (simp add: fold_map comp_def)
  qed simp
  moreover have "fold (queue_push n) (map Some ds) (backups V Ob c w)
      = drop (length (backups V Ob c w) + length (map Some ds) - n) (backups V Ob c w @ map Some ds)"
    if "length (backups V Ob c w) \<le> n" using that by (rule pushes_last [OF assms(6)])
  ultimately show ?thesis by simp
qed

lemma mem_reliable: "reliable mem_app mem_versions mem_objects"
  using mem_deletes by (simp add: reliable_def mem_ver_sql_def mem_bucket_def)

theorem collection_is_bounded_queue_witness:
  "\<exists>w'. history (toy_web toy_backups) mem_app mem_versions toy_backups toy_store [gpg_header @ gpg_footer] w'
     \<and> backups mem_versions mem_objects toy_backups w' = [Some (gpg_header @ gpg_footer)]"
proof -
  obtain sid w' where run: "uploadRoute (toy_web toy_backups) mem_app toy_upload_env toy_bearer toy_store
     = Some (Return [OKResponse (VersionData (first_version sid 42\<lparr>uv_CreatedAt := 7, uv_UpdatedAt := 7\<rparr>))], w')"
    using toy_upload_request by blast
  let ?r = "Return [OKResponse (VersionData (first_version sid 42\<lparr>uv_CreatedAt := 7, uv_UpdatedAt := 7\<rparr>))]"
  have slash: "CHR ''/'' \<notin> set (Collection_GetId toy_backups)" by (simp add: Collection_GetId_def)
  have "orderly (toy_web toy_backups) mem_app mem_versions toy_backups toy_upload_env toy_bearer toy_store"
    using slash by (simp add: orderly_def toy_found toy_store_def versions_of_def highest_def)
  from history.request [OF history.start this run]
  have "history (toy_web toy_backups) mem_app mem_versions toy_backups toy_store
      (accepted (toy_web toy_backups) mem_app toy_backups toy_upload_env toy_bearer ?r toy_store) w'" by simp
  moreover have "uploadStream toy_upload_env toy_bearer = Return (Inr ([], toy_stream))"
    by (simp add: uploadStream_def toy_upload_env_def toy_bearer_def toy_request_def)
  then have "accepted (toy_web toy_backups) mem_app toy_backups toy_upload_env toy_bearer ?r toy_store = [gpg_header @ gpg_footer]"
    by (simp add: accepted_def toy_found answered_ok_def OKResponse_def toy_stream_def chunk_def stream_end_def)
  ultimately have h: "history (toy_web toy_backups) mem_app mem_versions toy_backups toy_store [gpg_header @ gpg_footer] w'" by simp
  have laws: "versions_ok (st_repository (app_Storage mem_app)) mem_versions" "bucket_ok (st_storage (app_Storage mem_app)) mem_objects"
    using mem_versions_ok mem_bucket_ok by simp_all
  have name: "strContains (cs_FilenameTemplate (c_Spec toy_backups)) ''${version}''"
    unfolding strContains_def sublist_def by (rule exI [of _ "''v''"], rule exI [of _ "''''"]) simp
  have "in_order mem_versions toy_backups toy_store" by (simp add: in_order_def well_named_def toy_store_def versions_of_def)
  from collection_is_bounded_queue [OF laws(1) mem_frame mem_reliable laws(2) refl _ name slash this h]
  have "backups mem_versions mem_objects toy_backups w' =
      fold (queue_push 2) [Some (gpg_header @ gpg_footer)] (backups mem_versions mem_objects toy_backups toy_store)" by simp
  then have "backups mem_versions mem_objects toy_backups w' = [Some (gpg_header @ gpg_footer)]"
    by (simp add: queue_push_def backups_def toy_store_def versions_of_def)
  with h show ?thesis by blast
qed

section \<open>File names without the version number\<close>

lemma Delete_removes:
  assumes "bucket_ok (st_storage s) Ob"
    and "\<And>p w. Ob w p \<noteq> None \<Longrightarrow> fst (bk_Delete (st_storage s) p w) = None"
  shows "Ob (snd (Delete s v w)) (GetTargetPath v) = None"
proof -
  let ?w1 = "snd (ver_delete (st_repository s) v w)" and ?p = "GetTargetPath v"
  obtain e w2 where w2: "bk_Delete (st_storage s) ?p ?w1 = (e, w2)" by fastforce
  have "Ob w2 ?p = None"
  proof (cases e)
    case None
    with bucket_okD(5) [OF assms(1), of ?p ?w1] w2 show ?thesis by simp
  next
    case (Some x)
    then have "Ob ?w1 ?p = None" using assms(2) [of ?w1 ?p] w2 by (metis fst_conv option.discI)
    with bucket_okD(6) [OF assms(1), of ?p ?w1] w2 Some show ?thesis by simp
  qed
  moreover have "snd (Delete s v w) = w2" using w2 by (simp add: Delete_def split_def)
  ultimately show ?thesis by simp
qed

lemma CleanUp_removes:
  assumes bucket: "bucket_ok (st_storage (app_Storage ctx)) Ob" and frame: "app_frame ctx V Ob"
    and del: "\<And>p w. Ob w p \<noteq> None \<Longrightarrow> fst (bk_Delete (st_storage (app_Storage ctx)) p w) = None"
  shows "p \<in> GetTargetPath ` set ds \<Longrightarrow> Ob (snd (CleanUpOlderVersions (app_Storage ctx) ds w)) p = None"
proof (induction ds arbitrary: w)
  case (Cons v ds)
  let ?w1 = "snd (Delete (app_Storage ctx) v w)"
  have step: "snd (CleanUpOlderVersions (app_Storage ctx) (v # ds) w) = snd (CleanUpOlderVersions (app_Storage ctx) ds ?w1)"
    by (simp split: prod.split)
  show ?case
  proof (cases "p \<in> GetTargetPath ` set ds")
    case True
    from Cons.IH [OF True] show ?thesis unfolding step .
  next
    case False
    with Cons.prems have "p = GetTargetPath v" by simp
    then show ?thesis unfolding step
      using CleanUp_objects [OF bucket frame False, of ?w1] Delete_removes [OF bucket del, of v w] by simp
  qed
qed simp

lemma constant_filename:
  "\<not> strContains (cs_FilenameTemplate (c_Spec c)) ''${version}'' \<Longrightarrow> GenerateNextVersionFilename c n = cs_FilenameTemplate (c_Spec c)"
  using replaceFirst_absent unfolding strContains_def by (simp add: GenerateNextVersionFilename_def)

text \<open>
  C34. A file name template without the version placeholder loses every backup. Nothing in the
  code requires the placeholder. Without it all versions of a collection share one object; once
  the collection is full, an upload overwrites that object and the rotation of the oldest version
  then deletes it. The request is answered with success and the new version is registered, but
  no version of the collection has its data any more. Of the storage this asks that deleting an
  object that is there succeeds; deleting a missing one may fail, as it does with the storage
  library, which reports \<open>NotFound\<close> (the rotation of the second version with the same object).
\<close>

theorem constant_name_loses_backups:
  assumes "versions_ok (st_repository (app_Storage ctx)) V" and "app_frame ctx V Ob" and "reliable ctx V Ob"
    and "bucket_ok (st_storage (app_Storage ctx)) Ob"
    and "\<And>p w. Ob w p \<noteq> None \<Longrightarrow> fst (bk_Delete (st_storage (app_Storage ctx)) p w) = None"
    and "GetCollectionById (hb_collections E) (app_Collections ctx) (rq_collectionId q) w = Inr c"
    and "\<not> strContains (cs_FilenameTemplate (c_Spec c)) ''${version}''"
    and "\<And>old. old \<in> set (versions_of (Collection_GetId c) (V w)) \<Longrightarrow> uv_Filename old = cs_FilenameTemplate (c_Spec c)"
    and "1 \<le> sint (cs_MaxBackupsCount (c_Spec c))"
    and "sint (cs_MaxBackupsCount (c_Spec c)) \<le> int (length (versions_of (Collection_GetId c) (V w)))"
    and "length (V w) < 2 ^ 63" and "up_newId env \<notin> uv_Id ` set (V w)"
    and "uploadRoute E ctx env q w = Some (r, w')" and "answered_ok r"
  shows "up_newId env \<in> uv_Id ` set (versions_of (Collection_GetId c) (V w'))
    \<and> (\<forall>v \<in> set (versions_of (Collection_GetId c) (V w')). Ob w' (GetTargetPath v) = None)"
proof -
  have dels: "deletes_succeed (st_repository (app_Storage ctx))" using assms(3) by (simp add: reliable_def)
  let ?cid = "Collection_GetId c" and ?path = "Collection_GetId c @ ''/'' @ cs_FilenameTemplate (c_Spec c)"
  from assms(1,2) dels assms(13) show ?thesis
  proof (cases rule: upload_effect)
    case quiet
    then show ?thesis using assms(14) not_answered by blast
  next
    case failed
    then show ?thesis using assms(14) not_answered by blast
  next
    case (stored user c' lock w1 sid version strategy written es ds frs' mws n w2 w3)
    have eq: "c' = c" using stored(2) assms(6) by simp
    note ver = stored(6) [unfolded eq]
    have len: "length (V w1) < 2 ^ 63" using stored(4) assms(11) by simp
    have sub: "set ds \<subseteq> set (versions_of ?cid (V w1))"
      by (rule proposed_of_collection [OF assms(1) stored(7) [unfolded eq] stored(9) assms(9) len])
    have new: "uv_Id version \<notin> uv_Id ` set (V w1)" using new_version_fields(1) [OF ver] stored(4) assms(12) by simp
    obtain row where rows: "V w3 = filter (\<lambda>x. uv_Id x \<notin> uv_Id ` set ds) (V w1) @ [row]"
        "uv_CollectionId row = ?cid" "uv_VersionNumber row = uv_VersionNumber version"
        "uv_Filename row = uv_Filename version" "uv_Id row = uv_Id version"
      by (rule stored_new_row [OF assms(1-4) new ver sub stored(11,12)])
    obtain vs where "mset vs = mset (versions_of ?cid (V w1))"
      "ds = take (length (versions_of ?cid (V w1)) + 1 - nat (sint (cs_MaxBackupsCount (c_Spec c)))) (sort_key version_key vs)"
      by (rule proposed_take [OF assms(1) stored(7) [unfolded eq] stored(9) assms(9) len])
    then have "0 < length ds" using mset_eq_length [of vs "versions_of ?cid (V w1)"] assms(9,10) stored(4) by simp
    then obtain d where "d \<in> set ds" by (cases ds) auto
    then have "?path \<in> GetTargetPath ` set ds"
      using sub assms(8) stored(4) by (force simp: GetTargetPath_def versions_of_def image_iff)
    then have gone: "Ob w3 ?path = None" unfolding stored(12) by (intro CleanUp_removes [OF assms(4,2)] assms(5))
    have "uv_Filename v = cs_FilenameTemplate (c_Spec c)" if "v \<in> set (versions_of ?cid (V w3))" for v
      using that rows(1,4) new_version_fields(4) [OF ver] constant_filename [OF assms(7)] assms(8) stored(4)
      by (auto simp: versions_of_def split: if_split_asm)
    then have "\<forall>v \<in> set (versions_of ?cid (V w3)). Ob w3 (GetTargetPath v) = None"
      using gone by (auto simp: GetTargetPath_def versions_of_def)
    moreover have "up_newId env \<in> uv_Id ` set (versions_of ?cid (V w3))"
      using rows(1,2,5) new_version_fields(1) [OF ver] by (simp add: versions_of_snoc)
    ultimately show ?thesis using stored(13,14) by simp
  qed
qed

abbreviation constant_backups :: Collection where
  "constant_backups \<equiv> toy_collection 1 ''1K'' ''3K'' ''x''"

abbreviation constant_version :: UploadedVersion where
  "constant_version \<equiv> toy_version ''a'' 1 5\<lparr>uv_Filename := ''x''\<rparr>"

abbreviation constant_store :: mem_store where
  "constant_store \<equiv> \<lparr>mem_versions = [constant_version], mem_objects = [''iwa/x'' \<mapsto> ''hello'']\<rparr>"

lemma constant_request:
  "\<exists>r w'. uploadRoute (toy_web constant_backups) mem_app toy_upload_env toy_bearer constant_store = Some (r, w') \<and> answered_ok r"
proof -
  let ?c = constant_backups and ?w = constant_store and ?sl = "\<lparr>sl_elems = [constant_version], sl_spare = []\<rparr>"
  obtain sid where sid: "GetCurrentSessionId toy_bearer = Return sid" using toy_session_id by blast
  obtain lock where lock: "LockService_Lock (app_Locks mem_app) (up_lock toy_upload_env)
      (GetGlobalIdentifier ?c) (app_UploadTimeout mem_app) ?w = (Inr lock, ?w)" using toy_lock by blast
  have name: "om_Name (u_Metadata (sau_User toy_manager)) = ''admin''" by (simp add: NewSessionAwareUser_def toy_user_def)
  have env: "up_newId toy_upload_env = ''n''" "\<not> up_cancelled toy_upload_env" by (simp_all add: toy_upload_env_def)
  have st: "uploadStream toy_upload_env toy_bearer = Return (Inr ([], toy_stream))"
    by (simp add: uploadStream_def toy_upload_env_def toy_bearer_def toy_request_def)
  obtain v where v: "CreateNewVersionFromCollection mem_service ''n'' ?c ''admin'' sid 0 ?w = Inr v"
    by (simp add: CreateNewVersionFromCollection_def FindNextVersionForCollectionId_def
        findLastHighestVersionNumber_def mem_ver_sql_def)
  have strat: "CreateRotationStrategyCase mem_service ?c ?w = Inr (NewFifoRotationStrategy ?c ?sl)"
    by (simp add: CreateRotationStrategyCase_def findAllVersionsForCollectionId_def mem_ver_sql_def versions_of_def)
  have del: "GetVersionsThatShouldBeDeletedIfThisVersionUploaded (NewFifoRotationStrategy ?c ?sl) v
      = Return ([constant_version], NewFifoRotationStrategy ?c ?sl)"
    by (simp add: GetVersionsThatShouldBeDeletedIfThisVersionUploaded_def NewFifoRotationStrategy_def reslice_def Let_def)
  have fit: "sizes_fit (hb_collections (toy_web ?c)) ?c 1000 3000"
    using toy_sizes_fit [of 1 "''x''"] by (simp add: sizes_fit_def toy_web_def)
  have all: "sql_ver_all (st_repository mem_service) (Collection_GetId ?c) ?w = Inr ?sl"
    by (simp add: mem_ver_sql_def versions_of_def Collection_GetId_def)
  obtain m where lim: "CalculateMaximumAllowedUploadFilesize (hb_collections (toy_web ?c)) mem_service ?c [constant_version] ?w = Inr m"
    and m: "42 \<le> sint m" using upload_limit [OF fit _ refl _ all refl, of "[constant_version]"] by force
  then have mws: "CreateStandardMiddleWares (hb_collections (toy_web ?c)) mem_service [constant_version] ?c ?w
      = Inr [createRequestCancelledMiddleware, createQuotaMaxFileSizeMiddleware m, createNonEmptyMiddleware, createGPGStreamMiddleware]"
    by (simp add: CreateStandardMiddleWares_def)
  show ?thesis
    by (simp add: uploadRoute_def toy_context toy_found toy_allowed lock uploadLocked_def sid name env v strat CanUpload_def st
        uploadVersion_def del mws toy_upload [OF m] Let_def answered_ok_def OKResponse_def)
qed

theorem constant_name_loses_backups_witness:
  "\<exists>r w'. uploadRoute (toy_web constant_backups) mem_app toy_upload_env toy_bearer constant_store = Some (r, w') \<and> answered_ok r
     \<and> ''n'' \<in> uv_Id ` set (mem_versions w') \<and> (\<forall>v \<in> set (versions_of ''iwa'' (mem_versions w')). mem_objects w' (GetTargetPath v) = None)"
proof -
  obtain r w' where run: "uploadRoute (toy_web constant_backups) mem_app toy_upload_env toy_bearer constant_store = Some (r, w')"
    "answered_ok r" using constant_request by blast
  have laws: "versions_ok (st_repository (app_Storage mem_app)) mem_versions" "bucket_ok (st_storage (app_Storage mem_app)) mem_objects"
    using mem_versions_ok mem_bucket_ok by simp_all
  have "\<not> strContains ''x'' ''${version}''" by code_simp
  then have "up_newId toy_upload_env \<in> uv_Id ` set (versions_of (Collection_GetId constant_backups) (mem_versions w'))
      \<and> (\<forall>v \<in> set (versions_of (Collection_GetId constant_backups) (mem_versions w')). mem_objects w' (GetTargetPath v) = None)"
    by (intro constant_name_loses_backups [OF laws(1) mem_frame mem_reliable laws(2) _ toy_found _ _ _ _ _ _ run])
      (auto simp: mem_bucket_def versions_of_def Collection_GetId_def toy_upload_env_def)
  with run show ?thesis by (auto simp: Collection_GetId_def toy_upload_env_def versions_of_def)
qed

end
