(* ===== verification/Startup.thy ===== *)
theory Startup
  imports Http_Collections
begin

text \<open>
  How the server is put together: the command line program (\<open>main.go\<close>), the database
  connection and the migrations (\<open>pkg/db/main.go\<close> and the \<open>InitializeModel\<close> and \<open>NewService\<close>
  functions of the packages), the choice of the object storage (\<open>NewService\<close> of
  \<open>pkg/storage/service.go\<close>), the routing table (\<open>pkg/http/main.go\<close>) and the logging of error
  responses (\<open>pkg/http/logging.go\<close>).

  The command line parser, gorm, the cloud libraries, gin, gin-jwt and the rate limiter are
  parameters. A fatal log entry ends the program and is the left value of the step.
\<close>

section \<open>Database (db/main.go)\<close>

datatype db_model = GrantedAccessModel | UploadedVersionModel | LockModel

text \<open>An open connection gives the statements that the packages run through it.\<close>

record ('w, 'db) gorm_driver =
  gd_Open :: "string \<Rightarrow> 'w \<Rightarrow> 'db result"
  gd_AutoMigrate :: "'db \<Rightarrow> db_model \<Rightarrow> 'w \<Rightarrow> error option \<times> 'w"
  gd_Select :: "'db \<Rightarrow> goint \<Rightarrow> 'w \<Rightarrow> goint \<times> error option"
  gd_sessions :: "'db \<Rightarrow> 'w ga_sql"
  gd_versions :: "'db \<Rightarrow> 'w ver_sql"
  gd_locks :: "'db \<Rightarrow> 'w lock_sql"

definition CreateDatabaseDriver ::
    "('w, 'db) gorm_driver \<Rightarrow> string \<Rightarrow> string \<Rightarrow> string \<Rightarrow> string \<Rightarrow> goint \<Rightarrow> string \<Rightarrow> 'w \<Rightarrow> 'db result" where
  "CreateDatabaseDriver G hostname user password dbname port additionalDSN w =
     (let dsn = ''host='' @ hostname @ '' user='' @ user @ '' password='' @ password @ '' dbname='' @ dbname
            @ '' port='' @ itoa (sint port) @ '' '' @ additionalDSN
      in gd_Open G dsn w)"

definition security_InitializeModel :: "('w, 'db) gorm_driver \<Rightarrow> 'db \<Rightarrow> 'w \<Rightarrow> error option \<times> 'w" where
  "security_InitializeModel G db w = gd_AutoMigrate G db GrantedAccessModel w"

definition storage_InitializeModel :: "('w, 'db) gorm_driver \<Rightarrow> 'db \<Rightarrow> 'w \<Rightarrow> error option \<times> 'w" where
  "storage_InitializeModel G db w = gd_AutoMigrate G db UploadedVersionModel w"

definition concurrency_InitializeModel :: "('w, 'db) gorm_driver \<Rightarrow> 'db \<Rightarrow> 'w \<Rightarrow> error option \<times> 'w" where
  "concurrency_InitializeModel G db w = gd_AutoMigrate G db LockModel w"

definition InitializeDatabase :: "('w, 'db) gorm_driver \<Rightarrow> 'db \<Rightarrow> 'w \<Rightarrow> bool \<times> 'w" where
  "InitializeDatabase G db w =
     (case security_InitializeModel G db w of
        (Some err, w1) \<Rightarrow> (False, w1)
      | (None, w1) \<Rightarrow>
          (case storage_InitializeModel G db w1 of
             (Some err, w2) \<Rightarrow> (False, w2)
           | (None, w2) \<Rightarrow>
               (case concurrency_InitializeModel G db w2 of
                  (Some err, w3) \<Rightarrow> (False, w3)
                | (None, w3) \<Rightarrow> (True, w3))))"

definition concurrency_NewService :: "('w, 'db) gorm_driver \<Rightarrow> 'db \<Rightarrow> 'w lock_sql" where
  "concurrency_NewService G db = gd_locks G db"

definition security_NewService :: "('w, 'db) gorm_driver \<Rightarrow> 'db \<Rightarrow> 'w ga_sql" where
  "security_NewService G db = gd_sessions G db"

definition collections_NewService :: "('w, 'd) ConfigurationProvider \<Rightarrow> ('w, 'd) ConfigurationProvider" where
  "collections_NewService config = config"

section \<open>Object storage (storage/service.go)\<close>

record ('w, 'k, 'h) cloud_lib =
  gcp_DefaultCredentials :: "'w \<Rightarrow> 'k result"
  gcp_NewHTTPClient :: "'k \<Rightarrow> 'h result"
  gcsblob_OpenBucket :: "'h \<Rightarrow> string \<Rightarrow> 'w \<Rightarrow> 'w bucket result"
  blob_OpenBucket :: "string \<Rightarrow> 'w \<Rightarrow> 'w bucket result"
  bk_IsAccessible :: "'w bucket \<Rightarrow> 'w \<Rightarrow> bool \<times> error option"

definition fmt_error :: "error option \<Rightarrow> string" where
  "fmt_error err = (case err of None \<Rightarrow> ''<nil>'' | Some e \<Rightarrow> e)"

definition storage_NewService ::
    "('w, 'k, 'h) cloud_lib \<Rightarrow> 'w ver_sql \<Rightarrow> string \<Rightarrow> bool \<Rightarrow> duration \<Rightarrow> duration \<Rightarrow> 'w \<Rightarrow> 'w storage_Service result" where
  "storage_NewService L repository driverUrl isUsingGCS healthTimeout ioTimeout w =
     (let service = (\<lambda>driver. \<lparr>st_storage = driver, st_repository = repository,
            st_HealthTimeout = healthTimeout, st_IOTimeout = ioTimeout\<rparr>) in
      if isUsingGCS
      then (case gcp_DefaultCredentials L w of
              Inl err \<Rightarrow> Inl (''cannot grab credentials for Google Cloud Storage: '' @ err)
            | Inr gcsCredentials \<Rightarrow>
                (case gcp_NewHTTPClient L gcsCredentials of
                   Inl loginErr \<Rightarrow> Inl (''cannot login to Google Cloud Storage: '' @ loginErr)
                 | Inr client \<Rightarrow>
                     (case gcsblob_OpenBucket L client driverUrl w of
                        Inl openErr \<Rightarrow> Inl (''cannot open Google Cloud Storage bucket: '' @ openErr)
                      | Inr driver \<Rightarrow>
                          (let (result, err) = bk_IsAccessible L driver w in
                           if err \<noteq> None \<or> \<not> result
                           then Inl (''Google Cloud Storage bucket is not accessible: '' @ fmt_error err
                             @ '' || connection status = '' @ bool_text result)
                           else Inr (service driver)))))
      else (case blob_OpenBucket L driverUrl w of
              Inl err \<Rightarrow> Inl err
            | Inr driver \<Rightarrow>
                (let (result, err) = bk_IsAccessible L driver w in
                 if err \<noteq> None \<or> \<not> result
                 then Inl (''bucket is not accessible: '' @ fmt_error err @ '' || connection status = '' @ bool_text result)
                 else Inr (service driver))))"

section \<open>Error logging (http/logging.go)\<close>

text \<open>The response under construction: status, content type, what the client gets, and the copy.\<close>

record error_writer =
  ew_Status :: nat
  ew_ContentType :: string
  ew_out :: bytes
  ew_body :: bytes

definition errorLogWriter_Write :: "bytes \<Rightarrow> error_writer \<Rightarrow> error_writer" where
  "errorLogWriter_Write b w =
     (let w1 = (if 299 < ew_Status w \<and> strContains (ew_ContentType w) ''application/json''
                then w\<lparr>ew_body := ew_body w @ b\<rparr> else w)
      in w1\<lparr>ew_out := ew_out w1 @ b\<rparr>)"

datatype log_entry = Warning string | Errorf string string

text \<open>
  A handler sets the status and the content type and writes: its actions are a list. Decoding the
  copied body to its \<open>error\<close> and \<open>message\<close> texts is a parameter.
\<close>

datatype response_action = SetHeader nat string | WriteBytes bytes

fun run_logged :: "response_action list \<Rightarrow> error_writer \<Rightarrow> error_writer" where
  "run_logged [] w = w"
| "run_logged (SetHeader st ct # acts) w = run_logged acts (w\<lparr>ew_Status := st, ew_ContentType := ct\<rparr>)"
| "run_logged (WriteBytes b # acts) w = run_logged acts (errorLogWriter_Write b w)"

definition responseErrorLoggerMiddleware ::
    "(bytes \<Rightarrow> (string \<times> string) result) \<Rightarrow> response_action list \<Rightarrow> error_writer \<Rightarrow> error_writer \<times> log_entry list" where
  "responseErrorLoggerMiddleware unmarshal acts w =
     (let blw = run_logged acts (w\<lparr>ew_body := ''''\<rparr>) in
      (blw, if length (ew_body blw) > 0
            then (case unmarshal (ew_body blw) of
                    Inl unmarshalErr \<Rightarrow> [Warning ''Cannot parse error response. Probably not in valid format'']
                  | Inr (err, message) \<Rightarrow> [Errorf err message])
            else []))"

section \<open>Routes (http/main.go)\<close>

text \<open>
  The handlers the application passes to gin. A rate limiter has its period, its limit and the
  prefix of its key; uploads and downloads carry their timeout.
\<close>

datatype http_handler =
    AuthMiddleware
  | ErrorLogger
  | RateLimiter int int64 string
  | LoginHandler
  | RefreshHandler
  | LookupUserHandler
  | WhoamiHandler
  | LogoutHandler
  | GrantedAccessSearchHandler
  | UploadHandler duration
  | DownloadHandler duration
  | CollectionListingHandler
  | CollectionHealthHandler
  | HealthHandler
  | ReadyHandler

record 'r gin =
  gin_Default :: 'r
  gin_Group :: "string \<Rightarrow> 'r \<Rightarrow> 'r"
  gin_group_Use :: "http_handler list \<Rightarrow> 'r \<Rightarrow> 'r"
  gin_group_Handle :: "string \<Rightarrow> string \<Rightarrow> http_handler list \<Rightarrow> 'r \<Rightarrow> 'r"
  gin_Handle :: "string \<Rightarrow> string \<Rightarrow> http_handler list \<Rightarrow> 'r \<Rightarrow> 'r"

definition addRoutes :: "'r gin \<Rightarrow> ('w, 'd) ApplicationContainer \<Rightarrow> 'r" where
  "addRoutes G app =
     (let authRateLimit = RateLimiter minute (scast (app_AuthRPM app)) ''auth:'';
          defaultRateLimit = RateLimiter second (scast (app_DefaultRPS app)) ''default:'';
          r = gin_Group G ''/'' (gin_Default G);
          r = gin_group_Handle G ''POST'' ''/api/stable/auth/login'' [ErrorLogger, authRateLimit, LoginHandler] r;
          r = gin_group_Handle G ''GET'' ''/api/stable/auth/refresh_token'' [ErrorLogger, authRateLimit, RefreshHandler] r;
          r = gin_group_Use G [AuthMiddleware, ErrorLogger] r;
          r = gin_group_Handle G ''GET'' ''/api/stable/auth/user/:userName'' [defaultRateLimit, LookupUserHandler] r;
          r = gin_group_Handle G ''GET'' ''/api/stable/auth/whoami'' [defaultRateLimit, WhoamiHandler] r;
          r = gin_group_Handle G ''DELETE'' ''/api/stable/auth/logout'' [defaultRateLimit, LogoutHandler] r;
          r = gin_group_Handle G ''GET'' ''/api/stable/auth/token'' [defaultRateLimit, GrantedAccessSearchHandler] r;
          r = gin_group_Handle G ''POST'' ''/api/alpha/repository/collection/:collectionId/version''
                [UploadHandler (app_UploadTimeout app)] r;
          r = gin_group_Handle G ''GET'' ''/api/alpha/repository/collection/:collectionId/version/:versionNum''
                [defaultRateLimit, DownloadHandler (app_DownloadTimeout app)] r;
          r = gin_group_Handle G ''GET'' ''/api/stable/repository/collection/:collectionId/version''
                [defaultRateLimit, CollectionListingHandler] r;
          r = gin_Handle G ''GET'' ''/api/stable/repository/collection/:collectionId/health''
                [RateLimiter minute (scast (app_CollectionHealthRPM app)) ''collectionHealth:'', CollectionHealthHandler] r;
          serverRateLimit = RateLimiter minute (scast (app_ServerHealthRPM app)) ''health:'';
          r = gin_Handle G ''GET'' ''/health'' [serverRateLimit, HealthHandler] r
      in gin_Handle G ''GET'' ''/ready'' [serverRateLimit, ReadyHandler] r)"

text \<open>\<open>jwt_New\<close> is what the construction of the authentication middleware reports for a secret key.\<close>

record ('w, 'r) web_lib =
  wl_gin :: "'r gin"
  jwt_New :: "bytes \<Rightarrow> error option"
  gin_Run :: "'r \<Rightarrow> string \<Rightarrow> 'w \<Rightarrow> error option \<times> 'w"

definition SpawnHttpApplication ::
    "('w, 'r) web_lib \<Rightarrow> ('w, 'd) ApplicationContainer \<Rightarrow> string \<Rightarrow> 'w \<Rightarrow> error option result \<times> 'w" where
  "SpawnHttpApplication H app listenAddr w =
     (case jwt_New H (app_JwtSecretKey app) of
        Some err \<Rightarrow> (Inl err, w)
      | None \<Rightarrow> (let (err, w1) = gin_Run H (addRoutes (wl_gin H) app) listenAddr w in (Inr err, w1)))"

section \<open>The program (main.go)\<close>

record options =
  op_Help :: bool
  op_Namespace :: string
  op_EncodePasswordAction :: string
  op_HashJWT :: string
  op_DbHostname :: string
  op_DbUsername :: string
  op_DbPassword :: string
  op_DbName :: string
  op_DbPort :: goint
  op_JwtSecretKey :: string
  op_HealthCheckKey :: string
  op_Level :: string
  op_StorageDriverUrl :: string
  op_IsGCS :: bool
  op_StorageHealthTimeout :: string
  op_StorageIOTimeout :: string
  op_UploadTimeout :: string
  op_DownloadTimeout :: string
  op_DefaultRPS :: "16 word"
  op_AuthRPM :: "16 word"
  op_CollectionHealthRPM :: "16 word"
  op_ServerHealthRPM :: "16 word"
  op_ListenAddr :: string
  op_Provider :: string
  op_ConfigLocalPath :: string

text \<open>
  The end of the program: an exit code with the line it printed (when the line is the program's
  own), a fatal log entry, a panic, or the return of \<open>main\<close>. The last one is what the code would do
  if running the server returned no error; gin and \<open>net/http\<close> document that it always returns one.
\<close>

datatype program_end = Exited nat "string option" | Fatal error | Crashed string | Stopped

definition toDurationOrFatal :: "(string \<Rightarrow> duration result) \<Rightarrow> string \<Rightarrow> duration result" where
  "toDurationOrFatal parse durationStr = parse durationStr"

definition createStorage ::
    "(string \<Rightarrow> duration result) \<Rightarrow> ('w, 'k, 'h) cloud_lib \<Rightarrow> 'w ver_sql \<Rightarrow> options \<Rightarrow> 'w \<Rightarrow> 'w storage_Service result" where
  "createStorage parse L repository opts w =
     (case parse (op_StorageHealthTimeout opts) of
        Inl storageTimeoutErr \<Rightarrow> Inl storageTimeoutErr
      | Inr healthTimeout \<Rightarrow>
          (case parse (op_StorageIOTimeout opts) of
             Inl ioTimeoutErr \<Rightarrow> Inl ioTimeoutErr
           | Inr ioTimeout \<Rightarrow>
               storage_NewService L repository (op_StorageDriverUrl opts) (op_IsGCS opts) healthTimeout ioTimeout w))"

record ('w, 'd, 'o, 'v, 'db, 'k, 'h, 'r) program_lib =
  pl_files :: "'w os_files"
  pl_codec :: "'v doc_codec"
  pl_k8s :: "('w, 'd, 'o) k8s_client"
  pl_gorm :: "('w, 'db) gorm_driver"
  pl_cloud :: "('w, 'k, 'h) cloud_lib"
  pl_web :: "('w, 'r) web_lib"
  pl_argon2 :: argon2_pkg
  pl_ParseDuration :: "string \<Rightarrow> duration result"

text \<open>The container, whose fields are evaluated in their order; the first failure is fatal.\<close>

definition createContainer ::
    "('w, 'd, 'o, 'v, 'db, 'k, 'h, 'r) program_lib \<Rightarrow> options \<Rightarrow> ('w, 'd) ConfigurationProvider \<Rightarrow> 'db \<Rightarrow> 'w \<Rightarrow>
     ('w, 'd) ApplicationContainer result" where
  "createContainer P opts configProvider db w =
     (case createStorage (pl_ParseDuration P) (pl_cloud P) (gd_versions (pl_gorm P) db) opts w of
        Inl err \<Rightarrow> Inl err
      | Inr storage \<Rightarrow>
          (case toDurationOrFatal (pl_ParseDuration P) (op_UploadTimeout opts) of
             Inl err \<Rightarrow> Inl err
           | Inr uploadTimeout \<Rightarrow>
               (case toDurationOrFatal (pl_ParseDuration P) (op_DownloadTimeout opts) of
                  Inl err \<Rightarrow> Inl err
                | Inr downloadTimeout \<Rightarrow> Inr \<lparr>
                    app_Db = gd_Select (pl_gorm P) db, app_Config = configProvider,
                    app_Users = NewUsersService configProvider,
                    app_GrantedAccesses = security_NewService (pl_gorm P) db,
                    app_Collections = collections_NewService configProvider, app_Storage = storage,
                    app_JwtSecretKey = op_JwtSecretKey opts, app_HealthCheckKey = op_HealthCheckKey opts,
                    app_Locks = concurrency_NewService (pl_gorm P) db,
                    app_UploadTimeout = uploadTimeout, app_DownloadTimeout = downloadTimeout,
                    app_DefaultRPS = op_DefaultRPS opts, app_AuthRPM = op_AuthRPM opts,
                    app_CollectionHealthRPM = op_CollectionHealthRPM opts, app_ServerHealthRPM = op_ServerHealthRPM opts\<rparr>)))"

definition go_main ::
    "('w, 'd, 'o, 'v, 'db, 'k, 'h, 'r) program_lib \<Rightarrow> time \<Rightarrow> bytes result \<Rightarrow> options result \<Rightarrow> 'w \<Rightarrow> program_end \<times> 'w" where
  "go_main P now rand_salt parsed w =
     (case parsed of
        Inl err \<Rightarrow> (Exited 1 None, w)
      | Inr opts \<Rightarrow>
          if op_Help opts then (Exited 0 None, w)
          else if op_EncodePasswordAction opts \<noteq> ''''
          then (case CreateHashFromPassword (pl_argon2 P) rand_salt (op_EncodePasswordAction opts) of
                  Panic m \<Rightarrow> (Crashed m, w)
                | Return (Inl err) \<Rightarrow> (Exited 0 (Some ''''), w)
                | Return (Inr hash) \<Rightarrow> (Exited 0 (Some hash), w))
          else if op_HashJWT opts \<noteq> '''' then (Exited 0 (Some (HashJWT (op_HashJWT opts))), w)
          else
            (case CreateConfigurationProvider (pl_files P) (pl_codec P) (pl_k8s P) now (op_Provider opts)
                (op_Namespace opts) (op_ConfigLocalPath opts) of
               Inl err \<Rightarrow> (Fatal err, w)
             | Inr configProvider \<Rightarrow>
                 (case CreateDatabaseDriver (pl_gorm P) (op_DbHostname opts) (op_DbUsername opts) (op_DbPassword opts)
                     (op_DbName opts) (op_DbPort opts) '''' w of
                    Inl err \<Rightarrow> (Fatal err, w)
                  | Inr db \<Rightarrow>
                      (let (_, w1) = InitializeDatabase (pl_gorm P) db w in
                       case createContainer P opts configProvider db w1 of
                         Inl err \<Rightarrow> (Fatal err, w1)
                       | Inr ctx \<Rightarrow>
                           (case SpawnHttpApplication (pl_web P) ctx (op_ListenAddr opts) w1 of
                              (Inl err, w2) \<Rightarrow> (Fatal err, w2)
                            | (Inr (Some err), w2) \<Rightarrow> (Exited 1 None, w2)
                            | (Inr None, w2) \<Rightarrow> (Stopped, w2))))))"

section \<open>Lemmas\<close>

text \<open>
  What gin documents: a route of the engine runs the handlers it was registered with; a route of
  the group runs the handlers that were used on the group before it was registered, then its
  own. \<open>chain r\<close> is the table of routes, \<open>used r\<close> the handlers of the group.
\<close>

definition gin_ok :: "'r gin \<Rightarrow> ('r \<Rightarrow> (string \<times> string \<rightharpoonup> http_handler list)) \<Rightarrow> ('r \<Rightarrow> http_handler list) \<Rightarrow> bool" where
  "gin_ok G chain used \<longleftrightarrow>
     chain (gin_Default G) = Map.empty
   \<and> (\<forall>p r. chain (gin_Group G p r) = chain r \<and> used (gin_Group G p r) = [])
   \<and> (\<forall>hs r. chain (gin_group_Use G hs r) = chain r \<and> used (gin_group_Use G hs r) = used r @ hs)
   \<and> (\<forall>m p hs r. chain (gin_group_Handle G m p hs r) = (chain r)((m, p) \<mapsto> used r @ hs)
        \<and> used (gin_group_Handle G m p hs r) = used r)
   \<and> (\<forall>m p hs r. chain (gin_Handle G m p hs r) = (chain r)((m, p) \<mapsto> hs) \<and> used (gin_Handle G m p hs r) = used r)"

lemma gin_okD:
  assumes "gin_ok G chain used"
  shows "chain (gin_Default G) = Map.empty" "chain (gin_Group G p r) = chain r" "used (gin_Group G p r) = []"
    "chain (gin_group_Use G hs r) = chain r" "used (gin_group_Use G hs r) = used r @ hs"
    "chain (gin_group_Handle G m p hs r) = (chain r)((m, p) \<mapsto> used r @ hs)" "used (gin_group_Handle G m p hs r) = used r"
    "chain (gin_Handle G m p hs r) = (chain r)((m, p) \<mapsto> hs)" "used (gin_Handle G m p hs r) = used r"
  using assms unfolding gin_ok_def by simp_all

text \<open>The routes anybody may call, and the others.\<close>

definition public_routes :: "(string \<times> string) list" where
  "public_routes = [(''POST'', ''/api/stable/auth/login''), (''GET'', ''/api/stable/auth/refresh_token''),
     (''GET'', ''/api/stable/repository/collection/:collectionId/health''), (''GET'', ''/health''), (''GET'', ''/ready'')]"

definition protected_routes :: "(string \<times> string) list" where
  "protected_routes = [(''GET'', ''/api/stable/auth/user/:userName''), (''GET'', ''/api/stable/auth/whoami''),
     (''DELETE'', ''/api/stable/auth/logout''), (''GET'', ''/api/stable/auth/token''),
     (''POST'', ''/api/alpha/repository/collection/:collectionId/version''),
     (''GET'', ''/api/alpha/repository/collection/:collectionId/version/:versionNum''),
     (''GET'', ''/api/stable/repository/collection/:collectionId/version'')]"

lemma written_bytes: "ew_out (run_logged acts w) = ew_out w @ concat [b. WriteBytes b \<leftarrow> acts]"
  by (induction acts w rule: run_logged.induct) (simp_all add: errorLogWriter_Write_def Let_def)

text \<open>The bucket that the options name, opened in the way they ask for.\<close>

definition opens_bucket :: "('w, 'k, 'h) cloud_lib \<Rightarrow> options \<Rightarrow> 'w \<Rightarrow> 'w bucket \<Rightarrow> bool" where
  "opens_bucket L opts w driver \<longleftrightarrow>
     (if op_IsGCS opts
      then \<exists>k h. gcp_DefaultCredentials L w = Inr k \<and> gcp_NewHTTPClient L k = Inr h
        \<and> gcsblob_OpenBucket L h (op_StorageDriverUrl opts) w = Inr driver
      else blob_OpenBucket L (op_StorageDriverUrl opts) w = Inr driver)"

lemma createStorage_iff:
  "createStorage parse L repository opts w = Inr st \<longleftrightarrow>
     (\<exists>health io driver. parse (op_StorageHealthTimeout opts) = Inr health \<and> parse (op_StorageIOTimeout opts) = Inr io
        \<and> opens_bucket L opts w driver \<and> bk_IsAccessible L driver w = (True, None)
        \<and> st = \<lparr>st_storage = driver, st_repository = repository, st_HealthTimeout = health, st_IOTimeout = io\<rparr>)"
  by (auto simp: createStorage_def storage_NewService_def opens_bucket_def Let_def
      split: sum.split_asm sum.split if_split_asm prod.split_asm)

text \<open>
  What a server is started with: the services on one database connection and one configuration,
  the storage with its bucket, the keys, timeouts and limits of the options.
\<close>

definition served ::
    "('w, 'd, 'o, 'v, 'db, 'k, 'h, 'r) program_lib \<Rightarrow> options \<Rightarrow> ('w, 'd) ConfigurationProvider \<Rightarrow> 'db \<Rightarrow> 'w storage_Service \<Rightarrow>
     duration \<Rightarrow> duration \<Rightarrow> ('w, 'd) ApplicationContainer" where
  "served P opts cfg db st up down = \<lparr>app_Db = gd_Select (pl_gorm P) db, app_Config = cfg, app_Users = NewUsersService cfg,
     app_GrantedAccesses = gd_sessions (pl_gorm P) db, app_Collections = cfg, app_Storage = st,
     app_JwtSecretKey = op_JwtSecretKey opts, app_HealthCheckKey = op_HealthCheckKey opts,
     app_Locks = gd_locks (pl_gorm P) db, app_UploadTimeout = up, app_DownloadTimeout = down,
     app_DefaultRPS = op_DefaultRPS opts, app_AuthRPM = op_AuthRPM opts,
     app_CollectionHealthRPM = op_CollectionHealthRPM opts, app_ServerHealthRPM = op_ServerHealthRPM opts\<rparr>"

lemma createContainer_iff:
  "createContainer P opts cfg db w = Inr ctx \<longleftrightarrow>
     (\<exists>st up down. createStorage (pl_ParseDuration P) (pl_cloud P) (gd_versions (pl_gorm P) db) opts w = Inr st
        \<and> pl_ParseDuration P (op_UploadTimeout opts) = Inr up \<and> pl_ParseDuration P (op_DownloadTimeout opts) = Inr down
        \<and> ctx = served P opts cfg db st up down)"
  by (auto simp: createContainer_def toDurationOrFatal_def served_def security_NewService_def collections_NewService_def
      concurrency_NewService_def split: sum.split_asm sum.split)

lemma served_key: "app_JwtSecretKey (served P opts cfg db st up down) = op_JwtSecretKey opts"
  by (simp add: served_def)

lemma known_provider:
  "CreateConfigurationProvider F C K now p n l = Inr cfg \<Longrightarrow> p \<in> {''kubernetes'', ''filesystem''}"
  by (auto simp: CreateConfigurationProvider_def split: if_split_asm)

lemma go_main_served:
  "go_main P now salt (Inr opts) w = (Exited 1 None, w2) \<longleftrightarrow>
     \<not> op_Help opts \<and> op_EncodePasswordAction opts = '''' \<and> op_HashJWT opts = ''''
     \<and> (\<exists>cfg db ctx err.
          CreateConfigurationProvider (pl_files P) (pl_codec P) (pl_k8s P) now (op_Provider opts) (op_Namespace opts)
            (op_ConfigLocalPath opts) = Inr cfg
        \<and> CreateDatabaseDriver (pl_gorm P) (op_DbHostname opts) (op_DbUsername opts) (op_DbPassword opts)
            (op_DbName opts) (op_DbPort opts) '''' w = Inr db
        \<and> createContainer P opts cfg db (snd (InitializeDatabase (pl_gorm P) db w)) = Inr ctx
        \<and> jwt_New (pl_web P) (app_JwtSecretKey ctx) = None
        \<and> gin_Run (pl_web P) (addRoutes (wl_gin (pl_web P)) ctx) (op_ListenAddr opts)
            (snd (InitializeDatabase (pl_gorm P) db w)) = (Some err, w2))"
  by (auto simp: go_main_def SpawnHttpApplication_def Let_def split_def prod_eq_iff
      split: if_split_asm outcome.split_asm sum.split_asm sum.split option.split_asm option.split)

section \<open>Properties\<close>

text \<open>
  C18. The routing table. The server has exactly the listed routes. Every protected route, the
  upload, download and listing of backups and the session routes among them, runs the
  authentication middleware before everything else; the public routes are the login, the token
  refresh and the health endpoints, and each of them has a rate limit.
\<close>

theorem routes_protected:
  assumes "gin_ok G chain used"
  shows "dom (chain (addRoutes G app)) = set public_routes \<union> set protected_routes
    \<and> (\<forall>r \<in> set protected_routes. \<exists>rest. chain (addRoutes G app) r = Some (AuthMiddleware # ErrorLogger # rest))
    \<and> (\<forall>r \<in> set public_routes. \<exists>hs. chain (addRoutes G app) r = Some hs \<and> AuthMiddleware \<notin> set hs
         \<and> (\<exists>period n key. RateLimiter period n key \<in> set hs))"
proof (intro conjI)
  note table = addRoutes_def Let_def gin_okD [OF assms] public_routes_def protected_routes_def
  show "dom (chain (addRoutes G app)) = set public_routes \<union> set protected_routes"
    unfolding table
    by (simp only: dom_fun_upd option.distinct if_False dom_empty list.set Un_insert_left Un_empty_left append_Nil
        insert_commute)
  show "\<forall>r \<in> set protected_routes. \<exists>rest. chain (addRoutes G app) r = Some (AuthMiddleware # ErrorLogger # rest)"
    by (simp add: table)
  show "\<forall>r \<in> set public_routes. \<exists>hs. chain (addRoutes G app) r = Some hs \<and> AuthMiddleware \<notin> set hs
         \<and> (\<exists>period n key. RateLimiter period n key \<in> set hs)"
    by (simp add: table)
qed

text \<open>A router kept as a table.\<close>

definition list_gin :: "((string \<times> string \<rightharpoonup> http_handler list) \<times> http_handler list) gin" where
  "list_gin = \<lparr>gin_Default = (Map.empty, []), gin_Group = (\<lambda>p (t, u). (t, [])),
     gin_group_Use = (\<lambda>hs (t, u). (t, u @ hs)), gin_group_Handle = (\<lambda>m p hs (t, u). (t((m, p) \<mapsto> u @ hs), u)),
     gin_Handle = (\<lambda>m p hs (t, u). (t((m, p) \<mapsto> hs), u))\<rparr>"

lemma list_gin_ok: "gin_ok list_gin fst snd"
  by (simp add: gin_ok_def list_gin_def split_def)

theorem routes_protected_witness:
  "\<exists>rest. fst (addRoutes list_gin (toy_app :: (unit, unit) ApplicationContainer))
     (''POST'', ''/api/alpha/repository/collection/:collectionId/version'') = Some (AuthMiddleware # ErrorLogger # rest)"
  using routes_protected [OF list_gin_ok, where app = "toy_app :: (unit, unit) ApplicationContainer"] by (simp add: protected_routes_def)

text \<open>
  C31. The error logger is transparent. A client gets the same bytes with the logging middleware
  as without it, whatever the handler does; and a response with a status is logged exactly when
  the status is above 299, it is JSON, and its body is not empty.
\<close>

theorem error_logger_transparent:
  "ew_out (fst (responseErrorLoggerMiddleware unmarshal acts w)) = ew_out w @ concat [b. WriteBytes b \<leftarrow> acts]
   \<and> (snd (responseErrorLoggerMiddleware unmarshal (SetHeader st ct # map WriteBytes bs) w) \<noteq> [] \<longleftrightarrow>
        299 < st \<and> strContains ct ''application/json'' \<and> concat bs \<noteq> '''')"
proof
  show "ew_out (fst (responseErrorLoggerMiddleware unmarshal acts w)) = ew_out w @ concat [b. WriteBytes b \<leftarrow> acts]"
    by (simp add: responseErrorLoggerMiddleware_def Let_def written_bytes)
  have body: "ew_body (run_logged (map WriteBytes bs) w) = ew_body w
      @ (if 299 < ew_Status w \<and> strContains (ew_ContentType w) ''application/json'' then concat bs else '''')" for w
    by (induction bs arbitrary: w) (simp_all add: errorLogWriter_Write_def Let_def)
  show "snd (responseErrorLoggerMiddleware unmarshal (SetHeader st ct # map WriteBytes bs) w) \<noteq> [] \<longleftrightarrow>
        299 < st \<and> strContains ct ''application/json'' \<and> concat bs \<noteq> ''''"
    by (auto simp: responseErrorLoggerMiddleware_def Let_def body split: sum.split)
qed

text \<open>
  C32. When the server serves. Running the server returns when it has failed or was closed, and
  always with an error (as gin's \<open>Run\<close> and \<open>http.ListenAndServe\<close> document), so a program that
  has served ends with the exit code 1. With options that could be read it ends so, in the state in
  which the server left the world, exactly when it was not asked for help, a password hash or a
  session hash; the configuration provider and the database connection could be made; all four
  timeouts are durations; the bucket of the options was opened, in the way the options ask for, and
  that same bucket was reported as accessible; the middleware was built with the key of the options;
  and the server that ran had the routes of a container with that connection, bucket, timeouts and
  limits. The result of the migrations is not among the conditions.
\<close>

theorem server_start_conditions:
  "go_main P now salt (Inr opts) w = (Exited 1 None, w2) \<longleftrightarrow> (
     \<not> op_Help opts \<and> op_EncodePasswordAction opts = '''' \<and> op_HashJWT opts = ''''
     \<and> op_Provider opts \<in> {''kubernetes'', ''filesystem''}
     \<and> (\<exists>cfg db w1 driver health io up down err.
          CreateConfigurationProvider (pl_files P) (pl_codec P) (pl_k8s P) now (op_Provider opts) (op_Namespace opts)
            (op_ConfigLocalPath opts) = Inr cfg
        \<and> CreateDatabaseDriver (pl_gorm P) (op_DbHostname opts) (op_DbUsername opts) (op_DbPassword opts)
            (op_DbName opts) (op_DbPort opts) '''' w = Inr db
        \<and> snd (InitializeDatabase (pl_gorm P) db w) = w1
        \<and> pl_ParseDuration P (op_StorageHealthTimeout opts) = Inr health
        \<and> pl_ParseDuration P (op_StorageIOTimeout opts) = Inr io
        \<and> pl_ParseDuration P (op_UploadTimeout opts) = Inr up \<and> pl_ParseDuration P (op_DownloadTimeout opts) = Inr down
        \<and> opens_bucket (pl_cloud P) opts w1 driver \<and> bk_IsAccessible (pl_cloud P) driver w1 = (True, None)
        \<and> jwt_New (pl_web P) (op_JwtSecretKey opts) = None
        \<and> gin_Run (pl_web P) (addRoutes (wl_gin (pl_web P)) (served P opts cfg db
             \<lparr>st_storage = driver, st_repository = gd_versions (pl_gorm P) db, st_HealthTimeout = health, st_IOTimeout = io\<rparr>
             up down)) (op_ListenAddr opts) w1 = (Some err, w2)))"
    (is "?ended \<longleftrightarrow> ?conditions")
proof
  assume ?ended
  then show ?conditions
    unfolding go_main_served createContainer_iff createStorage_iff
    by (elim conjE exE) (intro conjI exI, (assumption | erule known_provider | rule refl | simp only: served_key)+)
next
  assume ?conditions
  then show ?ended
    unfolding go_main_served createContainer_iff createStorage_iff
    by (elim conjE exE) (intro conjI exI, (assumption | rule refl | simp only: served_key)+)
qed

text \<open>A program whose database refuses every migration; it serves all the same.\<close>

definition toy_program ::
    "'w os_files \<Rightarrow> 'v doc_codec \<Rightarrow> ('w, unit, 'o) k8s_client \<Rightarrow>
     ('w, unit, 'o, 'v, unit, unit, unit, (string \<times> string \<rightharpoonup> http_handler list) \<times> http_handler list) program_lib" where
  "toy_program F C K = \<lparr>pl_files = F, pl_codec = C, pl_k8s = K,
     pl_gorm = \<lparr>gd_Open = (\<lambda>_ _. Inr ()), gd_AutoMigrate = (\<lambda>_ _ w. (Some ''permission denied'', w)),
       gd_Select = (\<lambda>_. app_Db (toy_app :: ('w, unit) ApplicationContainer)),
       gd_sessions = (\<lambda>_. app_GrantedAccesses (toy_app :: ('w, unit) ApplicationContainer)),
       gd_versions = (\<lambda>_. st_repository (app_Storage (toy_app :: ('w, unit) ApplicationContainer))),
       gd_locks = (\<lambda>_. app_Locks (toy_app :: ('w, unit) ApplicationContainer))\<rparr>,
     pl_cloud = \<lparr>gcp_DefaultCredentials = (\<lambda>_. Inl ''none''), gcp_NewHTTPClient = (\<lambda>_. Inl ''none''),
       gcsblob_OpenBucket = (\<lambda>_ _ _. Inl ''none''),
       blob_OpenBucket = (\<lambda>_ _. Inr (st_storage (app_Storage (toy_app :: ('w, unit) ApplicationContainer)))),
       bk_IsAccessible = (\<lambda>_ _. (True, None))\<rparr>,
     pl_web = \<lparr>wl_gin = list_gin, jwt_New = (\<lambda>_. None), gin_Run = (\<lambda>_ _ w. (Some ''address already in use'', w))\<rparr>,
     pl_argon2 = toy_argon2, pl_ParseDuration = (\<lambda>_. Inr 0)\<rparr>"

definition toy_options :: options where
  "toy_options = \<lparr>op_Help = False, op_Namespace = ''backups'', op_EncodePasswordAction = '''', op_HashJWT = '''',
     op_DbHostname = ''localhost'', op_DbUsername = '''', op_DbPassword = '''', op_DbName = '''', op_DbPort = 5432,
     op_JwtSecretKey = '''', op_HealthCheckKey = '''', op_Level = ''debug'', op_StorageDriverUrl = ''mem://'', op_IsGCS = False,
     op_StorageHealthTimeout = ''5s'', op_StorageIOTimeout = ''2h'', op_UploadTimeout = ''180m'', op_DownloadTimeout = ''180m'',
     op_DefaultRPS = 5, op_AuthRPM = 10, op_CollectionHealthRPM = 10, op_ServerHealthRPM = 160, op_ListenAddr = '':8080'',
     op_Provider = ''filesystem'', op_ConfigLocalPath = ''/etc''\<rparr>"

theorem server_start_conditions_witness:
  "\<forall>(F :: unit os_files) (C :: unit doc_codec) (K :: (unit, unit, unit) k8s_client).
     go_main (toy_program F C K) 0 (Inl ''no salt'') (Inr toy_options) () = (Exited 1 None, ())
     \<and> \<not> fst (InitializeDatabase (pl_gorm (toy_program F C K)) () ())
     \<and> go_main (toy_program F C K) 0 (Inl ''no salt'') (Inr (toy_options\<lparr>op_IsGCS := True\<rparr>)) () \<noteq> (Exited 1 None, ())"
proof (intro allI conjI)
  fix F :: "unit os_files" and C :: "unit doc_codec" and K :: "(unit, unit, unit) k8s_client"
  let ?P = "toy_program F C K"
  have cfg: "\<exists>cfg. CreateConfigurationProvider (pl_files ?P) (pl_codec ?P) (pl_k8s ?P) 0 (op_Provider toy_options)
      (op_Namespace toy_options) (op_ConfigLocalPath toy_options) = Inr cfg"
    by (simp add: CreateConfigurationProvider_def toy_options_def)
  show "go_main ?P 0 (Inl ''no salt'') (Inr toy_options) () = (Exited 1 None, ())"
    unfolding server_start_conditions using cfg
    by (simp add: toy_program_def toy_options_def CreateDatabaseDriver_def opens_bucket_def Let_def)
  show "\<not> fst (InitializeDatabase (pl_gorm ?P) () ())"
    by (simp add: InitializeDatabase_def security_InitializeModel_def toy_program_def)
  show "go_main ?P 0 (Inl ''no salt'') (Inr (toy_options\<lparr>op_IsGCS := True\<rparr>)) () \<noteq> (Exited 1 None, ())"
    unfolding server_start_conditions by (simp add: toy_program_def opens_bucket_def)
qed

end
