(* ===== verification/Spec2Isabelle.thy ===== *)
theory Spec2Isabelle
  imports Prelude Go_Strings Security_Decision Base64 Sha256 Crypto Locking Backup_Window Config Users
    Granted_Access Collections Rotation Stream_Copy Storage Health Http_Auth Http_Collections
    Upload_Correctness Backup_Queue Startup
begin

text \<open>
  \<^bold>\<open>A verification development of the backup repository server\<close> (riotkit-org/backup-repository, Go).

  The server keeps versioned, GPG-encrypted backups. A request for a collection passes the
  authentication middleware, the access decision, the backup windows, a lock in the database, the
  quota and stream checks, the object storage, the table of versions and the rotation of older
  versions. The theories follow the packages under \<open>src/pkg\<close>, one theory per component, and each
  definition is named after the function or type it models.

  \<^bold>\<open>Conventions\<close> (\<open>Prelude\<close>, \<open>Go_Strings\<close>). \<open>int\<close> and \<open>int64\<close> are 64-bit words that wrap around, and
  comparisons go through \<open>sint\<close>; strings and byte slices are \<open>string\<close>; an instant is its number of
  nanoseconds; a pair of a value and an error is a sum, an error being its message; a nil pointer
  is \<open>None\<close>; a panic is \<open>Panic\<close> of the type \<open>outcome\<close>. \<open>Base64\<close> and \<open>Sha256\<close> are the encodings of the Go
  standard library that sessions and secrets use. Code outside the repository (PostgreSQL through
  gorm, the object storage, Kubernetes, argon2, cron schedules, JSON, gin and gin-jwt) is a record
  of its operations on an arbitrary world \<open>'w\<close>; what the code relies on is a named predicate over
  such a record (\<open>locks_ok\<close>, \<open>sessions_ok\<close>, \<open>versions_ok\<close>, \<open>lookups_ok\<close>, \<open>bucket_ok\<close>, \<open>app_frame\<close>, \<open>reliable\<close>,
  \<open>argon2_ok\<close>, \<open>cron_ok\<close>, \<open>jwt_lookup_ok\<close>, \<open>gin_ok\<close>), and an in-memory instance shows that it can hold. Clock readings, random draws and
  generated identifiers are arguments.

  \<^bold>\<open>Components.\<close>
  \<^item> \<open>Security_Decision\<close> (\<open>security/decision.go\<close>, \<open>constants.go\<close>, \<open>model.go\<close>): roles and their
    inheritance, access control lists and \<open>DecideCanDo\<close>. The complete rule, the permission table
    equivalent to the expansion of roles, and that access keys and scopes only narrow. Where the
    documentation says something else (the last element of a scope decides, the table of roles),
    the text of the property says so. The locale
    \<open>session_actor\<close> states what the decision needs of an actor.
  \<^item> \<open>Crypto\<close> (\<open>security/crypto.go\<close>): argon2 hashes as text and session identifiers. Round trip of
    passwords, the panic on a short hash.
  \<^item> \<open>Locking\<close> (\<open>concurrency/locking.go\<close>): \<open>Lock\<close>, \<open>Unlock\<close> and the clean-up. The functions are
    values of the datatype \<open>lock_code\<close>, the effects they run in program order; \<open>run_code\<close> runs one call
    alone, and in the step relation \<open>lock_step\<close> any number of clients interleave the effects of the
    same code. Mutual exclusion of clients that release in time, by an invariant over reachable
    states; what late releases and stale rows do.
  \<^item> \<open>Backup_Window\<close> (\<open>collections/model.go\<close>): windows and the search for the previous run, a loop
    of at most \<open>max_retries + 1\<close> rounds of one minute each (\<open>max_retries\<close> is 60 * 24 * 30 * 12), defined
    with that counter as in the source; it ends, and it is right within its horizon. In the first
    second after an activation the answer is about the window before.
  \<^item> \<open>Config\<close> (\<open>config/*.go\<close>): the filesystem and Kubernetes providers, both interpretations of the
    locale \<open>config_provider\<close>; different documents, by kind, name, group and version, have different
    paths when kind and version are not empty.
  \<^item> \<open>Users\<close> (\<open>users/*.go\<close>): users, access keys and session users (an interpretation of
    \<open>session_actor\<close>). Confinement of access key sessions, identities and passwords at login.
  \<^item> \<open>Granted_Access\<close> (\<open>security/model.go\<close>, \<open>repository.go\<close>, \<open>service.go\<close>): sessions and the claims of
    tokens. Revocation is permanent in every history and concerns the tokens with one digest only;
    logins create valid sessions; which claims of a token, issued with the URL alphabet, are read.
  \<^item> \<open>Collections\<close> (\<open>collections/*.go\<close>): collections, their sizes and version file names.
  \<^item> \<open>Rotation\<close> (\<open>storage/entity.go\<close>, \<open>rotation.go\<close>): versions and FIFO rotation, an interpretation
    of the locale \<open>rotation_strategy\<close>, which states what a strategy promises.
  \<^item> \<open>Stream_Copy\<close> (\<open>storage/io.go\<close>, \<open>validation.go\<close>): the copy loop with its one aliased buffer and
    the four middlewares (locale \<open>chunk_guard\<close>). A stream is the list of its read events; a list
    that ends too early is a read that never returns and gives \<open>None\<close>, so no fuel is needed. The
    quota bounds what is written in every outcome; a well-formed stream is accepted.
  \<^item> \<open>Storage\<close> (\<open>storage/repository.go\<close>, \<open>service.go\<close>, \<open>io.go\<close>): versions, quotas and \<open>UploadFile\<close>.
    The exact upload limit, fresh version numbers and paths, what an upload stores.
  \<^item> \<open>Health\<close> (\<open>health/*.go\<close>): the validators (locale \<open>observing_validator\<close>) and their verdicts.
  \<^item> \<open>Http_Auth\<close> (\<open>core/ctx.go\<close>, \<open>http/auth.go\<close>, \<open>utils.go\<close>, \<open>responses.go\<close>): the container, the
    callbacks of the authentication middleware and the routes about users and sessions. What the
    acting user of a request depends on: the header, not the token that was verified.
  \<^item> \<open>Http_Collections\<close> (\<open>http/collection.go\<close>, \<open>health.go\<close>): the upload, download, listing and health
    handlers, the upload with its lock, its error paths and its deferred release.
  \<^item> \<open>Upload_Correctness\<close>: the properties that span the components above. The quota of a collection
    is an invariant of every history of upload requests (the inductive relation \<open>uploads\<close>); an
    uploaded backup is downloaded unchanged; uploads and downloads are guarded; what happens when
    the database refuses a new row.
  \<^item> \<open>Backup_Queue\<close>: the abstract collection, a bounded queue of contents. The map \<open>backups\<close> reads it
    off the table and the storage, and every history of requests (the inductive relation
    \<open>history\<close>) is simulated by pushes of the accepted bodies; without the version placeholder in
    the file name template backups are lost.
  \<^item> \<open>Startup\<close> (\<open>main.go\<close>, \<open>db/main.go\<close>, \<open>http/main.go\<close>, \<open>http/logging.go\<close>): the program, the services it
    wires, the routing table and the error logger. When the server runs, and with what.

  \<^bold>\<open>Bounds.\<close> Statements about sizes assume that totals stay below \<open>2^63\<close>, and the quota invariant
  that the maximal size of the collection plus one buffer of \<open>2^20\<close> bytes does; below that bound no
  64-bit operation of the code overflows, which the proofs show. Rotation assumes a positive
  maximal number of versions; for others \<open>fifo_nonpositive_limit_panics\<close> shows the panic.

  \<^bold>\<open>Not modelled.\<close> The signing and verification of tokens (gin-jwt), the counting of the rate
  limiter, the goroutine with which the timeout wrapper answers 408 while a handler goes on, log
  levels and the texts of log messages other than those of the error logger, and
  \<open>config/cache.go\<close>, which is empty. Requests run one after the other, except that \<open>Locking\<close>
  interleaves the statements of concurrent clients.
\<close>

end
